(* ===== verification/Prelude.thy ===== *)
theory Prelude
  imports Main "HOL-Library.Word" "HOL-Library.AList" "HOL-Library.Multiset"
begin

text \<open>
  The part of the Go language the development needs everywhere: how a statement can end
  (return, panic, block for ever on a channel), byte slices with their \<open>nil\<close>, maps with
  their unspecified iteration order, fixed-width unsigned integers, and the lemma
  collections the component theories share.
\<close>

section \<open>Shared lemma collections\<close>

named_theorems go_rules \<open>rules that push a postcondition through a program\<close>
named_theorems frame_simps \<open>fields an operation leaves alone\<close>

section \<open>Machine integers\<close>

type_synonym u32 = "32 word"
type_synonym i64 = "64 word"

section \<open>How a Go statement ends\<close>

text \<open>
  A statement returns, panics (which ends the whole process, since the program never
  recovers), or blocks for ever on a channel nobody serves; a blocked statement keeps the
  state it has reached, since other goroutines still see it.
\<close>

datatype go_panic = NilDereference | DivideByZero | SliceOutOfRange | BadTypeAssertion | ExplicitPanic

datatype ('s, 'a) go = Ret 'a | Panic go_panic | Block 's

primrec go_bind :: "('s, 'a) go \<Rightarrow> ('a \<Rightarrow> ('s, 'b) go) \<Rightarrow> ('s, 'b) go" where
  "go_bind (Ret x) k = k x"
| "go_bind (Panic p) k = Panic p"
| "go_bind (Block s) k = Block s"

text \<open>\<open>go_ok B Q r\<close>: a returned value satisfies \<open>Q\<close>, a blocked state satisfies \<open>B\<close>.\<close>

primrec go_ok :: "('s \<Rightarrow> bool) \<Rightarrow> ('a \<Rightarrow> bool) \<Rightarrow> ('s, 'a) go \<Rightarrow> bool" where
  "go_ok B Q (Ret x) = Q x"
| "go_ok B Q (Panic p) = True"
| "go_ok B Q (Block s) = B s"

abbreviation go_keeps :: "('s \<Rightarrow> bool) \<Rightarrow> ('s, 's) go \<Rightarrow> bool" where
  "go_keeps I r \<equiv> go_ok I I r"

primrec go_panics :: "('s, 'a) go \<Rightarrow> bool" where
  "go_panics (Ret x) = False"
| "go_panics (Panic p) = True"
| "go_panics (Block s) = False"

lemma go_bind_assoc:
  "go_bind (go_bind m f) g = go_bind m (\<lambda>x. go_bind (f x) g)"
  by (cases m) auto

lemma go_bind_Ret [simp]: "go_bind m Ret = m"
  by (cases m) auto

lemma go_ok_bind [go_rules]:
  assumes "go_ok B P m" and "\<And>x. P x \<Longrightarrow> go_ok B Q (k x)"
  shows "go_ok B Q (go_bind m k)"
  using assms by (cases m) auto

lemma go_ok_weaken:
  assumes "go_ok B P m" and "\<And>x. P x \<Longrightarrow> Q x" and "\<And>s. B s \<Longrightarrow> C s"
  shows "go_ok C Q m"
  using assms by (cases m) auto

lemma go_ok_RetD: "go_ok B Q r \<Longrightarrow> r = Ret x \<Longrightarrow> Q x"
  by auto

lemma go_ok_BlockD: "go_ok B Q r \<Longrightarrow> r = Block s \<Longrightarrow> B s"
  by auto

lemma go_ok_conj:
  "go_ok B P r \<Longrightarrow> go_ok B Q r \<Longrightarrow> go_ok B (\<lambda>x. P x \<and> Q x) r"
  by (cases r) auto

lemma go_bind_eq_Ret:
  "go_bind m k = Ret y \<longleftrightarrow> (\<exists>x. m = Ret x \<and> k x = Ret y)"
  by (cases m) auto

lemma go_bind_panics:
  "go_panics (go_bind m k) \<longleftrightarrow> go_panics m \<or> (\<exists>x. m = Ret x \<and> go_panics (k x))"
  by (cases m) auto

section \<open>Byte slices\<close>

text \<open>
  Go's \<open>string\<close> and the contents of a \<open>[]byte\<close> are both sequences of bytes, and \<open>char\<close> is
  the type of bytes. A \<open>[]byte\<close> can also be \<open>nil\<close>: it has length 0 and is equal to the
  empty slice under \<open>bytes.Equal\<close>, but differs from it under \<open>!= nil\<close> and in JSON.
\<close>

type_synonym gobytes = "string option"

definition bytes_of :: "gobytes \<Rightarrow> string" where
  "bytes_of b = (case b of None \<Rightarrow> [] | Some s \<Rightarrow> s)"

definition blen :: "gobytes \<Rightarrow> nat" where
  "blen b = length (bytes_of b)"

definition bytes_Equal :: "gobytes \<Rightarrow> gobytes \<Rightarrow> bool" where
  "bytes_Equal a b \<longleftrightarrow> bytes_of a = bytes_of b"

lemma bytes_of_simps [simp]: "bytes_of None = []" "bytes_of (Some s) = s"
  by (simp_all add: bytes_of_def)

lemma bytes_Equal_nonempty:
  "bytes_Equal a b \<Longrightarrow> blen a \<noteq> 0 \<Longrightarrow> a = b"
  by (cases a; cases b) (auto simp: bytes_Equal_def blen_def)

section \<open>Maps\<close>

text \<open>
  A Go map is an association list with distinct keys. The list order stands for nothing in
  Go: a \<open>range\<close> loop visits the entries in an order the runtime chooses, which
  \<open>range_order\<close> below makes an explicit input.
\<close>

type_synonym ('k, 'v) gomap = "('k \<times> 'v) list"

definition gm_get :: "('k, 'v) gomap \<Rightarrow> 'k \<Rightarrow> 'v option" where
  "gm_get m k = map_of m k"

definition gm_put :: "'k \<Rightarrow> 'v \<Rightarrow> ('k, 'v) gomap \<Rightarrow> ('k, 'v) gomap" where
  "gm_put k v m = AList.update k v m"

definition gm_keys :: "('k, 'v) gomap \<Rightarrow> 'k list" where
  "gm_keys m = map fst m"

definition gm_wf :: "('k, 'v) gomap \<Rightarrow> bool" where
  "gm_wf m \<longleftrightarrow> distinct (map fst m)"

text \<open>Reading a missing key yields the zero value of the value type.\<close>

definition gm_get0 :: "'v \<Rightarrow> ('k, 'v) gomap \<Rightarrow> 'k \<Rightarrow> 'v" where
  "gm_get0 z m k = (case gm_get m k of None \<Rightarrow> z | Some v \<Rightarrow> v)"

text \<open>The interface the rest of the development uses, and what follows from it alone.\<close>

locale go_map =
  fixes get :: "'m \<Rightarrow> 'k \<Rightarrow> 'v option"
    and put :: "'k \<Rightarrow> 'v \<Rightarrow> 'm \<Rightarrow> 'm"
    and keys :: "'m \<Rightarrow> 'k list"
    and wf :: "'m \<Rightarrow> bool"
  assumes get_put: "get (put k v m) j = (if j = k then Some v else get m j)"
    and keys_get: "k \<in> set (keys m) \<longleftrightarrow> get m k \<noteq> None"
    and wf_put: "wf m \<Longrightarrow> wf (put k v m)"
    and wf_distinct: "wf m \<Longrightarrow> distinct (keys m)"
begin

lemma get_put_same: "get (put k v m) k = Some v"
  by (simp add: get_put)

lemma get_put_other: "j \<noteq> k \<Longrightarrow> get (put k v m) j = get m j"
  by (simp add: get_put)

lemma set_keys_put: "set (keys (put k v m)) = insert k (set (keys m))"
  by (auto simp: keys_get get_put split: if_splits)

lemma length_keys_put:
  assumes "wf m"
  shows "length (keys (put k v m)) = (if get m k = None then Suc (length (keys m)) else length (keys m))"
proof -
  have "length (keys (put k v m)) = card (insert k (set (keys m)))"
    using wf_distinct [OF wf_put [OF assms]] by (metis distinct_card set_keys_put)
  moreover have "length (keys m) = card (set (keys m))"
    using wf_distinct [OF assms] by (simp add: distinct_card)
  ultimately show ?thesis
    by (cases "get m k") (auto simp: card_insert_if keys_get)
qed

end

lemma gm_get_put: "gm_get (gm_put k v m) j = (if j = k then Some v else gm_get m j)"
  by (simp add: gm_get_def gm_put_def update_conv')

interpretation gm: go_map gm_get gm_put gm_keys gm_wf
proof unfold_locales
  show "gm_get (gm_put k v m) j = (if j = k then Some v else gm_get m j)"
    for k :: 'a and v :: 'b and m j
    by (rule gm_get_put)
  show "k \<in> set (gm_keys m) \<longleftrightarrow> gm_get m k \<noteq> None" for k :: 'a and m :: "('a, 'b) gomap"
    by (simp add: gm_get_def gm_keys_def map_of_eq_None_iff)
  show "gm_wf m \<Longrightarrow> gm_wf (gm_put k v m)" for k :: 'a and v :: 'b and m
    by (simp add: gm_wf_def gm_put_def distinct_update)
  show "gm_wf m \<Longrightarrow> distinct (gm_keys m)" for m :: "('a, 'b) gomap"
    by (simp add: gm_wf_def gm_keys_def)
qed

lemmas gm_get_put_simps [simp] = gm.get_put_same gm.get_put_other

lemma gm_get_Nil [simp]: "gm_get [] k = None"
  by (simp add: gm_get_def)

lemma gm_wf_Nil [simp]: "gm_wf []"
  by (simp add: gm_wf_def)

declare gm.wf_put [simp, intro]

lemma gm_get0_put: "gm_get0 z (gm_put k v m) j = (if j = k then v else gm_get0 z m j)"
  by (simp add: gm_get0_def gm_get_put)

lemma gm_get0_Nil [simp]: "gm_get0 z [] k = z"
  by (simp add: gm_get0_def)

lemma gm_mem_iff: "gm_wf m \<Longrightarrow> (k, v) \<in> set m \<longleftrightarrow> gm_get m k = Some v"
  by (simp add: gm_wf_def gm_get_def)

lemma gm_vals_iff: "gm_wf m \<Longrightarrow> v \<in> set (map snd m) \<longleftrightarrow> (\<exists>k. gm_get m k = Some v)"
  by (simp add: image_iff Bex_def gm_mem_iff [symmetric])

lemma gm_getD: "gm_get m k = Some v \<Longrightarrow> (k, v) \<in> set m"
  by (simp add: gm_get_def map_of_SomeD)

lemma gm_put_set: "set (gm_put k v m) \<subseteq> insert (k, v) (set m)"
  by (induction m) (auto simp: gm_put_def)

lemma gm_put_length: "length (gm_put k v m) = (if gm_get m k = None then Suc (length m) else length m)"
  by (induction m) (auto simp: gm_put_def gm_get_def)

section \<open>The order of a range loop\<close>

text \<open>
  \<open>range_order s xs\<close> is the order number \<open>s\<close> of the entries \<open>xs\<close>: the first entry is number
  \<open>s mod length xs\<close>, and the quotient orders the rest. Every seed gives a permutation, and
  every permutation has a seed, so quantifying over the seed is quantifying over what the
  Go runtime may do.
\<close>

function range_order :: "nat \<Rightarrow> 'a list \<Rightarrow> 'a list" where
  "range_order s xs =
     (if xs = [] then []
      else let i = s mod length xs
           in (xs ! i) # range_order (s div length xs) (take i xs @ drop (Suc i) xs))"
  by pat_completeness auto
termination
proof (relation "measure (\<lambda>(s, xs). length xs)")
  fix s i :: nat and xs :: "'a list"
  assume "xs \<noteq> []" and "i = s mod length xs"
  then have "i < length xs" by simp
  then show "((s div length xs, take i xs @ drop (Suc i) xs), s, xs)
    \<in> measure (\<lambda>(s, xs). length xs)" by simp
qed simp

declare range_order.simps [simp del]

lemma range_order_Nil [simp]: "range_order s [] = []"
  by (simp add: range_order.simps)

lemma mset_take_drop_Suc:
  assumes "i < length xs"
  shows "add_mset (xs ! i) (mset (take i xs @ drop (Suc i) xs)) = mset xs"
proof -
  have "xs = take i xs @ xs ! i # drop (Suc i) xs"
    by (simp add: assms id_take_nth_drop)
  then have "mset xs = mset (take i xs @ xs ! i # drop (Suc i) xs)" by simp
  then show ?thesis by simp
qed

lemma mset_range_order [simp]: "mset (range_order s xs) = mset xs"
proof (induction s xs rule: range_order.induct)
  case (1 s xs)
  show ?case
  proof (cases "xs = []")
    case False
    then have "s mod length xs < length xs" by simp
    from mset_take_drop_Suc [OF this] show ?thesis
      using "1.IH" [OF False refl] False by (subst range_order.simps) (simp add: Let_def)
  qed simp
qed

lemma set_range_order [simp]: "set (range_order s xs) = set xs"
  by (metis mset_range_order set_mset_mset)

lemma length_range_order [simp]: "length (range_order s xs) = length xs"
  by (metis mset_range_order size_mset)

lemma distinct_range_order [simp]: "distinct (range_order s xs) = distinct xs"
  by (metis mset_range_order mset_eq_imp_distinct_iff)

lemma range_order_singleton [simp]: "range_order s [x] = [x]"
  by (simp add: range_order.simps)

lemma range_order_complete: "mset ys = mset xs \<Longrightarrow> \<exists>s. range_order s xs = ys"
proof (induction ys arbitrary: xs)
  case Nil
  then show ?case by simp
next
  case (Cons y ys)
  then have "y \<in> set xs" by (metis list.set_intros(1) mset_eq_setD)
  then obtain i where i: "i < length xs" "xs ! i = y" by (auto simp: in_set_conv_nth)
  let ?r = "take i xs @ drop (Suc i) xs"
  have "add_mset y (mset ?r) = mset xs" using mset_take_drop_Suc [OF i(1)] i(2) by simp
  with Cons.prems have "mset ys = mset ?r"
    by (metis add_mset_add_single add_right_imp_eq mset.simps(2))
  from Cons.IH [OF this] obtain s where s: "range_order s ?r = ys" ..
  let ?s = "s * length xs + i"
  have "?s mod length xs = i" "?s div length xs = s"
    using i(1) by (auto simp: div_add1_eq)
  with i s have "range_order ?s xs = y # ys"
    by (subst range_order.simps) (auto simp: Let_def)
  then show ?case ..
qed

end
