(* ===== verification/Messages.thy ===== *)
theory Messages
  imports Prelude
begin

text \<open>
  The messages of core/msg\_type.go, the request types of core/rpchandler.go and the message
  identifiers of core/node.go, one record per struct with the struct's fields in its order.
  Isabelle's selectors share one name space, so every field carries a prefix for its
  struct. A pointer that a peer can leave \<open>nil\<close> is an option, and so is a slice (\<open>None\<close> is
  the nil slice); a nil map is identified with the empty one, which reads the same.
\<close>

section \<open>Slices and identifiers\<close>

definition slice_of :: "'a list option \<Rightarrow> 'a list" where
  "slice_of s = (case s of None \<Rightarrow> [] | Some xs \<Rightarrow> xs)"

lemma slice_of_simps [simp]: "slice_of None = []" "slice_of (Some xs) = xs"
  by (simp_all add: slice_of_def)

text \<open>\<open>append\<close> to a slice: the result is never nil.\<close>

definition slice_append :: "'a list option \<Rightarrow> 'a \<Rightarrow> 'a list option" where
  "slice_append s x = Some (slice_of s @ [x])"

lemma slice_of_append [simp]: "slice_of (slice_append s x) = slice_of s @ [x]"
  by (simp add: slice_append_def)

record MsgId =
  id_Sn :: u32
  id_View :: u32

record Vcidx =
  vci_View :: u32
  vci_ReplicaId :: u32

abbreviation mkId :: "u32 \<Rightarrow> u32 \<Rightarrow> MsgId" where
  "mkId sn v \<equiv> \<lparr>id_Sn = sn, id_View = v\<rparr>"

section \<open>Requests\<close>

record Request =
  Cmd :: gobytes

record RequestBatch =
  Batch :: "Request option list option"

definition emptyBatch :: RequestBatch where
  "emptyBatch = \<lparr>Batch = None\<rparr>"

section \<open>Protocol messages\<close>

record PrePrepareMsg =
  ppm_SN :: u32
  ppm_BatchHash :: gobytes
  ppm_ReqBatch :: RequestBatch
  ppm_View :: u32
  ppm_ReplicaId :: u32
  ppm_TimeStamp :: i64

record VoteForPrepare =
  vote_SN :: u32
  vote_BatchHash :: gobytes
  vote_View :: u32

record PrepareQc =
  pqc_SN :: u32
  pqc_BatchHash :: gobytes
  pqc_View :: u32
  pqc_ReplicaId :: u32
  pqc_ThresholdSig :: gobytes
  pqc_TimeStamp :: i64

record FastPrepareQc =
  fpqc_SN :: u32
  fpqc_BatchHash :: gobytes
  fpqc_View :: u32
  fpqc_ReplicaId :: u32
  fpqc_ThresholdSig :: gobytes
  fpqc_TimeStamp :: i64

record PrepareMsg =
  pm_Vote :: VoteForPrepare
  pm_ReplicaId :: u32
  pm_PartialSig :: gobytes
  pm_FastPartialSig :: gobytes
  pm_TimeStamp :: i64

record CommitQc =
  cqc_SN :: u32
  cqc_BatchHash :: gobytes
  cqc_View :: u32
  cqc_ReplicaId :: u32
  cqc_ThresholdSig :: gobytes
  cqc_TimeStamp :: i64

record CommitMsg =
  cm_Vote :: PrepareQc
  cm_ReplicaId :: u32
  cm_PartialSig :: gobytes
  cm_TimeStamp :: i64

record CheckpointMsg =
  ck_SeqN :: u32
  ck_StateDigest :: string
  ck_ReplicaId :: u32

record ViewChangeMsg =
  vc_View :: u32
  vc_LastStableCk :: u32
  vc_Cset :: "CheckpointMsg list option"
  vc_Pset :: "(u32, PrePrepareMsg option) gomap"
  vc_Qset :: "(u32, PrepareQc option) gomap"
  vc_ReplicaId :: u32

record NewViewMsg =
  nv_View :: u32
  nv_Vset :: "ViewChangeMsg list option"
  nv_Oset :: "(u32, RequestBatch) gomap"
  nv_ReplicaId :: u32

text \<open>The dynamic types a \<open>MsgWithSig.Command\<close> can have.\<close>

datatype message =
    PrePrepareM PrePrepareMsg
  | PrepareM PrepareMsg
  | CommitM CommitMsg
  | PrepareQcM PrepareQc
  | FastPrepareQcM FastPrepareQc
  | CommitQcM CommitQc
  | CheckpointM CheckpointMsg
  | ViewChangeM ViewChangeMsg
  | ViewChangeQuorumM
  | NewViewM NewViewMsg
  | ViewChangeTimerM

record MsgWithSig =
  Command :: message
  Sig :: gobytes

section \<open>The vote a certificate stands for\<close>

text \<open>The \<open>VoteForPrepare\<close> that handlers build from a certificate before verifying it.\<close>

definition pqc_vote :: "PrepareQc \<Rightarrow> VoteForPrepare" where
  "pqc_vote q = \<lparr>vote_SN = pqc_SN q, vote_BatchHash = pqc_BatchHash q, vote_View = pqc_View q\<rparr>"

definition fpqc_vote :: "FastPrepareQc \<Rightarrow> VoteForPrepare" where
  "fpqc_vote q = \<lparr>vote_SN = fpqc_SN q, vote_BatchHash = fpqc_BatchHash q, vote_View = fpqc_View q\<rparr>"

definition vote_id :: "VoteForPrepare \<Rightarrow> MsgId" where
  "vote_id v = mkId (vote_SN v) (vote_View v)"

end
