(* ===== verification/Encoding.thy ===== *)
theory Encoding
  imports Messages "HOL-Library.Char_ord"
begin

text \<open>
  What the program uses of Go's standard encoders: \<open>strconv.Itoa\<close>, \<open>encoding/hex\<close>,
  \<open>encoding/base64\<close> and \<open>encoding/json\<close> (an \<open>Encoder\<close> with its default HTML escaping, Go 1.12),
  and the helpers of core/utils.go built on them. Every message that is signed or hashed
  is first rendered as JSON here, so the theorems about what a signature binds are theorems
  about these functions.
\<close>

section \<open>Decimal numbers\<close>

definition byte_of :: "char \<Rightarrow> nat" where
  "byte_of c = of_char c"

definition chr :: "nat \<Rightarrow> char" where
  "chr n = char_of n"

lemma byte_of_chr [simp]: "n < 256 \<Longrightarrow> byte_of (chr n) = n"
  by (simp add: byte_of_def chr_def)

lemma chr_byte_of [simp]: "chr (byte_of c) = c"
  by (simp add: byte_of_def chr_def)

lemma byte_of_less [simp]: "byte_of c < 256"
  by (simp add: byte_of_def)

lemma byte_of_inj: "byte_of a = byte_of b \<Longrightarrow> a = b"
  by (metis chr_byte_of)

lemma chr_inj: "chr m = chr n \<Longrightarrow> m < 256 \<Longrightarrow> n < 256 \<Longrightarrow> m = n"
  by (metis byte_of_chr)

fun dec :: "nat \<Rightarrow> string" where
  "dec n = (if n < 10 then [chr (48 + n)] else dec (n div 10) @ [chr (48 + n mod 10)])"

declare dec.simps [simp del]

definition is_digit :: "char \<Rightarrow> bool" where
  "is_digit c \<longleftrightarrow> 48 \<le> byte_of c \<and> byte_of c \<le> 57"

fun undec :: "string \<Rightarrow> nat \<Rightarrow> nat" where
  "undec [] a = a"
| "undec (c # cs) a = undec cs (10 * a + (byte_of c - 48))"

lemma undec_append: "undec (xs @ ys) a = undec ys (undec xs a)"
  by (induction xs arbitrary: a) auto

lemma undec_dec: "undec (dec n) 0 = n"
proof (induction n rule: dec.induct)
  case (1 n)
  show ?case
  proof (cases "n < 10")
    case True
    then show ?thesis by (subst dec.simps) simp
  next
    case False
    with "1.IH" have "undec (dec (n div 10)) 0 = n div 10" by simp
    with False show ?thesis by (subst dec.simps) (simp add: undec_append)
  qed
qed

lemma dec_inj: "dec m = dec n \<Longrightarrow> m = n"
  by (metis undec_dec)

lemma dec_digits: "c \<in> set (dec n) \<Longrightarrow> is_digit c"
proof (induction n rule: dec.induct)
  case (1 n)
  then show ?case
    by (cases "n < 10") (auto simp: dec.simps [of n] is_digit_def split: if_splits)
qed

lemma dec_nonempty [simp]: "dec n \<noteq> []"
  by (subst dec.simps) simp

text \<open>Go's \<open>strconv.Itoa\<close>, and the JSON form of an integer.\<close>

definition itoa :: "int \<Rightarrow> string" where
  "itoa i = (if i < 0 then ''-'' @ dec (nat (- i)) else dec (nat i))"

definition is_numchar :: "char \<Rightarrow> bool" where
  "is_numchar c \<longleftrightarrow> is_digit c \<or> c = CHR ''-''"

lemma minus_not_digit: "\<not> is_digit (CHR ''-'')"
  by (simp add: is_digit_def byte_of_def)

lemma itoa_numchars: "c \<in> set (itoa i) \<Longrightarrow> is_numchar c"
  by (auto simp: itoa_def is_numchar_def dest: dec_digits split: if_splits)

lemma itoa_nonempty [simp]: "itoa i \<noteq> []"
  by (simp add: itoa_def)

lemma dec_no_minus: "dec n \<noteq> CHR ''-'' # xs"
  by (metis dec_digits list.set_intros(1) minus_not_digit)

lemma itoa_inj: "itoa i = itoa j \<Longrightarrow> i = j"
  using dec_no_minus dec_no_minus [symmetric]
  by (auto simp: itoa_def dest!: dec_inj split: if_splits)

section \<open>Hexadecimal\<close>

definition hexdigit :: "nat \<Rightarrow> char" where
  "hexdigit n = (if n < 10 then chr (48 + n) else chr (87 + n))"

definition unhex :: "char \<Rightarrow> nat option" where
  "unhex c =
     (let b = byte_of c in
      if 48 \<le> b \<and> b \<le> 57 then Some (b - 48)
      else if 97 \<le> b \<and> b \<le> 102 then Some (b - 87)
      else if 65 \<le> b \<and> b \<le> 70 then Some (b - 55)
      else None)"

fun hex_encode :: "string \<Rightarrow> string" where
  "hex_encode [] = []"
| "hex_encode (c # cs) =
     hexdigit (byte_of c div 16) # hexdigit (byte_of c mod 16) # hex_encode cs"

text \<open>
  \<open>hex.DecodeString\<close>: the bytes decoded before the first error, and whether there was none.
\<close>

fun hex_decode :: "string \<Rightarrow> string \<times> bool" where
  "hex_decode [] = ([], True)"
| "hex_decode [c] = ([], False)"
| "hex_decode (a # b # cs) =
     (case (unhex a, unhex b) of
        (Some x, Some y) \<Rightarrow> (let (s, ok) = hex_decode cs in (chr (16 * x + y) # s, ok))
      | _ \<Rightarrow> ([], False))"

lemma unhex_hexdigit [simp]: "n < 16 \<Longrightarrow> unhex (hexdigit n) = Some n"
  by (auto simp: unhex_def hexdigit_def Let_def)

lemma hex_decode_encode: "hex_decode (hex_encode s) = (s, True)"
proof (induction s)
  case (Cons c cs)
  have "byte_of c div 16 < 16" using byte_of_less [of c] by arith
  moreover have "16 * (byte_of c div 16) + byte_of c mod 16 = byte_of c" by simp
  ultimately show ?case using Cons by simp
qed simp

lemma hex_encode_inj: "hex_encode s = hex_encode t \<Longrightarrow> s = t"
  by (metis hex_decode_encode prod.inject)

section \<open>Base64\<close>

definition b64char :: "nat \<Rightarrow> char" where
  "b64char n =
     (if n < 26 then chr (65 + n) else if n < 52 then chr (71 + n)
      else if n < 62 then chr (n - 4) else if n = 62 then CHR ''+'' else CHR ''/'')"

definition unb64char :: "char \<Rightarrow> nat option" where
  "unb64char c =
     (let b = byte_of c in
      if 65 \<le> b \<and> b \<le> 90 then Some (b - 65)
      else if 97 \<le> b \<and> b \<le> 122 then Some (b - 71)
      else if 48 \<le> b \<and> b \<le> 57 then Some (b + 4)
      else if b = 43 then Some 62 else if b = 47 then Some 63 else None)"

fun b64_encode :: "string \<Rightarrow> string" where
  "b64_encode [] = []"
| "b64_encode [a] =
     [b64char (byte_of a div 4), b64char (byte_of a mod 4 * 16), CHR ''='', CHR ''='']"
| "b64_encode [a, b] =
     [b64char (byte_of a div 4), b64char (byte_of a mod 4 * 16 + byte_of b div 16),
      b64char (byte_of b mod 16 * 4), CHR ''='']"
| "b64_encode (a # b # c # cs) =
     b64char (byte_of a div 4) # b64char (byte_of a mod 4 * 16 + byte_of b div 16) #
     b64char (byte_of b mod 16 * 4 + byte_of c div 64) # b64char (byte_of c mod 64) #
     b64_encode cs"

lemma unb64_b64char [simp]: "n < 64 \<Longrightarrow> unb64char (b64char n) = Some n"
  by (auto simp: unb64char_def b64char_def Let_def byte_of_def [of "CHR ''+''"]
    byte_of_def [of "CHR ''/''"])

lemma b64char_not_eq: "n < 64 \<Longrightarrow> b64char n \<noteq> CHR ''=''"
proof
  assume "n < 64" and "b64char n = CHR ''=''"
  then have "unb64char (CHR ''='') = Some n" by (metis unb64_b64char)
  then show False by (simp add: unb64char_def byte_of_def Let_def)
qed

lemma b64char_inj: "b64char m = b64char n \<Longrightarrow> m < 64 \<Longrightarrow> n < 64 \<Longrightarrow> m = n"
  by (metis option.inject unb64_b64char)

lemma b64char_not_quote: "n < 64 \<Longrightarrow> b64char n \<noteq> CHR 0x22"
proof
  assume "n < 64" and "b64char n = CHR 0x22"
  then have "unb64char (CHR 0x22) = Some n" by (metis unb64_b64char)
  then show False by (simp add: unb64char_def byte_of_def Let_def)
qed


text \<open>The decoder (without its skipping of line breaks): \<open>None\<close> is a corrupt input.\<close>

fun b64_decode :: "string \<Rightarrow> string option" where
  "b64_decode [] = Some []"
| "b64_decode (a # b # c # d # cs) =
     (case (unb64char a, unb64char b) of
        (Some x, Some y) \<Rightarrow>
          (if cs = [] \<and> c = CHR ''='' \<and> d = CHR ''='' then Some [chr (4 * x + y div 16)]
           else (case unb64char c of None \<Rightarrow> None | Some z \<Rightarrow>
             (if cs = [] \<and> d = CHR ''=''
              then Some [chr (4 * x + y div 16), chr (y mod 16 * 16 + z div 4)]
              else (case (unb64char d, b64_decode cs) of
                 (Some w, Some s) \<Rightarrow>
                   Some (chr (4 * x + y div 16) # chr (y mod 16 * 16 + z div 4) #
                         chr (z mod 4 * 64 + w) # s)
               | _ \<Rightarrow> None))))
      | _ \<Rightarrow> None)"
| "b64_decode _ = None"

lemma b64_bounds [simp]:
  "byte_of a div 4 < 64" "byte_of a mod 4 * 16 < 64" "byte_of b mod 16 * 4 < 64"
  "byte_of a mod 4 * 16 + byte_of b div 16 < 64"
  "byte_of b mod 16 * 4 + byte_of c div 64 < 64" "byte_of c mod 64 < 64"
  using byte_of_less [of a] byte_of_less [of b] byte_of_less [of c] by (simp_all, arith+)

lemma b64_quotients [simp]:
  "byte_of b div 16 div 16 = 0" "byte_of b div 16 mod 16 = byte_of b div 16"
  "byte_of c div 64 div 4 = 0" "byte_of c div 64 mod 4 = byte_of c div 64"
proof -
  have "byte_of b div 16 < 16" and "byte_of c div 64 < 4"
    by (simp_all add: less_mult_imp_div_less)
  then show "byte_of b div 16 div 16 = 0" "byte_of b div 16 mod 16 = byte_of b div 16"
    "byte_of c div 64 div 4 = 0" "byte_of c div 64 mod 4 = byte_of c div 64"
    by simp_all
qed

lemma b64_decode_encode: "b64_decode (b64_encode s) = Some s"
  by (induction s rule: b64_encode.induct) (simp_all add: b64char_not_eq)

lemma b64_encode_inj: "b64_encode s = b64_encode t \<Longrightarrow> s = t"
  by (metis b64_decode_encode option.inject)

lemma b64_no_quote: "CHR 0x22 \<notin> set (b64_encode s)"
  by (induction s rule: b64_encode.induct) (auto dest!: sym [of "CHR 0x22"] simp: b64char_not_quote)

end
