(* ===== verification/Json.thy ===== *)
theory Json
  imports Encoding "HOL-Library.List_Lexorder"
begin

text \<open>
  \<open>encoding/json\<close> as core/utils.go's \<open>encode\<close> uses it: the JSON value of each message struct
  (fields in declaration order, \<open>[]byte\<close> in base64, nil as \<open>null\<close>, integer-keyed maps as
  objects with their keys sorted as strings), its compact text, and the proof that the text
  determines the value.
\<close>

section \<open>JSON values and their text\<close>

datatype json =
    JNull
  | JNum int
  | JText string
  | JArr "json list"
  | JObj "(string \<times> json) list"

text \<open>Which bytes \<open>encoding/json\<close> copies unchanged (its \<open>htmlSafeSet\<close>).\<close>

definition html_safe :: "char \<Rightarrow> bool" where
  "html_safe c \<longleftrightarrow>
     (let b = byte_of c in 32 \<le> b \<and> b < 128 \<and> b \<notin> {34, 92, 60, 62, 38})"

definition is_cont :: "char \<Rightarrow> bool" where
  "is_cont c \<longleftrightarrow> 128 \<le> byte_of c \<and> byte_of c \<le> 191"

text \<open>The length of the well-formed UTF-8 sequence at the head of a string, 0 if there is none.\<close>

fun utf8_size :: "string \<Rightarrow> nat" where
  "utf8_size [] = 0"
| "utf8_size (c0 # cs) =
     (let b0 = byte_of c0 in
      if b0 < 128 then 1
      else if 194 \<le> b0 \<and> b0 \<le> 223 then
        (case cs of c1 # _ \<Rightarrow> if is_cont c1 then 2 else 0 | _ \<Rightarrow> 0)
      else if 224 \<le> b0 \<and> b0 \<le> 239 then
        (case cs of c1 # c2 # _ \<Rightarrow>
           if is_cont c1 \<and> is_cont c2 \<and> (b0 = 224 \<longrightarrow> 160 \<le> byte_of c1) \<and> (b0 = 237 \<longrightarrow> byte_of c1 \<le> 159)
           then 3 else 0
         | _ \<Rightarrow> 0)
      else if 240 \<le> b0 \<and> b0 \<le> 244 then
        (case cs of c1 # c2 # c3 # _ \<Rightarrow>
           if is_cont c1 \<and> is_cont c2 \<and> is_cont c3 \<and> (b0 = 240 \<longrightarrow> 144 \<le> byte_of c1) \<and>
              (b0 = 244 \<longrightarrow> byte_of c1 \<le> 143)
           then 4 else 0
         | _ \<Rightarrow> 0)
      else 0)"

definition esc_ascii :: "char \<Rightarrow> string" where
  "esc_ascii c =
     (let b = byte_of c in
      if html_safe c then [c]
      else if b = 34 \<or> b = 92 then [chr 92, c]
      else if b = 10 then [chr 92, CHR ''n'']
      else if b = 13 then [chr 92, CHR ''r'']
      else if b = 9 then [chr 92, CHR ''t'']
      else chr 92 # ''u00'' @ [hexdigit (b div 16), hexdigit (b mod 16)])"

function json_escape :: "string \<Rightarrow> string" where
  "json_escape [] = []"
| "json_escape (c # cs) =
     (if byte_of c < 128 then esc_ascii c @ json_escape cs
      else (let k = utf8_size (c # cs); rune = take k (c # cs) in
        if k = 0 then chr 92 # ''ufffd'' @ json_escape cs
        else (if map byte_of rune = [226, 128, 168] then chr 92 # ''u2028''
              else if map byte_of rune = [226, 128, 169] then chr 92 # ''u2029''
              else rune) @ json_escape (drop (k - 1) cs)))"
  by pat_completeness auto
termination
  by (relation "measure length") auto

definition json_quote :: "string \<Rightarrow> string" where
  "json_quote s = CHR 0x22 # json_escape s @ [CHR 0x22]"

fun joinc :: "string list \<Rightarrow> string" where
  "joinc [] = []"
| "joinc [x] = x"
| "joinc (x # y # xs) = x @ CHR '','' # joinc (y # xs)"

definition member_text :: "string \<times> string \<Rightarrow> string" where
  "member_text p = json_quote (fst p) @ CHR '':'' # snd p"

primrec render :: "json \<Rightarrow> string" where
  "render JNull = ''null''"
| "render (JNum i) = itoa i"
| "render (JText s) = json_quote s"
| "render (JArr vs) = CHR ''['' # joinc (map render vs) @ '']''"
| "render (JObj kvs) = CHR ''{'' # joinc (map member_text (map (map_prod id render) kvs)) @ ''}''"

section \<open>JSON values of the message structs\<close>

definition j_u32 :: "u32 \<Rightarrow> json" where
  "j_u32 w = JNum (uint w)"

definition j_i64 :: "i64 \<Rightarrow> json" where
  "j_i64 w = JNum (sint w)"

definition j_bytes :: "gobytes \<Rightarrow> json" where
  "j_bytes b = (case b of None \<Rightarrow> JNull | Some s \<Rightarrow> JText (b64_encode s))"

definition j_ptr :: "('a \<Rightarrow> json) \<Rightarrow> 'a option \<Rightarrow> json" where
  "j_ptr f p = (case p of None \<Rightarrow> JNull | Some x \<Rightarrow> f x)"

definition j_slice :: "('a \<Rightarrow> json) \<Rightarrow> 'a list option \<Rightarrow> json" where
  "j_slice f s = (case s of None \<Rightarrow> JNull | Some xs \<Rightarrow> JArr (map f xs))"

definition j_map :: "('a \<Rightarrow> json) \<Rightarrow> (u32, 'a) gomap \<Rightarrow> json" where
  "j_map f m = JObj (sort_key fst (map (\<lambda>(k, v). (itoa (uint k), f v)) m))"

definition j_Request :: "Request \<Rightarrow> json" where
  "j_Request r = JObj [(''Cmd'', j_bytes (Cmd r))]"

definition j_RequestBatch :: "RequestBatch \<Rightarrow> json" where
  "j_RequestBatch b = JObj [(''Batch'', j_slice (j_ptr j_Request) (Batch b))]"

definition j_PrePrepareMsg :: "PrePrepareMsg \<Rightarrow> json" where
  "j_PrePrepareMsg m = JObj
     [(''SN'', j_u32 (ppm_SN m)), (''BatchHash'', j_bytes (ppm_BatchHash m)),
      (''ReqBatch'', j_RequestBatch (ppm_ReqBatch m)), (''View'', j_u32 (ppm_View m)),
      (''ReplicaId'', j_u32 (ppm_ReplicaId m)), (''TimeStamp'', j_i64 (ppm_TimeStamp m))]"

definition j_VoteForPrepare :: "VoteForPrepare \<Rightarrow> json" where
  "j_VoteForPrepare v = JObj
     [(''SN'', j_u32 (vote_SN v)), (''BatchHash'', j_bytes (vote_BatchHash v)),
      (''View'', j_u32 (vote_View v))]"

definition j_PrepareQc :: "PrepareQc \<Rightarrow> json" where
  "j_PrepareQc q = JObj
     [(''SN'', j_u32 (pqc_SN q)), (''BatchHash'', j_bytes (pqc_BatchHash q)),
      (''View'', j_u32 (pqc_View q)), (''ReplicaId'', j_u32 (pqc_ReplicaId q)),
      (''ThresholdSig'', j_bytes (pqc_ThresholdSig q)), (''TimeStamp'', j_i64 (pqc_TimeStamp q))]"

definition j_FastPrepareQc :: "FastPrepareQc \<Rightarrow> json" where
  "j_FastPrepareQc q = JObj
     [(''SN'', j_u32 (fpqc_SN q)), (''BatchHash'', j_bytes (fpqc_BatchHash q)),
      (''View'', j_u32 (fpqc_View q)), (''ReplicaId'', j_u32 (fpqc_ReplicaId q)),
      (''ThresholdSig'', j_bytes (fpqc_ThresholdSig q)), (''TimeStamp'', j_i64 (fpqc_TimeStamp q))]"

definition j_PrepareMsg :: "PrepareMsg \<Rightarrow> json" where
  "j_PrepareMsg m = JObj
     [(''Vote'', j_VoteForPrepare (pm_Vote m)), (''ReplicaId'', j_u32 (pm_ReplicaId m)),
      (''PartialSig'', j_bytes (pm_PartialSig m)),
      (''FastPartialSig'', j_bytes (pm_FastPartialSig m)), (''TimeStamp'', j_i64 (pm_TimeStamp m))]"

definition j_CommitQc :: "CommitQc \<Rightarrow> json" where
  "j_CommitQc q = JObj
     [(''SN'', j_u32 (cqc_SN q)), (''BatchHash'', j_bytes (cqc_BatchHash q)),
      (''View'', j_u32 (cqc_View q)), (''ReplicaId'', j_u32 (cqc_ReplicaId q)),
      (''ThresholdSig'', j_bytes (cqc_ThresholdSig q)), (''TimeStamp'', j_i64 (cqc_TimeStamp q))]"

definition j_CommitMsg :: "CommitMsg \<Rightarrow> json" where
  "j_CommitMsg m = JObj
     [(''Vote'', j_PrepareQc (cm_Vote m)), (''ReplicaId'', j_u32 (cm_ReplicaId m)),
      (''PartialSig'', j_bytes (cm_PartialSig m)), (''TimeStamp'', j_i64 (cm_TimeStamp m))]"

definition j_CheckpointMsg :: "CheckpointMsg \<Rightarrow> json" where
  "j_CheckpointMsg c = JObj
     [(''SeqN'', j_u32 (ck_SeqN c)), (''StateDigest'', JText (ck_StateDigest c)),
      (''ReplicaId'', j_u32 (ck_ReplicaId c))]"

definition j_ViewChangeMsg :: "ViewChangeMsg \<Rightarrow> json" where
  "j_ViewChangeMsg m = JObj
     [(''View'', j_u32 (vc_View m)), (''LastStableCk'', j_u32 (vc_LastStableCk m)),
      (''Cset'', j_slice j_CheckpointMsg (vc_Cset m)),
      (''Pset'', j_map (j_ptr j_PrePrepareMsg) (vc_Pset m)),
      (''Qset'', j_map (j_ptr j_PrepareQc) (vc_Qset m)), (''ReplicaId'', j_u32 (vc_ReplicaId m))]"

definition j_NewViewMsg :: "NewViewMsg \<Rightarrow> json" where
  "j_NewViewMsg m = JObj
     [(''View'', j_u32 (nv_View m)), (''Vset'', j_slice j_ViewChangeMsg (nv_Vset m)),
      (''Oset'', j_map j_RequestBatch (nv_Oset m)), (''ReplicaId'', j_u32 (nv_ReplicaId m))]"

fun j_message :: "message \<Rightarrow> json" where
  "j_message (PrePrepareM m) = j_PrePrepareMsg m"
| "j_message (PrepareM m) = j_PrepareMsg m"
| "j_message (CommitM m) = j_CommitMsg m"
| "j_message (PrepareQcM q) = j_PrepareQc q"
| "j_message (FastPrepareQcM q) = j_FastPrepareQc q"
| "j_message (CommitQcM q) = j_CommitQc q"
| "j_message (CheckpointM c) = j_CheckpointMsg c"
| "j_message (ViewChangeM m) = j_ViewChangeMsg m"
| "j_message ViewChangeQuorumM = JObj []"
| "j_message (NewViewM m) = j_NewViewMsg m"
| "j_message ViewChangeTimerM = JObj []"

text \<open>
  \<open>encode\<close> of core/utils.go: \<open>json.NewEncoder(\&buf).Encode(data)\<close>, which ends the text with a
  newline. Marshalling can fail in Go only for channels, functions, cyclic values and the
  like, none of which a message contains; the error result is kept as the option.
\<close>

definition encode :: "json \<Rightarrow> gobytes" where
  "encode v = Some (render v @ [chr 10])"

section \<open>The text determines the value\<close>

text \<open>
  Text in which every string needs no escaping: what honest replicas produce (base64 text,
  struct field names, decimal keys and the empty state digest).
\<close>

fun safe_text :: "string \<Rightarrow> bool" where
  "safe_text s \<longleftrightarrow> (\<forall>c \<in> set s. html_safe c)"

declare safe_text.simps [simp del]

primrec json_plain :: "json \<Rightarrow> bool" where
  "json_plain JNull = True"
| "json_plain (JNum i) = True"
| "json_plain (JText s) = safe_text s"
| "json_plain (JArr vs) = list_all (\<lambda>b. b) (map json_plain vs)"
| "json_plain (JObj kvs) = list_all (\<lambda>p. safe_text (fst p) \<and> snd p) (map (map_prod id json_plain) kvs)"

lemma html_safe_ascii: "html_safe c \<Longrightarrow> byte_of c < 128"
  by (simp add: html_safe_def Let_def)

lemma json_escape_safe: "safe_text s \<Longrightarrow> json_escape s = s"
  by (induction s) (simp_all add: safe_text.simps esc_ascii_def html_safe_ascii Let_def)

lemma safe_no_quote: "safe_text s \<Longrightarrow> CHR 0x22 \<notin> set s"
  by (auto simp: safe_text.simps html_safe_def byte_of_def Let_def)

lemma b64_safe: "safe_text (b64_encode s)"
proof -
  have char: "n < 64 \<Longrightarrow> html_safe (b64char n)" for n
    by (auto simp: b64char_def html_safe_def Let_def byte_of_def [of "CHR ''+''"]
      byte_of_def [of "CHR ''/''"])
  have eq: "html_safe (CHR ''='')" by (simp add: html_safe_def byte_of_def Let_def)
  show ?thesis
    unfolding safe_text.simps
    by (induction s rule: b64_encode.induct) (auto simp: eq intro: char)
qed

lemma split_at_char:
  assumes "xs @ c # r = ys @ c # s" and "c \<notin> set xs" and "c \<notin> set ys"
  shows "xs = ys \<and> r = s"
proof -
  have "takeWhile (\<lambda>x. x \<noteq> c) (xs @ c # r) = xs" "takeWhile (\<lambda>x. x \<noteq> c) (ys @ c # s) = ys"
    using assms(2,3) by (simp_all add: takeWhile_append)
  with assms(1) show ?thesis by auto
qed

lemma json_quote_split:
  assumes "json_quote a @ r = json_quote b @ s" and "safe_text a" and "safe_text b"
  shows "a = b \<and> r = s"
proof -
  from assms have "a @ CHR 0x22 # r = b @ CHR 0x22 # s"
    by (simp add: json_quote_def json_escape_safe)
  then show ?thesis by (rule split_at_char) (use assms in \<open>simp_all add: safe_no_quote\<close>)
qed

text \<open>A text that can follow a value: it is empty or starts with a byte no number contains.\<close>

definition delim :: "string \<Rightarrow> bool" where
  "delim r \<longleftrightarrow> (case r of [] \<Rightarrow> True | c # _ \<Rightarrow> \<not> is_numchar c)"

lemma itoa_split:
  assumes "itoa i @ r = itoa j @ s" and "delim r" and "delim s"
  shows "i = j \<and> r = s"
proof -
  have all: "\<forall>c \<in> set (itoa k). is_numchar c" for k by (blast intro: itoa_numchars)
  have stop: "takeWhile is_numchar t = []" if "delim t" for t
    using that by (cases t) (auto simp: delim_def)
  have "takeWhile is_numchar (itoa k @ t) = itoa k" if "delim t" for k t
    using all [of k] stop [OF that] by (simp add: takeWhile_append2)
  with assms have "itoa i = itoa j" by metis
  with assms(1) show ?thesis by (auto dest: itoa_inj)
qed


lemma joinc_map_Cons:
  "joinc (map f (x # xs)) = f x @ concat (map (\<lambda>x. CHR '','' # f x) xs)"
  by (induction xs arbitrary: x) auto

lemma delim_simps [simp]:
  "delim []" "delim (CHR '','' # r)" "delim (CHR '']'' # r)" "delim (CHR ''}'' # r)"
  "delim (chr 10 # r)"
  by (simp_all add: delim_def is_numchar_def is_digit_def byte_of_def chr_def, code_simp)

text \<open>Items that are split uniquely stay so in a comma-separated list with a closing bracket.\<close>

definition splits :: "('a \<Rightarrow> string) \<Rightarrow> 'a \<Rightarrow> 'a \<Rightarrow> bool" where
  "splits f x y \<longleftrightarrow>
     (\<forall>r s. f x @ r = f y @ s \<and> delim r \<and> delim s \<longrightarrow> x = y \<and> r = s)"

lemma items_split:
  assumes "\<And>x y. x \<in> set xs \<Longrightarrow> y \<in> set ys \<Longrightarrow> splits f x y"
    and "e = CHR '']'' \<or> e = CHR ''}''"
    and "concat (map (\<lambda>x. CHR '','' # f x) xs) @ e # r = concat (map (\<lambda>x. CHR '','' # f x) ys) @ e # s"
  shows "xs = ys \<and> r = s"
  using assms
proof (induction xs arbitrary: ys)
  case Nil
  then show ?case by (cases ys) auto
next
  case (Cons x xs)
  from Cons.prems(2,3) obtain y zs where ys: "ys = y # zs" by (cases ys) auto
  let ?t = "\<lambda>xs r. concat (map (\<lambda>x. CHR '','' # f x) xs) @ e # r"
  have d: "delim (?t us v)" for us v
    using Cons.prems(2) by (cases us) auto
  from Cons.prems(3) ys have "f x @ ?t xs r = f y @ ?t zs s" by simp
  moreover have "splits f x y" using Cons.prems(1) ys by simp
  ultimately have "x = y" and rest: "?t xs r = ?t zs s"
    using d by (auto simp: splits_def)
  moreover have "xs = zs \<and> r = s"
    using Cons.prems(1,2) ys rest by (intro Cons.IH) auto
  ultimately show ?case using ys by simp
qed

lemma joinc_split:
  assumes "\<And>x y. x \<in> set xs \<Longrightarrow> y \<in> set ys \<Longrightarrow> splits f x y"
    and first: "\<And>x. x \<in> set xs \<union> set ys \<Longrightarrow> f x \<noteq> [] \<and> hd (f x) \<noteq> e"
    and e: "e = CHR '']'' \<or> e = CHR ''}''"
    and eq: "joinc (map f xs) @ e # r = joinc (map f ys) @ e # s"
  shows "xs = ys \<and> r = s"
proof -
  have clash: "e # t \<noteq> f y @ u" if "y \<in> set xs \<union> set ys" for t y u
    using first [OF that] by (cases "f y") auto
  show ?thesis
  proof (cases xs; cases ys)
    fix x xs' y ys'
    assume xs: "xs = x # xs'" and ys: "ys = y # ys'"
    have "concat (map (\<lambda>x. CHR '','' # f x) xs) @ e # r =
      concat (map (\<lambda>x. CHR '','' # f x) ys) @ e # s"
      using eq xs ys by (simp only: joinc_map_Cons) simp
    with assms(1) e show ?thesis by (rule items_split)
  qed (use eq clash clash [symmetric] in \<open>auto simp del: list.map(2) simp: joinc_map_Cons\<close>)
qed

lemma render_first:
  "render v \<noteq> [] \<and> hd (render v) \<noteq> CHR '']'' \<and> hd (render v) \<noteq> CHR ''}''"
proof (cases v)
  case (JNum i)
  have "is_numchar (hd (itoa i))" by (rule itoa_numchars [of _ i]) simp
  then show ?thesis using JNum
    by (auto simp: is_numchar_def is_digit_def byte_of_def)
qed (simp_all add: json_quote_def)

lemma itoa_first_clash:
  "\<not> is_numchar c \<Longrightarrow> itoa i @ r \<noteq> c # s"
  by (cases "itoa i") (use itoa_numchars [of "hd (itoa i)" i] in auto)

lemma numchar_facts [simp]:
  "\<not> is_numchar (CHR ''n'')" "\<not> is_numchar (CHR 0x22)" "\<not> is_numchar (CHR ''['')"
  "\<not> is_numchar (CHR ''{'')"
  by (simp_all add: is_numchar_def is_digit_def byte_of_def)

lemmas itoa_clash = itoa_first_clash itoa_first_clash [symmetric]

text \<open>The induction: a rendered value followed by a delimiter is split uniquely.\<close>

lemma member_splits:
  assumes "\<And>r s. render v @ r = render w @ s \<Longrightarrow> delim r \<Longrightarrow> delim s \<Longrightarrow> v = w \<and> r = s"
    and "safe_text k" and "safe_text l"
  shows "splits (member_text \<circ> map_prod id render) (k, v) (l, w)"
  unfolding splits_def
proof (intro allI impI)
  fix r s
  assume a: "(member_text \<circ> map_prod id render) (k, v) @ r =
      (member_text \<circ> map_prod id render) (l, w) @ s \<and> delim r \<and> delim s"
  then have "json_quote k @ (CHR '':'' # render v @ r) = json_quote l @ (CHR '':'' # render w @ s)"
    by (simp add: member_text_def)
  from json_quote_split [OF this assms(2,3)] have "k = l" "render v @ r = render w @ s" by simp_all
  with assms(1) a show "(k, v) = (l, w) \<and> r = s" by blast
qed

lemma render_split:
  assumes "json_plain v" and "json_plain w" and "render v @ r = render w @ s"
    and "delim r" and "delim s"
  shows "v = w \<and> r = s"
  using assms
proof (induction v arbitrary: w r s)
  case JNull
  then show ?case
    by (cases w) (auto simp: json_quote_def itoa_clash)
next
  case (JNum i)
  then show ?case
    by (cases w) (auto simp: json_quote_def itoa_clash dest: itoa_split)
next
  case (JText t)
  then show ?case
    by (cases w) (auto simp: itoa_clash dest: json_quote_split, auto simp: json_quote_def itoa_clash)
next
  case (JArr vs)
  from JArr.prems(3) obtain ws where w: "w = JArr ws"
    by (cases w) (auto simp: json_quote_def itoa_clash)
  have pl: "\<forall>x \<in> set vs. json_plain x" "\<forall>x \<in> set ws. json_plain x"
    using JArr.prems(1,2) w by (simp_all add: list_all_iff)
  have "vs = ws \<and> r = s"
  proof (rule joinc_split)
    fix x y assume "x \<in> set vs" "y \<in> set ws"
    with JArr.IH pl show "splits render x y" unfolding splits_def by blast
  next
    show "joinc (map render vs) @ CHR '']'' # r = joinc (map render ws) @ CHR '']'' # s"
      using JArr.prems(3) w by simp
  qed (use render_first in auto)
  with w show ?case by simp
next
  case (JObj kvs)
  from JObj.prems(3) obtain kws where w: "w = JObj kws"
    by (cases w) (auto simp: json_quote_def itoa_clash)
  have pl: "\<forall>(k, x) \<in> set kvs. safe_text k \<and> json_plain x"
      "\<forall>(k, x) \<in> set kws. safe_text k \<and> json_plain x"
    using JObj.prems(1,2) w by (auto simp: list_all_iff)
  have "kvs = kws \<and> r = s"
  proof (rule joinc_split)
    fix x y assume x: "x \<in> set kvs" and y: "y \<in> set kws"
    obtain k v l u where xy: "x = (k, v)" "y = (l, u)" by (cases x; cases y)
    have "render v @ r = render u @ s \<Longrightarrow> delim r \<Longrightarrow> delim s \<Longrightarrow> v = u \<and> r = s" for r s
      using JObj.IH [of x v u r s] x y xy pl by auto
    then show "splits (member_text \<circ> map_prod id render) x y"
      using x y xy pl by (auto intro: member_splits)
  next
    show "joinc (map (member_text \<circ> map_prod id render) kvs) @ CHR ''}'' # r =
        joinc (map (member_text \<circ> map_prod id render) kws) @ CHR ''}'' # s"
      using JObj.prems(3) w by simp
  qed (auto simp: member_text_def json_quote_def)
  with w show ?case by simp
qed

lemma encode_inj: "encode v = encode w \<Longrightarrow> json_plain v \<Longrightarrow> json_plain w \<Longrightarrow> v = w"
  using render_split [of v w "[chr 10]" "[chr 10]"] by (simp add: encode_def)

end
