(* ===== verification/Sign.thy ===== *)
theory Sign
  imports Json
begin

text \<open>
  The sign package (sign/tools.go). The primitives it calls (SHA-256, Ed25519, and kyber's
  BLS threshold signatures) are parameters: the record \<open>crypto\<close> has one field per library
  function the package uses. Values of kyber's types are opaque handles that the model only
  passes to those functions. The package hashes every message with SHA-256 first and turns
  every library error into a panic, which is what the definitions below translate.
\<close>

section \<open>The libraries\<close>

type_synonym scalar = nat
type_synonym point = nat
type_synonym PubPoly = nat

record PriShare =
  share_I :: int
  share_V :: scalar

record crypto =
  sha256 :: "string \<Rightarrow> string"
  ed_Sign :: "string \<Rightarrow> string \<Rightarrow> string"
  ed_Verify :: "string \<Rightarrow> string \<Rightarrow> gobytes \<Rightarrow> bool"
  tbls_Sign :: "PriShare \<Rightarrow> string \<Rightarrow> gobytes option"
  tbls_Recover :: "PubPoly \<Rightarrow> string \<Rightarrow> gobytes list \<Rightarrow> int \<Rightarrow> int \<Rightarrow> gobytes option"
  bls_Verify :: "point \<Rightarrow> string \<Rightarrow> gobytes \<Rightarrow> bool"
  PubPoly_Commit :: "PubPoly \<Rightarrow> point"
  PubPoly_Info :: "PubPoly \<Rightarrow> point \<times> point list"
  NewPubPoly :: "point \<Rightarrow> point list \<Rightarrow> PubPoly"
  scalar_Marshal :: "scalar \<Rightarrow> gobytes option"
  scalar_Unmarshal :: "gobytes \<Rightarrow> scalar option"
  point_Marshal :: "point \<Rightarrow> gobytes option"
  point_Unmarshal :: "gobytes \<Rightarrow> point option"

section \<open>Plain signatures\<close>

text \<open>\<open>msgHash.Sum(nil)\<close>: the digest, never nil; \<open>Write\<close> on a hash never fails.\<close>

definition sign_dataHashByte :: "crypto \<Rightarrow> gobytes \<Rightarrow> string" where
  "sign_dataHashByte C data = sha256 C (bytes_of data)"

text \<open>Ed25519 panics on a key of the wrong length (64 bytes private, 32 bytes public).\<close>

definition SignWithPrikey :: "crypto \<Rightarrow> gobytes \<Rightarrow> gobytes \<Rightarrow> ('s, gobytes) go" where
  "SignWithPrikey C data priKey =
     (let msgHashSum = sign_dataHashByte C data in
      if blen priKey \<noteq> 64 then Panic ExplicitPanic
      else Ret (Some (ed_Sign C (bytes_of priKey) msgHashSum)))"

definition VerifySignEd :: "crypto \<Rightarrow> gobytes \<Rightarrow> gobytes \<Rightarrow> gobytes \<Rightarrow> ('s, bool) go" where
  "VerifySignEd C data publicKey sig =
     (let msgHashSum = sign_dataHashByte C data in
      if blen publicKey \<noteq> 32 then Panic ExplicitPanic
      else Ret (ed_Verify C (bytes_of publicKey) msgHashSum sig))"

section \<open>Threshold signatures\<close>

definition SignTSPartial :: "crypto \<Rightarrow> PriShare \<Rightarrow> gobytes \<Rightarrow> ('s, gobytes) go" where
  "SignTSPartial C priKey data =
     (case tbls_Sign C priKey (sign_dataHashByte C data) of
        None \<Rightarrow> Panic ExplicitPanic
      | Some partialSig \<Rightarrow> Ret partialSig)"

definition AssembleIntactTSPartial ::
  "crypto \<Rightarrow> gobytes list \<Rightarrow> PubPoly \<Rightarrow> gobytes \<Rightarrow> int \<Rightarrow> int \<Rightarrow> ('s, gobytes) go" where
  "AssembleIntactTSPartial C partialSigs pubPoly data t n =
     (case tbls_Recover C pubPoly (sign_dataHashByte C data) partialSigs t n of
        None \<Rightarrow> Panic ExplicitPanic
      | Some intactSig \<Rightarrow> Ret intactSig)"

definition VerifyTS :: "crypto \<Rightarrow> PubPoly \<Rightarrow> gobytes \<Rightarrow> gobytes \<Rightarrow> bool" where
  "VerifyTS C pubPoly data intactSig =
     bls_Verify C (PubPoly_Commit C pubPoly) (sign_dataHashByte C data) intactSig"

section \<open>Keys as bytes\<close>

record TSPartialMarshalled =
  tsp_I :: int
  tsp_Binary :: gobytes

record TSPublicMarshalled =
  tsq_BaseBytes :: gobytes
  tsq_CommitBytes :: "gobytes list"

definition MarshallTSPartialKey :: "crypto \<Rightarrow> PriShare \<Rightarrow> TSPartialMarshalled option" where
  "MarshallTSPartialKey C priShare =
     (case scalar_Marshal C (share_V priShare) of
        None \<Rightarrow> None
      | Some shareAsBytes \<Rightarrow> Some \<lparr>tsp_I = share_I priShare, tsp_Binary = shareAsBytes\<rparr>)"

definition UnMarshallTSPartialKey :: "crypto \<Rightarrow> TSPartialMarshalled \<Rightarrow> PriShare option" where
  "UnMarshallTSPartialKey C par =
     (case scalar_Unmarshal C (tsp_Binary par) of
        None \<Rightarrow> None
      | Some v \<Rightarrow> Some \<lparr>share_I = tsp_I par, share_V = v\<rparr>)"

text \<open>The loops over the commitments stop at the first error.\<close>

fun marshal_all :: "('a \<Rightarrow> 'b option) \<Rightarrow> 'a list \<Rightarrow> 'b list option" where
  "marshal_all f [] = Some []"
| "marshal_all f (x # xs) =
     (case f x of None \<Rightarrow> None | Some y \<Rightarrow> map_option (Cons y) (marshal_all f xs))"

definition MarshallTSPublicKey :: "crypto \<Rightarrow> PubPoly \<Rightarrow> TSPublicMarshalled option" where
  "MarshallTSPublicKey C pubKey =
     (let (base, commits) = PubPoly_Info C pubKey in
      case point_Marshal C base of
        None \<Rightarrow> None
      | Some baseAsBytes \<Rightarrow>
          (case marshal_all (point_Marshal C) commits of
             None \<Rightarrow> None
           | Some commitBytes \<Rightarrow>
               Some \<lparr>tsq_BaseBytes = baseAsBytes, tsq_CommitBytes = commitBytes\<rparr>))"

definition UnMarshallTSPublicKey :: "crypto \<Rightarrow> TSPublicMarshalled \<Rightarrow> PubPoly option" where
  "UnMarshallTSPublicKey C tspm =
     (case point_Unmarshal C (tsq_BaseBytes tspm) of
        None \<Rightarrow> None
      | Some baseDecoded \<Rightarrow>
          (case marshal_all (point_Unmarshal C) (tsq_CommitBytes tspm) of
             None \<Rightarrow> None
           | Some commitsDecoded \<Rightarrow> Some (NewPubPoly C baseDecoded commitsDecoded)))"

lemma marshal_all_roundtrip:
  assumes "marshal_all f xs = Some ys" and "\<And>x y. x \<in> set xs \<Longrightarrow> f x = Some y \<Longrightarrow> g y = Some x"
  shows "marshal_all g ys = Some xs"
  using assms
  by (induction xs arbitrary: ys) (force split: option.splits)+

text \<open>
  What the package relies on: reading a marshalled scalar or point gives it back, and a
  polynomial is determined by its base and commitments.
\<close>

definition kyber_marshal_ok :: "crypto \<Rightarrow> bool" where
  "kyber_marshal_ok C \<longleftrightarrow>
     (\<forall>v b. scalar_Marshal C v = Some b \<longrightarrow> scalar_Unmarshal C b = Some v) \<and>
     (\<forall>p b. point_Marshal C p = Some b \<longrightarrow> point_Unmarshal C b = Some p) \<and>
     (\<forall>q. NewPubPoly C (fst (PubPoly_Info C q)) (snd (PubPoly_Info C q)) = q)"

lemma partial_key_roundtrip:
  assumes "kyber_marshal_ok C" and "MarshallTSPartialKey C k = Some m"
  shows "UnMarshallTSPartialKey C m = Some k"
proof -
  from assms(2) obtain b where "scalar_Marshal C (share_V k) = Some b"
    and m: "m = \<lparr>tsp_I = share_I k, tsp_Binary = b\<rparr>"
    by (auto simp: MarshallTSPartialKey_def split: option.splits)
  with assms(1) have "scalar_Unmarshal C b = Some (share_V k)"
    by (auto simp: kyber_marshal_ok_def)
  with m show ?thesis by (simp add: UnMarshallTSPartialKey_def)
qed

lemma public_key_roundtrip:
  assumes "kyber_marshal_ok C" and "MarshallTSPublicKey C q = Some m"
  shows "UnMarshallTSPublicKey C m = Some q"
proof -
  obtain base commits where info: "PubPoly_Info C q = (base, commits)"
    by (cases "PubPoly_Info C q")
  with assms(2) obtain bb cb where b: "point_Marshal C base = Some bb"
    and cb: "marshal_all (point_Marshal C) commits = Some cb"
    and m: "m = \<lparr>tsq_BaseBytes = bb, tsq_CommitBytes = cb\<rparr>"
    by (auto simp: MarshallTSPublicKey_def split: option.splits)
  from assms(1) b have "point_Unmarshal C bb = Some base"
    by (auto simp: kyber_marshal_ok_def)
  moreover from assms(1) have "marshal_all (point_Unmarshal C) cb = Some commits"
    by (intro marshal_all_roundtrip [OF cb]) (auto simp: kyber_marshal_ok_def)
  moreover from assms(1) info have "NewPubPoly C base commits = q"
    by (metis fst_conv kyber_marshal_ok_def snd_conv)
  ultimately show ?thesis using m by (simp add: UnMarshallTSPublicKey_def)
qed

end
