(* ===== verification/Utils.thy ===== *)
theory Utils
  imports Sign
begin

text \<open>
  The rest of core/utils.go: hashing a value, elapsed time, the random number that decides
  whether a faulty node answers, and the sorted keys of a new-view's request map.
\<close>

definition dataHashByte :: "crypto \<Rightarrow> json \<Rightarrow> gobytes" where
  "dataHashByte C data = Some (sha256 C (bytes_of (encode data)))"

definition calTimeDuration :: "i64 \<Rightarrow> i64 \<Rightarrow> i64" where
  "calTimeDuration now time1 = now - time1"

text \<open>\<open>rand.Intn(10)\<close> of the environment's random number.\<close>

definition getRandomNum :: "nat \<Rightarrow> int" where
  "getRandomNum r = int (r mod 10)"

text \<open>
  \<open>sort.Sort\<close> orders the keys by \<open>Less\<close>, which is the order of the sequence numbers. The keys
  come from a range loop, so their order before sorting is the runtime's choice \<open>s\<close>.
\<close>

definition RequestSNSlice_Less :: "u32 list \<Rightarrow> nat \<Rightarrow> nat \<Rightarrow> bool" where
  "RequestSNSlice_Less a i j \<longleftrightarrow> a ! j > a ! i"

definition GetMapkey :: "nat \<Rightarrow> (u32, RequestBatch) gomap \<Rightarrow> u32 list" where
  "GetMapkey s result = sort (map fst (range_order s result))"

lemma GetMapkey_eq: "GetMapkey s m = sort (gm_keys m)"
proof -
  have "mset (map fst (range_order s m)) = mset (gm_keys m)"
    by (simp add: gm_keys_def)
  then have "mset (GetMapkey s m) = mset (gm_keys m)"
    by (simp add: GetMapkey_def)
  then show ?thesis
    by (metis GetMapkey_def properties_for_sort sorted_sort)
qed

lemma GetMapkey_Less_sorted:
  assumes "gm_wf m" and "i < j" and "j < length (GetMapkey s m)"
  shows "RequestSNSlice_Less (GetMapkey s m) i j"
proof -
  have "sorted_wrt (<) (GetMapkey s m)"
    using assms(1) by (simp add: GetMapkey_eq strict_sorted_iff gm_wf_def gm_keys_def)
  then show ?thesis
    using assms(2,3) by (simp add: RequestSNSlice_Less_def sorted_wrt_nth_less)
qed

section \<open>What signatures bind\<close>

text \<open>
  The structs votes and certificates are made of determine their JSON value and the value's
  strings need no escaping, so the encodings are injective.
\<close>

lemma j_u32_inj [simp]: "j_u32 a = j_u32 b \<longleftrightarrow> a = b"
  by (simp add: j_u32_def word_uint_eq_iff [symmetric])

lemma j_i64_inj [simp]: "j_i64 a = j_i64 b \<longleftrightarrow> a = b"
  by (auto simp: j_i64_def intro: signed_word_eqI)

lemma j_bytes_inj [simp]: "j_bytes a = j_bytes b \<longleftrightarrow> a = b"
  by (cases a; cases b) (auto simp: j_bytes_def dest: b64_encode_inj)

lemma j_plain [simp]: "json_plain (j_u32 a)" "json_plain (j_i64 b)" "json_plain (j_bytes c)"
  by (simp_all add: j_u32_def j_i64_def j_bytes_def b64_safe split: option.splits)

lemma safe_names [simp]:
  "safe_text ''SN''" "safe_text ''BatchHash''" "safe_text ''View''" "safe_text ''ReplicaId''"
  "safe_text ''ThresholdSig''" "safe_text ''TimeStamp''"
  by (simp_all add: safe_text.simps html_safe_def byte_of_def Let_def)

lemma encode_VoteForPrepare_inj:
  "encode (j_VoteForPrepare v) = encode (j_VoteForPrepare w) \<Longrightarrow> v = w"
  by (drule encode_inj) (auto simp: j_VoteForPrepare_def intro: VoteForPrepare.equality)

lemma encode_PrepareQc_inj:
  "encode (j_PrepareQc p) = encode (j_PrepareQc q) \<Longrightarrow> p = q"
  by (drule encode_inj) (auto simp: j_PrepareQc_def intro: PrepareQc.equality)

end
