(* ===== verification/Timer.thy ===== *)
theory Timer
  imports Messages
begin

text \<open>
  The view-change timer of core/timer\_control.go. The timer is a goroutine that serves three
  unbuffered channels and an armed countdown; \<open>SoftReset\<close>, \<open>Reset\<close> and \<open>Stop\<close> hand it a value
  and return once it has taken it. The loop's reaction to each input is one step of the
  state machine below. Durations are \<open>time.Duration\<close>, 64-bit nanosecond counts.
\<close>

section \<open>The loop as a state machine\<close>

record timerStart =
  hard :: bool
  ts_event :: message
  ts_duration :: i64

text \<open>\<open>timerChan = None\<close> is the nil channel; \<open>exited\<close> says the loop has returned.\<close>

record timerImpl =
  timerChan :: "i64 option"
  exit_closed :: bool
  exited :: bool

definition newTimerImpl :: timerImpl where
  "newTimerImpl = \<lparr>timerChan = None, exit_closed = False, exited = False\<rparr>"

text \<open>
  What the \<open>select\<close> can pick: a value from \<open>startChan\<close> or \<open>stopChan\<close>, the end of the
  countdown (with whether the node's main loop is waiting at \<open>consumeCh\<close> at that moment,
  which is what the inner \<open>select\<close> with its \<open>default\<close> depends on), or the closed \<open>exit\<close>.
\<close>

datatype timer_input = StartIn timerStart | StopIn | FireIn bool | ExitIn

fun timer_enabled :: "timerImpl \<Rightarrow> timer_input \<Rightarrow> bool" where
  "timer_enabled et (StartIn s) \<longleftrightarrow> \<not> exited et"
| "timer_enabled et StopIn \<longleftrightarrow> \<not> exited et"
| "timer_enabled et (FireIn ready) \<longleftrightarrow> \<not> exited et \<and> timerChan et \<noteq> None"
| "timer_enabled et ExitIn \<longleftrightarrow> \<not> exited et \<and> exit_closed et"

text \<open>One turn of the loop: the new state, and the command it delivers to the main loop.\<close>

fun timer_loop :: "timerImpl \<Rightarrow> timer_input \<Rightarrow> timerImpl \<times> message option" where
  "timer_loop et (StartIn start) =
     (if timerChan et \<noteq> None \<and> \<not> hard start then (et, None)
      else (et\<lparr>timerChan := Some (ts_duration start)\<rparr>, None))"
| "timer_loop et StopIn = (et\<lparr>timerChan := None\<rparr>, None)"
| "timer_loop et (FireIn ready) =
     (et\<lparr>timerChan := None\<rparr>, if ready then Some ViewChangeTimerM else None)"
| "timer_loop et ExitIn = (et\<lparr>exited := True\<rparr>, None)"

text \<open>Handing the loop a value: it is taken at once, or never if the loop has returned.\<close>

definition timer_send :: "timer_input \<Rightarrow> timerImpl \<Rightarrow> (timerImpl, timerImpl) go" where
  "timer_send i et = (if timer_enabled et i then Ret (fst (timer_loop et i)) else Block et)"

definition SoftReset :: "i64 \<Rightarrow> message \<Rightarrow> timerImpl \<Rightarrow> (timerImpl, timerImpl) go" where
  "SoftReset timeout event et =
     timer_send (StartIn \<lparr>hard = False, ts_event = event, ts_duration = timeout\<rparr>) et"

definition Reset :: "i64 \<Rightarrow> message \<Rightarrow> timerImpl \<Rightarrow> (timerImpl, timerImpl) go" where
  "Reset timeout event et =
     timer_send (StartIn \<lparr>hard = True, ts_event = event, ts_duration = timeout\<rparr>) et"

definition Stop :: "timerImpl \<Rightarrow> (timerImpl, timerImpl) go" where
  "Stop et = timer_send StopIn et"

text \<open>\<open>Halt\<close> closes the exit channel, once.\<close>

definition Halt :: "timerImpl \<Rightarrow> timerImpl" where
  "Halt et = (if exit_closed et then et else et\<lparr>exit_closed := True\<rparr>)"

section \<open>The Timer interface\<close>

text \<open>
  What a user of the \<open>Timer\<close> interface relies on: \<open>Stop\<close> disarms, \<open>Reset\<close> arms with the
  given duration whatever ran before, \<open>SoftReset\<close> only if nothing runs, and none of them
  blocks while the timer's thread is alive.
\<close>

locale timer_interface =
  fixes soft_reset :: "i64 \<Rightarrow> message \<Rightarrow> 't \<Rightarrow> ('t, 't) go"
    and reset :: "i64 \<Rightarrow> message \<Rightarrow> 't \<Rightarrow> ('t, 't) go"
    and stop :: "'t \<Rightarrow> ('t, 't) go"
    and countdown :: "'t \<Rightarrow> i64 option"
    and alive :: "'t \<Rightarrow> bool"
  assumes stop_ret: "alive t \<Longrightarrow> \<exists>t'. stop t = Ret t' \<and> countdown t' = None \<and> alive t'"
    and reset_ret: "alive t \<Longrightarrow> \<exists>t'. reset d e t = Ret t' \<and> countdown t' = Some d \<and> alive t'"
    and soft_ret: "alive t \<Longrightarrow> \<exists>t'. soft_reset d e t = Ret t' \<and> alive t' \<and>
           countdown t' = (if countdown t = None then Some d else countdown t)"
begin

text \<open>The order \<open>sendViewChange\<close> uses: stop, then start again with a new duration.\<close>

lemma stop_then_reset:
  assumes "alive t"
  shows "\<exists>t'. go_bind (stop t) (reset d e) = Ret t' \<and> countdown t' = Some d \<and> alive t'"
proof -
  from stop_ret [OF assms] obtain u where "stop t = Ret u" "alive u" by blast
  with reset_ret [of u d e] show ?thesis by simp
qed

lemma soft_reset_idempotent:
  assumes "alive t"
  shows "\<exists>t'. go_bind (soft_reset d e t) (soft_reset d' e') = Ret t' \<and> alive t' \<and>
    countdown t' = (if countdown t = None then Some d else countdown t)"
proof -
  from soft_ret [OF assms] obtain u where u: "soft_reset d e t = Ret u" "alive u"
    "countdown u = (if countdown t = None then Some d else countdown t)" by blast
  from soft_ret [OF u(2), of d' e'] u show ?thesis by auto
qed

end

definition timer_alive :: "timerImpl \<Rightarrow> bool" where
  "timer_alive et \<longleftrightarrow> \<not> exited et"

interpretation timer: timer_interface SoftReset Reset Stop timerChan timer_alive
  by unfold_locales (auto simp: SoftReset_def Reset_def Stop_def timer_send_def timer_alive_def)

section \<open>Runs of the loop\<close>

text \<open>A run takes the inputs in order; an input the loop cannot take ends it.\<close>

fun timer_run :: "timerImpl \<Rightarrow> timer_input list \<Rightarrow> (timerImpl \<times> message list) option" where
  "timer_run et [] = Some (et, [])"
| "timer_run et (i # is) =
     (if timer_enabled et i
      then (let (et', out) = timer_loop et i
            in map_option (\<lambda>(t, ms). (t, (case out of None \<Rightarrow> ms | Some m \<Rightarrow> m # ms)))
                 (timer_run et' is))
      else None)"

text \<open>
  What the inputs taken so far leave of a countdown, without a state: only the starts after the
  last stop or firing count; the last hard one of them rules, and without a hard one the first.
\<close>

fun clears :: "timer_input \<Rightarrow> bool" where
  "clears StopIn = True"
| "clears (FireIn ready) = True"
| "clears _ = False"

fun started_by :: "timer_input \<Rightarrow> timerStart list" where
  "started_by (StartIn s) = [s]"
| "started_by _ = []"

definition open_starts :: "timer_input list \<Rightarrow> timerStart list" where
  "open_starts is = concat (map started_by (rev (takeWhile (\<lambda>i. \<not> clears i) (rev is))))"

definition countdown_of :: "timerStart list \<Rightarrow> i64 option" where
  "countdown_of ss =
     (if ss = [] then None
      else if filter hard ss \<noteq> [] then Some (ts_duration (last (filter hard ss)))
      else Some (ts_duration (hd ss)))"

text \<open>The inputs the loop can take: a firing needs a countdown, an exit the closed channel and no exit before.\<close>

definition takes :: "bool \<Rightarrow> timer_input list \<Rightarrow> timer_input \<Rightarrow> bool" where
  "takes closed is i \<longleftrightarrow> ExitIn \<notin> set is \<and>
     (case i of FireIn ready \<Rightarrow> countdown_of (open_starts is) \<noteq> None | ExitIn \<Rightarrow> closed | _ \<Rightarrow> True)"

definition all_taken :: "bool \<Rightarrow> timer_input list \<Rightarrow> bool" where
  "all_taken closed is \<longleftrightarrow> list_all (\<lambda>k. takes closed (take k is) (is ! k)) [0..<length is]"

definition heard :: "timer_input list \<Rightarrow> nat" where
  "heard is = length (filter (\<lambda>i. i = FireIn True) is)"

lemma open_starts_Nil [simp]: "open_starts [] = []"
  by (simp add: open_starts_def)

lemma open_starts_snoc: "open_starts (is @ [i]) = (if clears i then [] else open_starts is @ started_by i)"
  by (simp add: open_starts_def)

lemma all_taken_snoc: "all_taken c (is @ [i]) \<longleftrightarrow> all_taken c is \<and> takes c is i"
proof -
  have "list_all (\<lambda>k. takes c (take k (is @ [i])) ((is @ [i]) ! k)) [0..<length is] \<longleftrightarrow>
      list_all (\<lambda>k. takes c (take k is) (is ! k)) [0..<length is]"
    by (auto simp: list_all_iff nth_append)
  then show ?thesis by (simp add: all_taken_def)
qed

lemma timer_run_snoc:
  "timer_run et (is @ [i]) =
     (case timer_run et is of
        None \<Rightarrow> None
      | Some (et', ms) \<Rightarrow>
          if timer_enabled et' i
          then Some (fst (timer_loop et' i), ms @ (case snd (timer_loop et' i) of None \<Rightarrow> [] | Some m \<Rightarrow> [m]))
          else None)"
  by (induction "is" arbitrary: et) (auto split: prod.splits option.splits)

lemma countdown_of_snoc:
  "countdown_of (ss @ [s]) =
     (if hard s \<or> countdown_of ss = None then Some (ts_duration s) else countdown_of ss)"
  by (auto simp: countdown_of_def)

text \<open>The timer after the inputs.\<close>

definition timer_at :: "bool \<Rightarrow> timer_input list \<Rightarrow> timerImpl" where
  "timer_at closed is =
     \<lparr>timerChan = countdown_of (open_starts is), exit_closed = closed, exited = (ExitIn \<in> set is)\<rparr>"

lemma timer_run_spec:
  "timer_run \<lparr>timerChan = None, exit_closed = closed, exited = False\<rparr> is =
     (if all_taken closed is then Some (timer_at closed is, replicate (heard is) ViewChangeTimerM) else None)"
proof (induction "is" rule: rev_induct)
  case Nil
  then show ?case by (simp add: all_taken_def timer_at_def heard_def countdown_of_def)
next
  case (snoc i "is")
  show ?case
    by (cases i) (auto simp: timer_run_snoc snoc.IH all_taken_snoc takes_def timer_at_def heard_def open_starts_snoc
        countdown_of_snoc replicate_append_same countdown_of_def [of "[]"])
qed

text \<open>
  C40: a new timer, halted or not, takes a sequence of inputs exactly when every firing finds a
  countdown running, an exit the channel closed, and nothing follows an exit. The countdown is
  then the one of the last hard reset since the last stop or firing, or else of the first soft
  reset since, so that a soft reset of a running countdown changes nothing and a stop ends
  it; and the main loop has got one event for each firing at which it was waiting, and no other.
\<close>

theorem timer_run_exact:
  "timer_run (if closed then Halt newTimerImpl else newTimerImpl) is =
     (if all_taken closed is
      then Some (\<lparr>timerChan = countdown_of (open_starts is), exit_closed = closed, exited = (ExitIn \<in> set is)\<rparr>,
        replicate (heard is) ViewChangeTimerM)
      else None)"
proof -
  have "(if closed then Halt newTimerImpl else newTimerImpl) = \<lparr>timerChan = None, exit_closed = closed, exited = False\<rparr>"
    by (simp add: newTimerImpl_def Halt_def)
  then show ?thesis by (simp only: timer_run_spec timer_at_def)
qed

end
