(* ===== verification/Config.thy ===== *)
theory Config
  imports Sign
begin

text \<open>
  The node configuration (config/config.go): the \<open>Config\<close> struct and its positional
  constructor \<open>New\<close>. \<open>New\<close> has no parameter for the node type, which keeps its zero value.
\<close>

record Config =
  c_AddrStr :: string
  c_ClusterAddr :: "(u32, string) gomap"
  c_ClusterPort :: "(u32, int) gomap"
  c_ReplicaId :: u32
  c_MyPrivateKey :: gobytes
  c_PublicKeyMap :: "(u32, gobytes) gomap"
  c_TsPriKey :: PriShare
  c_TsPubKey :: PubPoly
  c_FastPriKey :: PriShare
  c_FastPubKey :: PubPoly
  c_P2PListenPort :: int
  c_RPCListenPort :: int
  c_BatchTimeout :: int
  c_BatchSize :: int
  c_CheckPointT :: u32
  c_LogK :: u32
  c_MaxPool :: int
  c_NodeType :: int
  c_EvilPR :: int
  c_FastTimeout :: int
  c_FastQcQuorum :: int
  c_ViewChangeQuorum :: int
  c_PrePrepareSubsetCount :: int
  c_SameIpTimeout :: int
  c_ViewChangeTimeout :: int
  c_LastNewVewTimeout :: int
  c_AutoViewChange :: int

definition config_New ::
  "string \<Rightarrow> (u32, string) gomap \<Rightarrow> (u32, int) gomap \<Rightarrow> u32 \<Rightarrow> gobytes \<Rightarrow> (u32, gobytes) gomap \<Rightarrow>
   PriShare \<Rightarrow> PubPoly \<Rightarrow> PriShare \<Rightarrow> PubPoly \<Rightarrow> int \<Rightarrow> int \<Rightarrow> int \<Rightarrow> int \<Rightarrow> u32 \<Rightarrow> u32 \<Rightarrow> int \<Rightarrow> int \<Rightarrow>
   int \<Rightarrow> int \<Rightarrow> int \<Rightarrow> int \<Rightarrow> int \<Rightarrow> int \<Rightarrow> int \<Rightarrow> int \<Rightarrow> Config" where
  "config_New addrStr clusterAddr clusterPort rId myPriv publicKeyMap tsPri tsPub fastPri fastPub
     p2PListenPort rPCListenPort batchTimeout batchSize checkPointT logL maxPl pr fastTime
     fastQuorum vcQuorum subsetCount sameIp vcTimeout lastNvTimeout autoVc =
     \<lparr>c_AddrStr = addrStr, c_ClusterAddr = clusterAddr, c_ClusterPort = clusterPort,
      c_ReplicaId = rId, c_MyPrivateKey = myPriv, c_PublicKeyMap = publicKeyMap,
      c_TsPriKey = tsPri, c_TsPubKey = tsPub, c_FastPriKey = fastPri, c_FastPubKey = fastPub,
      c_P2PListenPort = p2PListenPort, c_RPCListenPort = rPCListenPort,
      c_BatchTimeout = batchTimeout, c_BatchSize = batchSize, c_CheckPointT = checkPointT,
      c_LogK = logL, c_MaxPool = maxPl, c_NodeType = 0, c_EvilPR = pr, c_FastTimeout = fastTime,
      c_FastQcQuorum = fastQuorum, c_ViewChangeQuorum = vcQuorum,
      c_PrePrepareSubsetCount = subsetCount, c_SameIpTimeout = sameIp,
      c_ViewChangeTimeout = vcTimeout, c_LastNewVewTimeout = lastNvTimeout,
      c_AutoViewChange = autoVc\<rparr>"

end
