(* ===== verification/Node.thy ===== *)
theory Node
  imports Utils Timer Config
begin

text \<open>
  The replica of core/node.go: its state, its construction from a configuration, and the
  primitives every handler uses (certificates, broadcasting, sending to the leader,
  signing and verifying). Fields that never change after \<open>NewNode\<close> are grouped in the record
  \<open>NodeConf\<close>; the rest are the fields of \<open>Node\<close>. Six fields have no counterpart in the struct:
  \<^item> \<open>clock\<close> numbers the uses of the environment (time, random numbers, map iteration
    orders, connection results), each of which reads the environment at a new index;
  \<^item> \<open>gos\<close> is the pool of goroutines that have been started and not yet run;
  \<^item> \<open>sent\<close> records what has been written to connections, \<open>rcvd\<close> the messages whose
    signature the main loop has verified, and \<open>trace\<close> the votes signed, the requests
    executed, the batches proposed and the proposals taken from new-view messages, in order
    (the code signs, prints, broadcasts or replays them);
  \<^item> \<open>errq\<close> is the content of the error channel \<open>main\<close> creates.
\<close>

section \<open>The environment\<close>

text \<open>
  What a node gets from outside: the crypto libraries, the clock, the random source, the
  order of map iterations and what happens to a connection.
\<close>

datatype net_result = NetOk | ConnErr | SendErr | ReleaseErr

record env =
  env_crypto :: crypto
  env_now :: "nat \<Rightarrow> i64"
  env_rand :: "nat \<Rightarrow> nat"
  env_order :: "nat \<Rightarrow> nat"
  env_net :: "nat \<Rightarrow> net_result"

datatype go_error = EncodeError | NetError

text \<open>An \<open>err chan error\<close> argument: \<open>nil\<close> or the channel of \<open>main\<close>.\<close>

datatype errch = NilCh | ErrCh

section \<open>State\<close>

datatype MsgStage = received | prepared | committed

record MsgCert =
  reqBatchStage :: MsgStage
  reqBatchDigest :: gobytes
  prepareQc :: "PrepareQc option"
  fastPrepareQc :: "FastPrepareQc option"
  prepareQcStage :: bool
  commitQc :: "CommitQc option"
  commitQcStage :: bool
  prePrepareStore :: "PrePrepareMsg option"
  prePareStore :: "(u32, PrepareMsg) gomap"
  commitStore :: "(u32, CommitMsg) gomap"

definition newCert :: MsgCert where
  "newCert = \<lparr>reqBatchStage = received, reqBatchDigest = None, prepareQc = None,
     fastPrepareQc = None, prepareQcStage = False, commitQc = None, commitQcStage = False,
     prePrepareStore = None, prePareStore = [], commitStore = []\<rparr>"

text \<open>
  The per-request fast-path timer: whether it has expired, and its countdown while it runs.
\<close>

record fastTimer =
  ft_stop :: bool
  ft_timeControl :: "i64 option"

text \<open>Goroutines, with the values they captured.\<close>

datatype task =
    SendTask u32 string message gobytes
  | CheckpointTask u32 gobytes errch
  | CheckIfPreparedTask MsgId errch
  | PrepareTimerTask MsgId string
  | BroadcastPrePrepareTask RequestBatch errch

datatype log_event =
    SignedPrepare VoteForPrepare
  | SignedCommit PrepareQc
  | Executed u32 MsgId gobytes
  | Proposed PrePrepareMsg
  | Replayed PrePrepareMsg

record NodeConf =
  addrStr :: string
  replicaId :: u32
  clusterAddr :: "(u32, string) gomap"
  clusterPort :: "(u32, int) gomap"
  maxPool :: int
  viewChangePeriod :: u32
  autoViewChange :: int
  viewChangeTimeout :: i64
  myPrivateKey :: gobytes
  publicKey :: "(u32, gobytes) gomap"
  tsPriKey :: PriShare
  tsPubKey :: PubPoly
  fastPriKey :: PriShare
  fastPubKey :: PubPoly
  n_f :: int
  n_T :: u32
  n_K :: u32
  replicaCount :: int
  rpcListenPort :: int
  p2pListenPort :: int
  fastTimeout :: int
  fastQcQuorum :: int
  viewChangeQuorum :: int
  prePrepareSubsetCount :: int
  nodeType :: int
  evilPR :: int
  sameIpTimeout :: int
  rh_BatchTimeOut :: int
  rh_BatchSize :: int
  rh_NodeName :: string

type_synonym partial_sigs = "(MsgId, (string, (u32, gobytes) gomap) gomap) gomap"

record Node =
  cfg :: NodeConf
  nextSN :: u32
  lastExec :: u32
  viewChangeSeqNumber :: u32
  currenView :: u32
  activeView :: bool
  viewChangeStore :: "(Vcidx, ViewChangeMsg) gomap"
  viewChangeStage :: "(u32, bool) gomap"
  newViewStore :: "(u32, NewViewMsg) gomap"
  newViewStage :: "(u32, bool) gomap"
  newViewTimer :: "timerImpl option"
  lastNewVewTimeout :: i64
  timerActive :: bool
  newViewTimerReason :: string
  rh_Leader :: string
  batchStore :: "Request option list option"
  reqBatch :: "(MsgId, RequestBatch) gomap"
  partialSigInPrepare :: partial_sigs
  fastPartialSigInPrepare :: partial_sigs
  partialSigInCommit :: partial_sigs
  reqCertStore :: "(MsgId, MsgCert) gomap"
  low_h :: u32
  chkpts :: "(u32, string) gomap"
  checkpointStore :: "(u32, (CheckpointMsg, bool) gomap) gomap"
  execReqBuffer :: "(u32, gobytes) gomap"
  execReqIdBuffer :: "(u32, MsgId) gomap"
  prepareTimer :: "(MsgId, fastTimer) gomap"
  clock :: nat
  gos :: "task list"
  sent :: "(string \<times> message \<times> gobytes) list"
  trace :: "log_event list"
  errq :: "go_error list"
  rcvd :: "message list"

type_synonym stmt = "Node \<Rightarrow> (Node, Node) go"

end
