(* ===== verification/NodeOps.thy ===== *)
theory NodeOps
  imports Complex_Main Node
begin

text \<open>
  The operations of core/node.go every handler is built from, and \<open>primary\<close> and
  \<open>inWatermarks\<close> of core/core.go. Each takes the node and returns it updated; what can panic
  or block returns a \<open>go\<close> outcome.
\<close>

section \<open>Construction\<close>

text \<open>
  \<open>int(math.Ceil(float64(n.replicaCount)) / 3.0)\<close>: the ceiling is taken before the division,
  and the conversion to \<open>int\<close> truncates. Float division of a count below \<open>2 ^ 51\<close> by 3 does
  not cross an integer, so rational arithmetic gives the same result.
\<close>

definition faults_of :: "int \<Rightarrow> int" where
  "faults_of rc = floor ((of_int (ceiling (of_int rc :: rat)) :: rat) / 3)"

lemma faults_of_eq: "faults_of c = c div 3"
  using floor_divide_of_int_eq [of c 3, where 'a = rat] by (simp add: faults_of_def)

definition NewNode :: "Config \<Rightarrow> Node" where
  "NewNode conf =
     (let conf_cfg =
        \<lparr>addrStr = c_AddrStr conf, replicaId = c_ReplicaId conf,
         clusterAddr = c_ClusterAddr conf, clusterPort = c_ClusterPort conf,
         maxPool = c_MaxPool conf, viewChangePeriod = 1,
         autoViewChange = c_AutoViewChange conf,
         viewChangeTimeout = of_int (c_ViewChangeTimeout conf) * 1000000,
         myPrivateKey = c_MyPrivateKey conf, publicKey = c_PublicKeyMap conf,
         tsPriKey = c_TsPriKey conf, tsPubKey = c_TsPubKey conf,
         fastPriKey = c_FastPriKey conf, fastPubKey = c_FastPubKey conf,
         n_f = faults_of (int (length (c_ClusterAddr conf))),
         n_T = c_CheckPointT conf, n_K = c_LogK conf,
         replicaCount = int (length (c_ClusterAddr conf)),
         rpcListenPort = c_RPCListenPort conf, p2pListenPort = c_P2PListenPort conf,
         fastTimeout = c_FastTimeout conf, fastQcQuorum = c_FastQcQuorum conf,
         viewChangeQuorum = c_ViewChangeQuorum conf,
         prePrepareSubsetCount = c_PrePrepareSubsetCount conf,
         nodeType = c_NodeType conf, evilPR = c_EvilPR conf,
         sameIpTimeout = c_SameIpTimeout conf,
         rh_BatchTimeOut = c_BatchTimeout conf, rh_BatchSize = c_BatchSize conf,
         rh_NodeName = ''Node'' @ itoa (uint (c_ReplicaId conf))\<rparr>
      in \<lparr>cfg = conf_cfg, nextSN = 1, lastExec = 0,
          viewChangeSeqNumber = c_CheckPointT conf + c_CheckPointT conf div 2,
          currenView = 0, activeView = True, viewChangeStore = [], viewChangeStage = [],
          newViewStore = [], newViewStage = [], newViewTimer = None,
          lastNewVewTimeout = of_int (c_ViewChangeTimeout conf) * 1000000,
          timerActive = False, newViewTimerReason = [],
          rh_Leader = gm_get0 [] (c_ClusterAddr conf) 0, batchStore = None,
          reqBatch = [], partialSigInPrepare = [], fastPartialSigInPrepare = [],
          partialSigInCommit = [], reqCertStore = [], low_h = 0, chkpts = [],
          checkpointStore = [], execReqBuffer = [], execReqIdBuffer = [], prepareTimer = [],
          clock = 0, gos = [], sent = [], trace = [], errq = [], rcvd = []\<rparr>)"

text \<open>\<open>StartListen\<close>: binding the port may fail; otherwise the view-change timer is created.\<close>

definition StartListen :: "bool \<Rightarrow> Node \<Rightarrow> Node \<times> go_error option" where
  "StartListen bound n =
     (if \<not> bound then (n, Some NetError) else (n\<lparr>newViewTimer := Some newTimerImpl\<rparr>, None))"

section \<open>Views and watermarks\<close>

text \<open>Unsigned 32-bit subtraction: it wraps around when the number is below the watermark.\<close>

definition inWatermarks :: "Node \<Rightarrow> u32 \<Rightarrow> bool" where
  "inWatermarks n seqNo \<longleftrightarrow> seqNo - low_h n > 0 \<and> seqNo - low_h n \<le> n_K (cfg n)"

definition primary :: "Node \<Rightarrow> u32 \<Rightarrow> ('s, u32) go" where
  "primary n view =
     (let rc = (of_int (replicaCount (cfg n)) :: u32) in
      if rc = 0 then Panic DivideByZero else Ret (view mod rc))"

section \<open>Certificates\<close>

definition getCert :: "MsgId \<Rightarrow> Node \<Rightarrow> MsgCert \<times> Node" where
  "getCert idx n =
     (case gm_get (reqCertStore n) idx of
        Some cert \<Rightarrow> (cert, n)
      | None \<Rightarrow> (newCert, n\<lparr>reqCertStore := gm_put idx newCert (reqCertStore n)\<rparr>))"

text \<open>An assignment through the pointer \<open>getCert\<close> returned.\<close>

definition modCert :: "MsgId \<Rightarrow> (MsgCert \<Rightarrow> MsgCert) \<Rightarrow> Node \<Rightarrow> Node" where
  "modCert idx g n =
     (let (cert, n) = getCert idx n
      in n\<lparr>reqCertStore := gm_put idx (g cert) (reqCertStore n)\<rparr>)"

text \<open>The certificate a node has for an identifier, without creating it.\<close>

definition certOf :: "Node \<Rightarrow> MsgId \<Rightarrow> MsgCert" where
  "certOf n idx = gm_get0 newCert (reqCertStore n) idx"

section \<open>Channels, time and goroutines\<close>

text \<open>
  \<open>err <- e\<close>: a send on a nil channel never proceeds; the channel of \<open>main\<close> has room for one
  error and no reader.
\<close>

definition errcap :: nat where
  "errcap = 1"

fun send_err :: "errch \<Rightarrow> go_error \<Rightarrow> stmt" where
  "send_err NilCh e n = Block n"
| "send_err ErrCh e n =
     (if length (errq n) < errcap then Ret (n\<lparr>errq := errq n @ [e]\<rparr>) else Block n)"

text \<open>\<open>if errBC := ...; errBC != nil { err <- errBC }\<close>\<close>

definition report :: "errch \<Rightarrow> Node \<times> go_error option \<Rightarrow> (Node, Node) go" where
  "report err r = (case snd r of None \<Rightarrow> Ret (fst r) | Some e \<Rightarrow> send_err err e (fst r))"

definition step_clock :: "Node \<Rightarrow> Node" where
  "step_clock n = n\<lparr>clock := Suc (clock n)\<rparr>"

definition spawn :: "task list \<Rightarrow> Node \<Rightarrow> Node" where
  "spawn ts n = n\<lparr>gos := gos n @ ts\<rparr>"

definition add_trace :: "log_event \<Rightarrow> Node \<Rightarrow> Node" where
  "add_trace e n = n\<lparr>trace := trace n @ [e]\<rparr>"

text \<open>Noting a message whose signature has been verified.\<close>

definition receive :: "message \<Rightarrow> Node \<Rightarrow> Node" where
  "receive m n = n\<lparr>rcvd := rcvd n @ [m]\<rparr>"

definition now :: "env \<Rightarrow> Node \<Rightarrow> i64" where
  "now E n = env_now E (clock n)"

section \<open>Sending\<close>

text \<open>
  A node whose configured type is not correct answers with probability \<open>evilPR / 10\<close> only:
  the random draw, if there is one, and whether the message is withheld.
\<close>

definition withholds :: "env \<Rightarrow> Node \<Rightarrow> bool \<times> Node" where
  "withholds E n =
     (if nodeType (cfg n) \<noteq> 0
      then (getRandomNum (env_rand E (clock n)) \<ge> evilPR (cfg n), step_clock n)
      else (False, n))"

text \<open>
  \<open>broadcast\<close> encodes and signs the message and starts one goroutine per address of the
  cluster that is not excluded, in map iteration order.
\<close>

definition broadcast ::
  "env \<Rightarrow> message \<Rightarrow> (u32, bool) gomap \<Rightarrow> Node \<Rightarrow> (Node, Node \<times> go_error option) go" where
  "broadcast E msg excAddrs n =
     (let (quiet, n) = withholds E n in
      if quiet then Ret (n, None)
      else case encode (j_message msg) of
        None \<Rightarrow> Ret (n, Some EncodeError)
      | Some encodedBytes \<Rightarrow>
          go_bind (SignWithPrikey (env_crypto E) (Some encodedBytes) (myPrivateKey (cfg n)))
            (\<lambda>sig.
               let addrs = range_order (env_order E (clock n)) (clusterAddr (cfg n));
                   targets = filter (\<lambda>(i, a). gm_get excAddrs i = None) addrs
               in Ret (spawn (map (\<lambda>(i, a). SendTask i a msg sig) targets) (step_clock n), None)))"

text \<open>
  The goroutine of \<open>broadcast\<close>: when no connection can be had the error is printed and the
  nil connection is used all the same. A failed write releases the connection and is only
  printed, as is the error of releasing it a second time.
\<close>

definition full_addr :: "Node \<Rightarrow> u32 \<Rightarrow> string \<Rightarrow> string" where
  "full_addr n i addr = addr @ '':'' @ itoa (gm_get0 0 (clusterPort (cfg n)) i)"

definition send_task :: "env \<Rightarrow> u32 \<Rightarrow> string \<Rightarrow> message \<Rightarrow> gobytes \<Rightarrow> stmt" where
  "send_task E index addr msg sig n =
     (let n' = step_clock n in
      case env_net E (clock n) of
        ConnErr \<Rightarrow> Panic NilDereference
      | SendErr \<Rightarrow> Ret n'
      | _ \<Rightarrow> Ret (n'\<lparr>sent := sent n' @ [(full_addr n index addr, msg, sig)]\<rparr>))"

definition sendToLeader ::
  "env \<Rightarrow> message \<Rightarrow> string \<Rightarrow> Node \<Rightarrow> (Node, Node \<times> go_error option) go" where
  "sendToLeader E msg leadAddr n =
     (let (quiet, n) = withholds E n in
      if quiet then Ret (n, None)
      else case encode (j_message msg) of
        None \<Rightarrow> Ret (n, Some EncodeError)
      | Some encodedBytes \<Rightarrow>
          go_bind (SignWithPrikey (env_crypto E) (Some encodedBytes) (myPrivateKey (cfg n)))
            (\<lambda>sig.
               let n' = step_clock n;
                   n'' = n'\<lparr>sent := sent n' @ [(leadAddr, msg, sig)]\<rparr>
               in case env_net E (clock n) of
                    ConnErr \<Rightarrow> Ret (n', Some NetError)
                  | SendErr \<Rightarrow> Ret (n', Some NetError)
                  | ReleaseErr \<Rightarrow> Ret (n'', Some NetError)
                  | NetOk \<Rightarrow> Ret (n'', None)))"

section \<open>Verifying and assembling signatures\<close>

definition verifyRsaSignature :: "env \<Rightarrow> message \<Rightarrow> u32 \<Rightarrow> gobytes \<Rightarrow> Node \<Rightarrow> ('s, bool) go" where
  "verifyRsaSignature E msg sendId sig n =
     (case encode (j_message msg) of
        None \<Rightarrow> Ret False
      | Some encodedBytes \<Rightarrow>
          (case gm_get (publicKey (cfg n)) sendId of
             None \<Rightarrow> Ret False
           | Some pub \<Rightarrow> VerifySignEd (env_crypto E) (Some encodedBytes) pub sig))"

text \<open>A message whose signature verifies under the key the replica has for a sender.\<close>

definition signed_by :: "env \<Rightarrow> NodeConf \<Rightarrow> u32 \<Rightarrow> message \<Rightarrow> gobytes \<Rightarrow> bool" where
  "signed_by E cf i m sg =
     (case gm_get (publicKey cf) i of
        None \<Rightarrow> False
      | Some pub \<Rightarrow> blen pub = 32 \<and>
          ed_Verify (env_crypto E) (bytes_of pub)
            (sign_dataHashByte (env_crypto E) (encode (j_message m))) sg)"

text \<open>The sender whose key a message is verified with; the two local events have none.\<close>

fun sender_of :: "message \<Rightarrow> u32 option" where
  "sender_of (PrePrepareM m) = Some (ppm_ReplicaId m)"
| "sender_of (PrepareM m) = Some (pm_ReplicaId m)"
| "sender_of (CommitM m) = Some (cm_ReplicaId m)"
| "sender_of (PrepareQcM m) = Some (pqc_ReplicaId m)"
| "sender_of (FastPrepareQcM m) = Some (fpqc_ReplicaId m)"
| "sender_of (CommitQcM m) = Some (cqc_ReplicaId m)"
| "sender_of (CheckpointM m) = Some (ck_ReplicaId m)"
| "sender_of (ViewChangeM m) = Some (vc_ReplicaId m)"
| "sender_of (NewViewM m) = Some (nv_ReplicaId m)"
| "sender_of ViewChangeQuorumM = None"
| "sender_of ViewChangeTimerM = None"

text \<open>It verifies under the key of the sender it names.\<close>

definition vouched :: "env \<Rightarrow> NodeConf \<Rightarrow> message \<Rightarrow> bool" where
  "vouched E cf m \<longleftrightarrow> (\<exists>i sg. sender_of m = Some i \<and> signed_by E cf i m sg)"

text \<open>The result is \<open>None\<close> when encoding fails (an error return); a failed recovery panics.\<close>

definition createThresholdSig ::
  "env \<Rightarrow> json \<Rightarrow> gobytes list \<Rightarrow> PubPoly \<Rightarrow> int \<Rightarrow> int \<Rightarrow> ('s, gobytes option) go" where
  "createThresholdSig E msg partialSigs pubPoly quorumNum nodeNum =
     (case encode msg of
        None \<Rightarrow> Ret None
      | Some encodedBytes \<Rightarrow>
          go_bind (AssembleIntactTSPartial (env_crypto E) partialSigs pubPoly
                     (Some encodedBytes) quorumNum nodeNum)
            (\<lambda>s. Ret (Some s)))"

definition verifyThresholdSig :: "env \<Rightarrow> json \<Rightarrow> PubPoly \<Rightarrow> gobytes \<Rightarrow> bool" where
  "verifyThresholdSig E msg pubPoly thSig =
     (case encode msg of
        None \<Rightarrow> False
      | Some encodedBytes \<Rightarrow> VerifyTS (env_crypto E) pubPoly (Some encodedBytes) thSig)"

text \<open>The address of the leader: a missing map entry reads as the empty string and port 0.\<close>

definition leaderAddr :: "Node \<Rightarrow> u32 \<Rightarrow> string" where
  "leaderAddr n leaderId =
     gm_get0 [] (clusterAddr (cfg n)) leaderId @ '':'' @ itoa (gm_get0 0 (clusterPort (cfg n)) leaderId)"

section \<open>First facts\<close>

lemma encode_not_None [simp]: "encode v \<noteq> None"
  by (simp add: encode_def)

lemma getCert_fst: "fst (getCert idx n) = certOf n idx"
  by (simp add: getCert_def certOf_def gm_get0_def split: option.split)

lemma certOf_getCert [simp]: "certOf (snd (getCert idx n)) j = certOf n j"
  by (auto simp: getCert_def certOf_def gm_get0_def gm_get_put split: option.split)

lemma certOf_modCert: "certOf (modCert idx g n) j = (if j = idx then g (certOf n idx) else certOf n j)"
  by (auto simp: modCert_def getCert_def certOf_def gm_get0_def gm_get_put Let_def split: option.split)

lemma broadcast_never_fails: "broadcast E m exc n = Ret (n', eo) \<Longrightarrow> eo = None"
  by (auto simp: broadcast_def go_bind_eq_Ret Let_def split: prod.splits if_splits option.splits)

end
