(* ===== verification/ViewChange.thy ===== *)
theory ViewChange
  imports NodeOps "HOL-Library.While_Combinator"
begin

text \<open>
  The first half of core/viewchange.go and the timer wrappers of core/core.go: leaving a view
  (\<open>sendViewChange\<close> with its P, Q and C sets), checking another node's view-change message,
  and the two pure computations of the new primary, \<open>selectInitialSequence\<close> and
  \<open>assignSequenceNumbers\<close>.
\<close>

section \<open>The view-change timer of a node\<close>

definition on_timer :: "(timerImpl \<Rightarrow> (timerImpl, timerImpl) go) \<Rightarrow> stmt" where
  "on_timer oper n =
     (case newViewTimer n of
        None \<Rightarrow> Panic NilDereference
      | Some t \<Rightarrow>
          (case oper t of
             Ret t' \<Rightarrow> Ret (n\<lparr>newViewTimer := Some t'\<rparr>)
           | Panic p \<Rightarrow> Panic p
           | Block t' \<Rightarrow> Block (n\<lparr>newViewTimer := Some t'\<rparr>)))"

definition softStartTimer :: "i64 \<Rightarrow> string \<Rightarrow> stmt" where
  "softStartTimer timeout reason n =
     on_timer (SoftReset timeout ViewChangeTimerM)
       (n\<lparr>timerActive := True, newViewTimerReason := reason\<rparr>)"

definition startTimer :: "i64 \<Rightarrow> string \<Rightarrow> stmt" where
  "startTimer timeout reason n =
     on_timer (Reset timeout ViewChangeTimerM) (n\<lparr>timerActive := True\<rparr>)"

definition stopTimer :: stmt where
  "stopTimer n = on_timer Stop (n\<lparr>timerActive := False\<rparr>)"

section \<open>Leaving a view\<close>

text \<open>
  The range loop over all certificates above the low watermark. Certificates of different
  views with the same sequence number write the same entry, so the iteration order decides
  which one stays.
\<close>

type_synonym pset = "(u32, PrePrepareMsg option) gomap"
type_synonym qset = "(u32, PrepareQc option) gomap"

definition pq_entry :: "u32 \<Rightarrow> MsgId \<times> MsgCert \<Rightarrow> pset \<times> qset \<Rightarrow> pset \<times> qset" where
  "pq_entry low e acc =
     (let (idx, cert) = e; (pset, qset) = acc in
      if id_Sn idx \<le> low then acc
      else (case prePrepareStore cert of
              None \<Rightarrow> pset | Some m \<Rightarrow> gm_put (id_Sn idx) (Some m) pset,
            case prepareQc cert of
              None \<Rightarrow> qset | Some q \<Rightarrow> gm_put (id_Sn idx) (Some q) qset))"

definition calPQset :: "nat \<Rightarrow> Node \<Rightarrow> pset \<times> qset" where
  "calPQset s n = fold (pq_entry (low_h n)) (range_order s (reqCertStore n)) ([], [])"

text \<open>The checkpoint messages that prove the low watermark: at most \<open>2 * f + 1\<close> of them.\<close>

fun cset_loop ::
  "int \<Rightarrow> string \<Rightarrow> CheckpointMsg list \<Rightarrow> int \<Rightarrow> CheckpointMsg list option \<Rightarrow> CheckpointMsg list option" where
  "cset_loop q digest [] cnt cset = cset"
| "cset_loop q digest (c # cs) cnt cset =
     (if ck_StateDigest c = digest
      then (let cset = slice_append cset c; cnt = cnt + 1
            in if cnt = q then cset else cset_loop q digest cs cnt cset)
      else cset_loop q digest cs cnt cset)"

definition calCset :: "nat \<Rightarrow> Node \<Rightarrow> CheckpointMsg list option" where
  "calCset s n =
     cset_loop (2 * n_f (cfg n) + 1) (gm_get0 [] (chkpts n) (low_h n))
       (map fst (range_order s (gm_get0 [] (checkpointStore n) (low_h n)))) 0 None"

text \<open>The message: a function of the state at entry and of the two iteration orders.\<close>

definition viewChangeMsg :: "env \<Rightarrow> Node \<Rightarrow> ViewChangeMsg" where
  "viewChangeMsg E n =
     (let (pset, qset) = calPQset (env_order E (clock n)) n;
          cset = calCset (env_order E (Suc (clock n))) n
      in \<lparr>vc_View = currenView n, vc_LastStableCk = low_h n, vc_Cset = cset,
          vc_Pset = pset, vc_Qset = qset, vc_ReplicaId = replicaId (cfg n)\<rparr>)"

definition sendViewChange :: "env \<Rightarrow> errch \<Rightarrow> stmt" where
  "sendViewChange E err n =
     go_bind (stopTimer n) (\<lambda>n.
     let n = n\<lparr>currenView := currenView n + 1, activeView := False\<rparr>;
         vc = viewChangeMsg E n;
         n = step_clock (step_clock n);
         n = n\<lparr>viewChangeStage := gm_put (currenView n) True (viewChangeStage n)\<rparr>
     in go_bind (broadcast E (ViewChangeM vc) [] n) (\<lambda>r.
        go_bind (report err r) (\<lambda>n.
        go_bind (startTimer (lastNewVewTimeout n) ''new view change'' n) (\<lambda>n.
        Ret (n\<lparr>lastNewVewTimeout := lastNewVewTimeout n * 2\<rparr>)))))"

section \<open>Checking a view-change message\<close>

text \<open>
  The loop over the P set: a nil entry is dereferenced. The loop over the Q set verifies
  each certificate; the last loop compares the checkpoints' numbers.
\<close>

fun pset_check :: "ViewChangeMsg \<Rightarrow> u32 \<Rightarrow> PrePrepareMsg option list \<Rightarrow> ('s, bool) go" where
  "pset_check vc k [] = Ret True"
| "pset_check vc k (None # ps) = Panic NilDereference"
| "pset_check vc k (Some p # ps) =
     (if \<not> (ppm_View p < vc_View vc \<and> ppm_SN p > vc_LastStableCk vc \<and> ppm_SN p < vc_LastStableCk vc + k)
      then Ret False else pset_check vc k ps)"

fun qset_check :: "env \<Rightarrow> PubPoly \<Rightarrow> PrepareQc option list \<Rightarrow> ('s, bool) go" where
  "qset_check E pub [] = Ret True"
| "qset_check E pub (None # qs) = Panic NilDereference"
| "qset_check E pub (Some q # qs) =
     (if \<not> verifyThresholdSig E (j_VoteForPrepare (pqc_vote q)) pub (pqc_ThresholdSig q)
      then Ret False else qset_check E pub qs)"

definition correctViewChange :: "env \<Rightarrow> ViewChangeMsg \<Rightarrow> Node \<Rightarrow> ('s, bool) go" where
  "correctViewChange E vc n =
     go_bind (pset_check vc (n_K (cfg n)) (map snd (range_order (env_order E (clock n)) (vc_Pset vc))))
       (\<lambda>ok. if \<not> ok then Ret False else
     go_bind (qset_check E (tsPubKey (cfg n))
                (map snd (range_order (env_order E (Suc (clock n))) (vc_Qset vc))))
       (\<lambda>ok. if \<not> ok then Ret False else
     Ret (list_all (\<lambda>c. ck_SeqN c = vc_LastStableCk vc) (slice_of (vc_Cset vc)))))"

section \<open>The new primary's computations\<close>

definition getViewChangeMsgs :: "nat \<Rightarrow> Node \<Rightarrow> ViewChangeMsg list option" where
  "getViewChangeMsgs s n =
     (let vs = filter (\<lambda>vc. vc_View vc = currenView n) (map snd (range_order s (viewChangeStore n)))
      in if vs = [] then None else Some vs)"

definition selectInitialSequence :: "ViewChangeMsg list \<Rightarrow> u32 \<times> bool" where
  "selectInitialSequence vset =
     fold (\<lambda>vc (sn, ok). if sn \<le> vc_LastStableCk vc then (vc_LastStableCk vc, True) else (sn, ok))
       vset (0, False)"

text \<open>
  One sequence number of \<open>assignSequenceNumbers\<close>. \<open>scan_vset\<close> is the loop over the messages:
  it stops at the first one with both a pre-prepare and a prepare certificate for the
  number, and otherwise counts the digests and remembers the last batch of each.
\<close>

type_synonym digest_count = "(string, int) gomap"
type_synonym digest_batch = "(string, RequestBatch) gomap"

fun scan_vset ::
  "u32 \<Rightarrow> ViewChangeMsg list \<Rightarrow> digest_count \<Rightarrow> digest_batch \<Rightarrow>
   go_panic + (RequestBatch + digest_count \<times> digest_batch)" where
  "scan_vset s [] diffValues diffValuesReqBatch = Inr (Inr (diffValues, diffValuesReqBatch))"
| "scan_vset s (vc # vcs) diffValues diffValuesReqBatch =
     (case gm_get (vc_Pset vc) s of
        None \<Rightarrow> scan_vset s vcs diffValues diffValuesReqBatch
      | Some None \<Rightarrow> Inl NilDereference
      | Some (Some p) \<Rightarrow>
          (let hash = bytes_of (ppm_BatchHash p);
               diffValues = gm_put hash (gm_get0 0 diffValues hash + 1) diffValues;
               diffValuesReqBatch = gm_put hash (ppm_ReqBatch p) diffValuesReqBatch
           in if gm_get (vc_Qset vc) s \<noteq> None then Inr (Inl (ppm_ReqBatch p))
              else scan_vset s vcs diffValues diffValuesReqBatch))"

text \<open>
  The digests enough messages agree on. Their number decides the slot: exactly one wins,
  none gives the null request, two make the whole assignment fail. For any other number
  no branch of the code applies. (The two range loops over \<open>diffValues\<close> count, and visit
  the only winner, so their order does not matter.)
\<close>

definition diffSubset :: "int \<Rightarrow> digest_count \<Rightarrow> string list" where
  "diffSubset quorum diffValues = map fst (filter (\<lambda>(k, v). v \<ge> quorum) diffValues)"

definition assign_slot ::
  "int \<Rightarrow> ViewChangeMsg list \<Rightarrow> u32 \<Rightarrow> go_panic + (RequestBatch option \<times> bool)" where
  "assign_slot quorum vset s =
     (case scan_vset s vset [] [] of
        Inl p \<Rightarrow> Inl p
      | Inr (Inl batch) \<Rightarrow> Inr (Some batch, True)
      | Inr (Inr (diffValues, diffValuesReqBatch)) \<Rightarrow>
          (let winners = diffSubset quorum diffValues in
           if length winners = 1 then Inr (Some (gm_get0 emptyBatch diffValuesReqBatch (hd winners)), True)
           else if length winners = 2 then Inr (None, False)
           else if length winners = 0 then Inr (Some emptyBatch, True)
           else Inr (None, True)))"

text \<open>
  \<open>for s := min_s; s <= max_s; s++\<close> over 32-bit numbers: when \<open>max_s\<close> is the largest one the
  condition never fails, and the loop does not return.
\<close>

type_synonym assign_state = "go_panic + (u32 \<times> (u32, RequestBatch) gomap \<times> bool)"

definition assign_cond :: "u32 \<Rightarrow> assign_state \<Rightarrow> bool" where
  "assign_cond max_s st = (case st of Inl p \<Rightarrow> False | Inr (s, msgList, ok) \<Rightarrow> s \<le> max_s)"

definition assign_body :: "int \<Rightarrow> ViewChangeMsg list \<Rightarrow> assign_state \<Rightarrow> assign_state" where
  "assign_body quorum vset st =
     (case st of
        Inl p \<Rightarrow> Inl p
      | Inr (s, msgList, ok) \<Rightarrow>
          (case assign_slot quorum vset s of
             Inl p \<Rightarrow> Inl p
           | Inr (b, fine) \<Rightarrow>
               Inr (s + 1, (case b of None \<Rightarrow> msgList | Some batch \<Rightarrow> gm_put s batch msgList), ok \<and> fine)))"

definition assignSequenceNumbers ::
  "Node \<Rightarrow> ViewChangeMsg list \<Rightarrow> u32 \<Rightarrow> (Node, (u32, RequestBatch) gomap \<times> bool) go" where
  "assignSequenceNumbers n vset sn =
     (let min_s = sn + 1; max_s = sn + n_K (cfg n) in
      case while_option (assign_cond max_s) (assign_body (prePrepareSubsetCount (cfg n)) vset)
             (Inr (min_s, [], True)) of
        None \<Rightarrow> Block n
      | Some (Inl p) \<Rightarrow> Panic p
      | Some (Inr (s, msgList, ok)) \<Rightarrow> Ret (msgList, ok))"

end
