(* ===== verification/Normal.thy ===== *)
theory Normal
  imports ViewChange
begin

text \<open>
  The normal case of core/core.go: pre-prepare, prepare and commit votes, the three kinds of
  certificates, and in-order execution. One definition per Go function, in an order that
  respects calls; the goroutines they start are tasks that \<open>Dispatch\<close> runs later.
\<close>

section \<open>Executing requests\<close>

text \<open>
  A checkpoint every \<open>T\<close> requests, in a goroutine of its own; \<open>% n.T\<close> panics when \<open>T\<close> is 0.
\<close>

definition checkIfCreateChkpt :: "u32 \<Rightarrow> errch \<Rightarrow> stmt" where
  "checkIfCreateChkpt sn err n =
     (if n_T (cfg n) = 0 then Panic DivideByZero
      else if sn mod n_T (cfg n) = 0 then Ret (spawn [CheckpointTask sn None err] n)
      else Ret n)"

text \<open>
  What one turn of the execution loop does: it computes the time since the pre-prepare
  (which is only printed), reports the request as executed, and moves \<open>lastExec\<close>. Then it
  may take a checkpoint and leave the view.
\<close>

definition mark_executed :: "MsgId \<Rightarrow> string \<Rightarrow> Node \<Rightarrow> Node" where
  "mark_executed idx digest n =
     (let n = add_trace (Executed (lastExec n + 1) idx (Some digest)) (step_clock n)
      in n\<lparr>lastExec := lastExec n + 1\<rparr>)"

definition after_execution :: "env \<Rightarrow> errch \<Rightarrow> stmt" where
  "after_execution E err n =
     go_bind (checkIfCreateChkpt (lastExec n) err n) (\<lambda>n.
     if lastExec n = viewChangeSeqNumber n \<and> autoViewChange (cfg n) = 1
     then sendViewChange E err n else Ret n)"

text \<open>
  The loop of \<open>executeRequest\<close>, from index \<open>i\<close>. It goes on while a digest is buffered for \<open>i\<close>,
  a different key in every turn, so one unit of fuel per buffered key and one for the final
  test are enough unless all \<open>2 ^ 32\<close> numbers are buffered (\<open>exec_loop_enough_fuel\<close>).
\<close>

primrec exec_loop :: "nat \<Rightarrow> env \<Rightarrow> errch \<Rightarrow> u32 \<Rightarrow> stmt" where
  "exec_loop 0 E err i n = Block n"
| "exec_loop (Suc fuel) E err i n =
     (case gm_get0 None (execReqBuffer n) i of
        None \<Rightarrow> Ret n
      | Some digest \<Rightarrow>
          (let idx = gm_get0 (mkId 0 0) (execReqIdBuffer n) i;
               (cert, n) = getCert idx n
           in if prePrepareStore cert = None then Panic NilDereference
              else go_bind (after_execution E err (mark_executed idx digest n))
                     (exec_loop fuel E err (i + 1))))"

definition executeRequest :: "env \<Rightarrow> MsgId \<Rightarrow> errch \<Rightarrow> stmt" where
  "executeRequest E idx err n =
     (let n = n\<lparr>execReqIdBuffer := gm_put (id_Sn idx) idx (execReqIdBuffer n)\<rparr>;
          (cert, n) = getCert idx n;
          n = n\<lparr>execReqBuffer := gm_put (id_Sn idx) (reqBatchDigest cert) (execReqBuffer n)\<rparr>
      in if lastExec n < id_Sn idx
         then exec_loop (Suc (length (execReqBuffer n))) E err (lastExec n + 1) n
         else Ret n)"

section \<open>Becoming prepared and committed\<close>

definition checkIfCommitted :: "env \<Rightarrow> MsgId \<Rightarrow> errch \<Rightarrow> stmt" where
  "checkIfCommitted E idx err n =
     (let (cert, n) = getCert idx n in
      case commitQc cert of
        None \<Rightarrow> Ret n
      | Some cqc \<Rightarrow>
          if reqBatchStage cert = prepared
          then (if \<not> verifyThresholdSig E (j_ptr j_PrepareQc (prepareQc cert)) (tsPubKey (cfg n))
                     (cqc_ThresholdSig cqc)
                then Ret n
                else executeRequest E idx err (modCert idx (\<lambda>c. c\<lparr>reqBatchStage := committed\<rparr>) n))
          else Ret n)"

definition checkIfPrepared :: "env \<Rightarrow> MsgId \<Rightarrow> errch \<Rightarrow> stmt" where
  "checkIfPrepared E idx err n =
     (let (cert, n) = getCert idx n in
      if reqBatchStage cert = received \<and> fastPrepareQc cert \<noteq> None
      then executeRequest E idx err (modCert idx (\<lambda>c. c\<lparr>reqBatchStage := committed\<rparr>) n)
      else if reqBatchStage cert = received \<and> prepareQc cert \<noteq> None
      then checkIfCommitted E idx err (modCert idx (\<lambda>c. c\<lparr>reqBatchStage := prepared\<rparr>) n)
      else Ret n)"

section \<open>Prepare votes and their certificates\<close>

definition createPrepareMsg :: "env \<Rightarrow> u32 \<Rightarrow> Node \<Rightarrow> (Node, Node \<times> PrepareMsg) go" where
  "createPrepareMsg E sn n =
     (let (cert, n) = getCert (mkId sn (currenView n)) n;
          prepareVote = \<lparr>vote_SN = sn, vote_BatchHash = reqBatchDigest cert, vote_View = currenView n\<rparr>
      in case encode (j_VoteForPrepare prepareVote) of
           None \<Rightarrow> Panic ExplicitPanic
         | Some encodedBytes \<Rightarrow>
             go_bind (SignTSPartial (env_crypto E) (tsPriKey (cfg n)) (Some encodedBytes)) (\<lambda>sig.
             go_bind (SignTSPartial (env_crypto E) (fastPriKey (cfg n)) (Some encodedBytes)) (\<lambda>fastSig.
             Ret (add_trace (SignedPrepare prepareVote) (step_clock n),
                  \<lparr>pm_Vote = prepareVote, pm_ReplicaId = replicaId (cfg n), pm_PartialSig = sig,
                   pm_FastPartialSig = fastSig, pm_TimeStamp = now E n\<rparr>))))"

definition sendPrepareMsg :: "env \<Rightarrow> u32 \<Rightarrow> errch \<Rightarrow> stmt" where
  "sendPrepareMsg E sn err n =
     go_bind (createPrepareMsg E sn n) (\<lambda>(n, pm).
     go_bind (primary n (currenView n)) (\<lambda>leaderId.
     go_bind (sendToLeader E (PrepareM pm) (leaderAddr n leaderId) n) (report err)))"

text \<open>The signatures collected for a batch, in the order the range loop visits them.\<close>

definition partials :: "nat \<Rightarrow> partial_sigs \<Rightarrow> MsgId \<Rightarrow> string \<Rightarrow> (u32, gobytes) gomap" where
  "partials s m idx key = range_order s (gm_get0 [] (gm_get0 [] m idx) key)"

definition createPrepareQc :: "env \<Rightarrow> MsgId \<Rightarrow> string \<Rightarrow> Node \<Rightarrow> (Node, Node \<times> PrepareQc option) go" where
  "createPrepareQc E idx batchString n =
     (let batchHash = Some (fst (hex_decode batchString));
          voteMsg = \<lparr>vote_SN = id_Sn idx, vote_BatchHash = batchHash, vote_View = id_View idx\<rparr>;
          partialSigs = map snd (partials (env_order E (clock n)) (partialSigInPrepare n) idx batchString)
      in go_bind (createThresholdSig E (j_VoteForPrepare voteMsg) partialSigs (tsPubKey (cfg n))
                    (2 * n_f (cfg n) + 1) (replicaCount (cfg n))) (\<lambda>r.
         case r of
           None \<Rightarrow> Ret (step_clock n, None)
         | Some sig \<Rightarrow> Ret (step_clock n, Some
             \<lparr>pqc_SN = id_Sn idx, pqc_BatchHash = batchHash, pqc_View = id_View idx,
              pqc_ReplicaId = replicaId (cfg n), pqc_ThresholdSig = sig, pqc_TimeStamp = now E n\<rparr>)))"

definition createFastPrepareQc ::
  "env \<Rightarrow> MsgId \<Rightarrow> string \<Rightarrow> Node \<Rightarrow> (Node, Node \<times> FastPrepareQc option) go" where
  "createFastPrepareQc E idx batchString n =
     (let batchHash = Some (fst (hex_decode batchString));
          voteMsg = \<lparr>vote_SN = id_Sn idx, vote_BatchHash = batchHash, vote_View = id_View idx\<rparr>;
          partialSigs = map snd (partials (env_order E (clock n)) (fastPartialSigInPrepare n) idx batchString)
      in go_bind (createThresholdSig E (j_VoteForPrepare voteMsg) partialSigs (fastPubKey (cfg n))
                    (fastQcQuorum (cfg n)) (replicaCount (cfg n))) (\<lambda>r.
         case r of
           None \<Rightarrow> Ret (step_clock n, None)
         | Some sig \<Rightarrow> Ret (step_clock n, Some
             \<lparr>fpqc_SN = id_Sn idx, fpqc_BatchHash = batchHash, fpqc_View = id_View idx,
              fpqc_ReplicaId = replicaId (cfg n), fpqc_ThresholdSig = sig, fpqc_TimeStamp = now E n\<rparr>)))"

definition checkIfPrepareQc :: "env \<Rightarrow> MsgId \<Rightarrow> string \<Rightarrow> stmt" where
  "checkIfPrepareQc E idx batchString n =
     (let (cert, n) = getCert idx n in
      if int (length (gm_get0 [] (gm_get0 [] (partialSigInPrepare n) idx) batchString)) \<ge> 2 * n_f (cfg n) + 1
         \<and> \<not> prepareQcStage cert
      then go_bind (createPrepareQc E idx batchString (modCert idx (\<lambda>c. c\<lparr>prepareQcStage := True\<rparr>) n))
             (\<lambda>(n, qc). case qc of
                None \<Rightarrow> Panic NilDereference
              | Some q \<Rightarrow> go_bind (broadcast E (PrepareQcM q) [] n) (\<lambda>r. Ret (fst r)))
      else Ret n)"

text \<open>\<open>m[a][b][c] = v\<close>, the inner maps made when missing.\<close>

definition put_partial :: "MsgId \<Rightarrow> string \<Rightarrow> u32 \<Rightarrow> gobytes \<Rightarrow> partial_sigs \<Rightarrow> partial_sigs" where
  "put_partial idx key rid sig m =
     (let inner = gm_get0 [] m idx
      in gm_put idx (gm_put key (gm_put rid sig (gm_get0 [] inner key)) inner) m)"

text \<open>
  When the identifier, or the digest, is new for the slow-path map, the fast-path map gets
  a fresh entry as well.
\<close>

definition init_partials :: "MsgId \<Rightarrow> string \<Rightarrow> Node \<Rightarrow> Node" where
  "init_partials idx key n =
     (let n = (if gm_get (partialSigInPrepare n) idx = None
               then n\<lparr>partialSigInPrepare := gm_put idx [] (partialSigInPrepare n),
                      fastPartialSigInPrepare := gm_put idx [] (fastPartialSigInPrepare n)\<rparr>
               else n);
          slow = gm_get0 [] (partialSigInPrepare n) idx;
          fast = gm_get0 [] (fastPartialSigInPrepare n) idx
      in if gm_get slow key = None
         then n\<lparr>partialSigInPrepare := gm_put idx (gm_put key [] slow) (partialSigInPrepare n),
                fastPartialSigInPrepare := gm_put idx (gm_put key [] fast) (fastPartialSigInPrepare n)\<rparr>
         else n)"

definition handlePrepareVote :: "env \<Rightarrow> PrepareMsg \<Rightarrow> stmt" where
  "handlePrepareVote E pm n =
     (let idx = vote_id (pm_Vote pm);
          (cert, n) = getCert idx n;
          batchString = hex_encode (bytes_of (vote_BatchHash (pm_Vote pm)));
          n = init_partials idx batchString n;
          n = n\<lparr>partialSigInPrepare :=
                  put_partial idx batchString (pm_ReplicaId pm) (pm_PartialSig pm) (partialSigInPrepare n),
                fastPartialSigInPrepare :=
                  put_partial idx batchString (pm_ReplicaId pm) (pm_FastPartialSig pm) (fastPartialSigInPrepare n)\<rparr>
      in case gm_get (prepareTimer n) idx of
           None \<Rightarrow> Panic NilDereference
         | Some t \<Rightarrow>
             if \<not> ft_stop t
             then (if int (length (gm_get0 [] (gm_get0 [] (fastPartialSigInPrepare n) idx) batchString))
                        \<ge> fastQcQuorum (cfg n) \<and> \<not> prepareQcStage cert
                   then go_bind (createFastPrepareQc E idx batchString
                                   (modCert idx (\<lambda>c. c\<lparr>prepareQcStage := True\<rparr>) n))
                          (\<lambda>(n, qc). case qc of
                             None \<Rightarrow> Panic NilDereference
                           | Some q \<Rightarrow> go_bind (broadcast E (FastPrepareQcM q) [] n) (\<lambda>r. Ret (fst r)))
                   else Ret n)
             else checkIfPrepareQc E idx batchString n)"

text \<open>\<open>checkIfPrePrepared\<close> only reports; its caller ignores the result.\<close>

definition checkIfPrePrepared :: "MsgId \<Rightarrow> Node \<Rightarrow> bool \<times> Node" where
  "checkIfPrePrepared idx n =
     (let (cert, n) = getCert idx n in (prePrepareStore cert \<noteq> None, n))"

definition handlePrepareMsg :: "env \<Rightarrow> PrepareMsg \<Rightarrow> errch \<Rightarrow> stmt" where
  "handlePrepareMsg E pm err n =
     (if \<not> activeView n then Ret n
      else if \<not> inWatermarks n (vote_SN (pm_Vote pm)) then Ret n
      else (let idx = mkId (vote_SN (pm_Vote pm)) (currenView n);
                (ok, n) = checkIfPrePrepared idx n;
                (cert, n) = getCert idx n
            in if gm_get (prePareStore cert) (pm_ReplicaId pm) \<noteq> None then Ret n
               else handlePrepareVote E pm
                      (modCert idx (\<lambda>c. c\<lparr>prePareStore := gm_put (pm_ReplicaId pm) pm (prePareStore c)\<rparr>) n)))"

section \<open>Pre-prepare\<close>

definition handlePrePrepareMsg :: "env \<Rightarrow> PrePrepareMsg \<Rightarrow> errch \<Rightarrow> stmt" where
  "handlePrePrepareMsg E preprep err n =
     (if \<not> activeView n then Ret n
      else if ppm_SN preprep > viewChangeSeqNumber n \<and> autoViewChange (cfg n) = 1
      then sendViewChange E err n
      else go_bind (primary n (currenView n)) (\<lambda>leader.
        if ppm_ReplicaId preprep \<noteq> leader then sendViewChange E err n
        else if \<not> inWatermarks n (ppm_SN preprep) then Ret n
        else
          (let idx = mkId (ppm_SN preprep) (ppm_View preprep);
               (cert, n) = getCert idx n
           in if blen (reqBatchDigest cert) \<noteq> 0 \<and> \<not> bytes_Equal (reqBatchDigest cert) (ppm_BatchHash preprep)
              then sendViewChange E err n
              else
                (let n = n\<lparr>reqBatch := gm_put idx (ppm_ReqBatch preprep) (reqBatch n)\<rparr>;
                     n = modCert idx (\<lambda>c. c\<lparr>reqBatchStage := received, reqBatchDigest := ppm_BatchHash preprep,
                                            prePrepareStore := Some preprep\<rparr>) n
                 in go_bind (checkIfPrepared E idx err n) (\<lambda>n.
                    go_bind (primary n (currenView n)) (\<lambda>leader.
                    if replicaId (cfg n) \<noteq> leader then sendPrepareMsg E (ppm_SN preprep) err n
                    else go_bind (createPrepareMsg E (ppm_SN preprep) n)
                           (\<lambda>(n, pm). handlePrepareMsg E pm err n)))))))"

section \<open>Commit votes\<close>

definition createCommitMsg :: "env \<Rightarrow> PrepareQc \<Rightarrow> Node \<Rightarrow> (Node, Node \<times> CommitMsg) go" where
  "createCommitMsg E pqc n =
     (case encode (j_PrepareQc pqc) of
        None \<Rightarrow> Panic ExplicitPanic
      | Some encodedBytes \<Rightarrow>
          go_bind (SignTSPartial (env_crypto E) (tsPriKey (cfg n)) (Some encodedBytes)) (\<lambda>sig.
          Ret (add_trace (SignedCommit pqc) (step_clock n),
               \<lparr>cm_Vote = pqc, cm_ReplicaId = replicaId (cfg n), cm_PartialSig = sig,
                cm_TimeStamp = now E n\<rparr>)))"

definition sendCommitMsg :: "env \<Rightarrow> PrepareQc \<Rightarrow> errch \<Rightarrow> stmt" where
  "sendCommitMsg E pqc err n =
     go_bind (createCommitMsg E pqc n) (\<lambda>(n, cm).
     go_bind (primary n (currenView n)) (\<lambda>leaderId.
     go_bind (sendToLeader E (CommitM cm) (leaderAddr n leaderId) n) (report err)))"

definition handlePrepareQc :: "env \<Rightarrow> PrepareQc \<Rightarrow> errch \<Rightarrow> stmt" where
  "handlePrepareQc E pqc err n =
     (if \<not> activeView n then Ret n
      else if \<not> inWatermarks n (pqc_SN pqc) then Ret n
      else go_bind (primary n (currenView n)) (\<lambda>leader.
        if pqc_ReplicaId pqc \<noteq> leader then sendViewChange E NilCh n
        else
          (let idx = mkId (pqc_SN pqc) (pqc_View pqc);
               (cert, n) = getCert idx n
           in if prepareQc cert \<noteq> None then Ret n
              else if \<not> verifyThresholdSig E (j_VoteForPrepare (pqc_vote pqc)) (tsPubKey (cfg n))
                          (pqc_ThresholdSig pqc)
              then Ret n
              else go_bind (checkIfPrepared E idx err (modCert idx (\<lambda>c. c\<lparr>prepareQc := Some pqc\<rparr>) n))
                     (sendCommitMsg E pqc err))))"

text \<open>
  The last check of \<open>handleFastPrepareQc\<close> runs in a goroutine. There is no test of the view's
  activity or of the watermarks here.
\<close>

definition handleFastPrepareQc :: "env \<Rightarrow> FastPrepareQc \<Rightarrow> errch \<Rightarrow> stmt" where
  "handleFastPrepareQc E fpqc err n =
     go_bind (primary n (currenView n)) (\<lambda>leader.
       if fpqc_ReplicaId fpqc \<noteq> leader then Ret n
       else
         (let idx = mkId (fpqc_SN fpqc) (fpqc_View fpqc);
              (cert, n) = getCert idx n
          in if fastPrepareQc cert \<noteq> None then Ret n
             else if \<not> verifyThresholdSig E (j_VoteForPrepare (fpqc_vote fpqc)) (fastPubKey (cfg n))
                         (fpqc_ThresholdSig fpqc)
             then Ret n
             else Ret (spawn [CheckIfPreparedTask idx err]
                         (modCert idx (\<lambda>c. c\<lparr>fastPrepareQc := Some fpqc\<rparr>) n))))"

section \<open>Commit certificates\<close>

definition createCommitQc :: "env \<Rightarrow> MsgId \<Rightarrow> PrepareQc \<Rightarrow> Node \<Rightarrow> (Node, Node \<times> CommitQc) go" where
  "createCommitQc E idx vote n =
     (let voteString = hex_encode (bytes_of (dataHashByte (env_crypto E) (j_PrepareQc vote)));
          partialSigs = map snd (partials (env_order E (clock n)) (partialSigInCommit n) idx voteString)
      in go_bind (createThresholdSig E (j_PrepareQc vote) partialSigs (tsPubKey (cfg n))
                    (2 * n_f (cfg n) + 1) (replicaCount (cfg n))) (\<lambda>r.
         case r of
           None \<Rightarrow> Panic ExplicitPanic
         | Some sig \<Rightarrow> Ret (step_clock n,
             \<lparr>cqc_SN = id_Sn idx, cqc_BatchHash = pqc_BatchHash vote, cqc_View = id_View idx,
              cqc_ReplicaId = replicaId (cfg n), cqc_ThresholdSig = sig, cqc_TimeStamp = now E n\<rparr>)))"

definition handleCommitVote :: "env \<Rightarrow> CommitMsg \<Rightarrow> stmt" where
  "handleCommitVote E cm n =
     (let idx = mkId (pqc_SN (cm_Vote cm)) (pqc_View (cm_Vote cm));
          (cert, n) = getCert idx n;
          voteString = hex_encode (bytes_of (dataHashByte (env_crypto E) (j_PrepareQc (cm_Vote cm))));
          n = n\<lparr>partialSigInCommit :=
                  put_partial idx voteString (cm_ReplicaId cm) (cm_PartialSig cm) (partialSigInCommit n)\<rparr>
      in if int (length (gm_get0 [] (gm_get0 [] (partialSigInCommit n) idx) voteString)) \<ge> 2 * n_f (cfg n) + 1
            \<and> \<not> commitQcStage cert
         then go_bind (createCommitQc E idx (cm_Vote cm) n) (\<lambda>(n, q).
              go_bind (broadcast E (CommitQcM q) [] (modCert idx (\<lambda>c. c\<lparr>commitQcStage := True\<rparr>) n))
                (\<lambda>r. Ret (fst r)))
         else Ret n)"

definition handleCommitMsg :: "env \<Rightarrow> CommitMsg \<Rightarrow> errch \<Rightarrow> stmt" where
  "handleCommitMsg E cmsg err n =
     (if \<not> activeView n then Ret n
      else if \<not> inWatermarks n (pqc_SN (cm_Vote cmsg)) then Ret n
      else (let idx = mkId (pqc_SN (cm_Vote cmsg)) (pqc_View (cm_Vote cmsg));
                (ok, n) = checkIfPrePrepared idx n;
                (cert, n) = getCert idx n
            in if gm_get (commitStore cert) (cm_ReplicaId cmsg) \<noteq> None then Ret n
               else handleCommitVote E cmsg
                      (modCert idx (\<lambda>c. c\<lparr>commitStore := gm_put (cm_ReplicaId cmsg) cmsg (commitStore c)\<rparr>) n)))"

definition handleCommitQc :: "env \<Rightarrow> CommitQc \<Rightarrow> errch \<Rightarrow> stmt" where
  "handleCommitQc E cqc err n =
     (if \<not> activeView n then Ret n
      else if \<not> inWatermarks n (cqc_SN cqc) then Ret n
      else go_bind (primary n (currenView n)) (\<lambda>leader.
        if cqc_ReplicaId cqc \<noteq> leader then sendViewChange E err n
        else
          (let idx = mkId (cqc_SN cqc) (cqc_View cqc);
               (cert, n) = getCert idx n
           in if commitQc cert \<noteq> None then Ret n
              else (let n = modCert idx (\<lambda>c. c\<lparr>commitQc := Some cqc\<rparr>) n in
                case prepareQc cert of
                  None \<Rightarrow> Ret n
                | Some voteMsg \<Rightarrow>
                    if \<not> verifyThresholdSig E (j_PrepareQc voteMsg) (tsPubKey (cfg n)) (cqc_ThresholdSig cqc)
                    then Ret n
                    else checkIfCommitted E idx err n))))"

section \<open>Proposing\<close>

definition createPrePrepareMsg :: "env \<Rightarrow> RequestBatch \<Rightarrow> Node \<Rightarrow> Node \<times> PrePrepareMsg" where
  "createPrePrepareMsg E batch n =
     (let batchHash = dataHashByte (env_crypto E) (j_RequestBatch batch);
          sn = nextSN n
      in (step_clock (n\<lparr>nextSN := nextSN n + 1\<rparr>),
          \<lparr>ppm_SN = sn, ppm_BatchHash = batchHash, ppm_ReqBatch = batch, ppm_View = currenView n,
           ppm_ReplicaId = replicaId (cfg n), ppm_TimeStamp = now E n\<rparr>))"

text \<open>Starting the fast-path timer of a request and the goroutine that waits for it.\<close>

definition start_prepareTimer :: "MsgId \<Rightarrow> string \<Rightarrow> Node \<Rightarrow> Node" where
  "start_prepareTimer idx batchString n =
     spawn [PrepareTimerTask idx batchString]
       (n\<lparr>prepareTimer := gm_put idx \<lparr>ft_stop = False,
            ft_timeControl = Some (1000000 * of_int (fastTimeout (cfg n)))\<rparr> (prepareTimer n)\<rparr>)"

definition broadcastPrePrepareMsg :: "env \<Rightarrow> RequestBatch \<Rightarrow> errch \<Rightarrow> stmt" where
  "broadcastPrePrepareMsg E batch err n =
     (if \<not> inWatermarks n (nextSN n) \<or> nextSN n > low_h n + n_K (cfg n) div 2 then Ret n
      else if nextSN n > viewChangeSeqNumber n \<and> autoViewChange (cfg n) = 1 then Ret n
      else (let (n, ppm) = createPrePrepareMsg E batch n;
                idx = mkId (ppm_SN ppm) (ppm_View ppm);
                n = add_trace (Proposed ppm) (start_prepareTimer idx (hex_encode (bytes_of (ppm_BatchHash ppm))) n)
            in go_bind (broadcast E (PrePrepareM ppm) [] n) (report err)))"

text \<open>
  The goroutine waiting for a fast-path timer, when the timer has expired. It looks the
  timer up again, by identifier.
\<close>

definition prepareTimer_task :: "env \<Rightarrow> MsgId \<Rightarrow> string \<Rightarrow> stmt" where
  "prepareTimer_task E idx batchString n =
     (case gm_get (prepareTimer n) idx of
        None \<Rightarrow> Panic NilDereference
      | Some t \<Rightarrow> checkIfPrepareQc E idx batchString
          (n\<lparr>prepareTimer := gm_put idx \<lparr>ft_stop = True, ft_timeControl = None\<rparr> (prepareTimer n)\<rparr>))"

section \<open>Checkpoints\<close>

definition checkpoint :: "env \<Rightarrow> u32 \<Rightarrow> gobytes \<Rightarrow> errch \<Rightarrow> stmt" where
  "checkpoint E seqNo digest err n =
     (if n_T (cfg n) = 0 then Panic DivideByZero
      else if seqNo mod n_T (cfg n) \<noteq> 0 then Ret n
      else (let chkpt = \<lparr>ck_SeqN = seqNo, ck_StateDigest = bytes_of digest, ck_ReplicaId = replicaId (cfg n)\<rparr>;
                n = n\<lparr>chkpts := gm_put seqNo (bytes_of digest) (chkpts n)\<rparr>
            in go_bind (broadcast E (CheckpointM chkpt) [] n) (report err)))"

definition moveWatermarks :: "u32 \<Rightarrow> Node \<Rightarrow> Node" where
  "moveWatermarks seqNo n = n\<lparr>low_h := seqNo\<rparr>"

text \<open>
  \<open>2*(len(n.clusterAddr))/3.0\<close> is integer arithmetic (the constant takes the type of the
  length), so the conversion to float and the ceiling change nothing.
\<close>

definition checkpoint_quorum :: "NodeConf \<Rightarrow> int" where
  "checkpoint_quorum c = ceiling (of_int (2 * int (length (clusterAddr c)) div 3) :: rat) + 1"

text \<open>
  The loop over the stored checkpoints of the number: how many have the same digest, and
  the set of different digests seen.
\<close>

definition count_matching :: "string \<Rightarrow> CheckpointMsg list \<Rightarrow> nat" where
  "count_matching digest cs = length (filter (\<lambda>c. ck_StateDigest c = digest) cs)"

definition diff_digests :: "string \<Rightarrow> CheckpointMsg list \<Rightarrow> string list" where
  "diff_digests digest cs =
     fold (\<lambda>c ds. if ck_StateDigest c = digest \<or> ck_StateDigest c \<in> set ds then ds
                  else ck_StateDigest c # ds) cs [digest]"

definition recvCheckpoint :: "CheckpointMsg \<Rightarrow> errch \<Rightarrow> Node \<Rightarrow> Node" where
  "recvCheckpoint chkpt err n =
     (if \<not> inWatermarks n (ck_SeqN chkpt) then n
      else (let store = gm_put chkpt True (gm_get0 [] (checkpointStore n) (ck_SeqN chkpt));
                n = n\<lparr>checkpointStore := gm_put (ck_SeqN chkpt) store (checkpointStore n)\<rparr>;
                stored = gm_keys store
            in if int (length (diff_digests (ck_StateDigest chkpt) stored)) > n_f (cfg n) + 1 then n
               else if int (count_matching (ck_StateDigest chkpt) stored) < checkpoint_quorum (cfg n) then n
               else moveWatermarks (ck_SeqN chkpt) n))"

section \<open>The next scheduled view change\<close>

definition updateViewChangeSeqNo :: "Node \<Rightarrow> Node" where
  "updateViewChangeSeqNo n =
     (if viewChangePeriod (cfg n) = 0 then n
      else n\<lparr>viewChangeSeqNumber :=
               (nextSN n - 1) + viewChangePeriod (cfg n) * n_K (cfg n) + n_T (cfg n) div 2\<rparr>)"

end
