(* ===== verification/Core.thy ===== *)
theory Core
  imports Normal
begin

text \<open>
  What a replica may ever do to the part of its state that safety depends on, as an abstract
  machine: its certificates, the buffer of committed digests, the last executed number, the
  log of votes signed and requests executed, and the messages received. Each rule of \<open>core_step\<close> is one kind of
  change with the guard under which the code makes it; theory \<open>Refine\<close> shows that every
  operation of a node performs a sequence of these steps. Invariants are proved here, on
  the few rules, and hold for the code by that refinement.
\<close>

section \<open>The abstract state and its steps\<close>

record Core =
  a_cert :: "MsgId \<Rightarrow> MsgCert"
  a_buf :: "u32 \<Rightarrow> gobytes"
  a_id :: "u32 \<Rightarrow> MsgId option"
  a_last :: u32
  a_trace :: "log_event list"
  a_rcvd :: "message list"

definition upd_cert :: "MsgId \<Rightarrow> (MsgCert \<Rightarrow> MsgCert) \<Rightarrow> Core \<Rightarrow> Core" where
  "upd_cert idx g c = c\<lparr>a_cert := (a_cert c)(idx := g (a_cert c idx))\<rparr>"

definition pqc_id :: "PrepareQc \<Rightarrow> MsgId" where
  "pqc_id q = mkId (pqc_SN q) (pqc_View q)"

definition fpqc_id :: "FastPrepareQc \<Rightarrow> MsgId" where
  "fpqc_id q = mkId (fpqc_SN q) (fpqc_View q)"

text \<open>A certificate whose threshold signature verifies under the replica's keys.\<close>

definition pqc_valid :: "env \<Rightarrow> NodeConf \<Rightarrow> PrepareQc \<Rightarrow> bool" where
  "pqc_valid E cf q \<longleftrightarrow>
     verifyThresholdSig E (j_VoteForPrepare (pqc_vote q)) (tsPubKey cf) (pqc_ThresholdSig q)"

definition fpqc_valid :: "env \<Rightarrow> NodeConf \<Rightarrow> FastPrepareQc \<Rightarrow> bool" where
  "fpqc_valid E cf q \<longleftrightarrow>
     verifyThresholdSig E (j_VoteForPrepare (fpqc_vote q)) (fastPubKey cf) (fpqc_ThresholdSig q)"

definition cqc_valid :: "env \<Rightarrow> NodeConf \<Rightarrow> PrepareQc option \<Rightarrow> CommitQc \<Rightarrow> bool" where
  "cqc_valid E cf q cqc \<longleftrightarrow>
     verifyThresholdSig E (j_ptr j_PrepareQc q) (tsPubKey cf) (cqc_ThresholdSig cqc)"

inductive core_step :: "env \<Rightarrow> NodeConf \<Rightarrow> Core \<Rightarrow> Core \<Rightarrow> bool" for E cf where
  accept: "blen (reqBatchDigest (a_cert c idx)) = 0 \<or>
      bytes_Equal (reqBatchDigest (a_cert c idx)) (ppm_BatchHash p) \<Longrightarrow>
    idx = mkId (ppm_SN p) (ppm_View p) \<Longrightarrow>
    PrePrepareM p \<in> set (a_rcvd c) \<or> Replayed p \<in> set (a_trace c) \<Longrightarrow>
    core_step E cf c (upd_cert idx (\<lambda>x. x\<lparr>reqBatchStage := received,
      reqBatchDigest := ppm_BatchHash p, prePrepareStore := Some p\<rparr>) c)"
| receive: "vouched E cf m \<Longrightarrow> core_step E cf c (c\<lparr>a_rcvd := a_rcvd c @ [m]\<rparr>)"
| propose: "ppm_BatchHash p = dataHashByte (env_crypto E) (j_RequestBatch (ppm_ReqBatch p)) \<Longrightarrow>
    ppm_ReplicaId p = replicaId cf \<Longrightarrow> core_step E cf c (c\<lparr>a_trace := a_trace c @ [Proposed p]\<rparr>)"
| replay: "core_step E cf c (c\<lparr>a_trace := a_trace c @ [Replayed p]\<rparr>)"
| sign_prepare: "vote_BatchHash v = reqBatchDigest (a_cert c (vote_id v)) \<Longrightarrow>
    core_step E cf c (c\<lparr>a_trace := a_trace c @ [SignedPrepare v]\<rparr>)"
| sign_commit: "prepareQc (a_cert c (pqc_id q)) = Some q \<Longrightarrow>
    core_step E cf c (c\<lparr>a_trace := a_trace c @ [SignedCommit q]\<rparr>)"
| store_prepareQc: "prepareQc (a_cert c (pqc_id q)) = None \<Longrightarrow> pqc_valid E cf q \<Longrightarrow>
    PrepareQcM q \<in> set (a_rcvd c) \<Longrightarrow>
    core_step E cf c (upd_cert (pqc_id q) (\<lambda>x. x\<lparr>prepareQc := Some q\<rparr>) c)"
| store_fastQc: "fastPrepareQc (a_cert c (fpqc_id q)) = None \<Longrightarrow> fpqc_valid E cf q \<Longrightarrow>
    FastPrepareQcM q \<in> set (a_rcvd c) \<Longrightarrow>
    core_step E cf c (upd_cert (fpqc_id q) (\<lambda>x. x\<lparr>fastPrepareQc := Some q\<rparr>) c)"
| store_commitQc: "commitQc (a_cert c idx) = None \<Longrightarrow> CommitQcM q \<in> set (a_rcvd c) \<Longrightarrow>
    core_step E cf c (upd_cert idx (\<lambda>x. x\<lparr>commitQc := Some q\<rparr>) c)"
| bookkeep: "core_step E cf c (upd_cert idx (\<lambda>x. x\<lparr>prePareStore := ps, commitStore := cs,
    prepareQcStage := b1, commitQcStage := b2\<rparr>) c)"
| to_prepared: "reqBatchStage (a_cert c idx) = received \<Longrightarrow> prepareQc (a_cert c idx) \<noteq> None \<Longrightarrow>
    core_step E cf c (upd_cert idx (\<lambda>x. x\<lparr>reqBatchStage := prepared\<rparr>) c)"
| to_committed_slow: "reqBatchStage (a_cert c idx) = prepared \<Longrightarrow>
    commitQc (a_cert c idx) = Some q \<Longrightarrow> cqc_valid E cf (prepareQc (a_cert c idx)) q \<Longrightarrow>
    core_step E cf c (upd_cert idx (\<lambda>x. x\<lparr>reqBatchStage := committed\<rparr>) c)"
| to_committed_fast: "reqBatchStage (a_cert c idx) = received \<Longrightarrow>
    fastPrepareQc (a_cert c idx) \<noteq> None \<Longrightarrow>
    core_step E cf c (upd_cert idx (\<lambda>x. x\<lparr>reqBatchStage := committed\<rparr>) c)"
| buffer: "reqBatchStage (a_cert c idx) = committed \<Longrightarrow>
    core_step E cf c (c\<lparr>a_id := (a_id c)(id_Sn idx \<mapsto> idx),
      a_buf := (a_buf c)(id_Sn idx := reqBatchDigest (a_cert c idx))\<rparr>)"
| execute: "sn = a_last c + 1 \<Longrightarrow> a_buf c sn = Some d \<Longrightarrow>
    idx = (case a_id c sn of None \<Rightarrow> mkId 0 0 | Some i \<Rightarrow> i) \<Longrightarrow> prePrepareStore (a_cert c idx) \<noteq> None \<Longrightarrow>
    core_step E cf c (c\<lparr>a_last := sn, a_trace := a_trace c @ [Executed sn idx (Some d)]\<rparr>)"

definition core_init :: Core where
  "core_init = \<lparr>a_cert = (\<lambda>_. newCert), a_buf = (\<lambda>_. None), a_id = (\<lambda>_. None), a_last = 0, a_trace = [], a_rcvd = []\<rparr>"

inductive core_reach :: "env \<Rightarrow> NodeConf \<Rightarrow> Core \<Rightarrow> bool" for E cf where
  init: "core_reach E cf core_init"
| step: "core_reach E cf c \<Longrightarrow> core_step E cf c d \<Longrightarrow> core_reach E cf d"

lemma core_reach_steps:
  "(core_step E cf)\<^sup>*\<^sup>* c d \<Longrightarrow> core_reach E cf c \<Longrightarrow> core_reach E cf d"
  by (induction rule: rtranclp_induct) (auto intro: core_reach.step)

lemma upd_cert_sel [simp]:
  "a_buf (upd_cert idx g c) = a_buf c" "a_id (upd_cert idx g c) = a_id c"
  "a_last (upd_cert idx g c) = a_last c" "a_trace (upd_cert idx g c) = a_trace c"
  "a_rcvd (upd_cert idx g c) = a_rcvd c"
  "a_cert (upd_cert idx g c) j = (if j = idx then g (a_cert c idx) else a_cert c j)"
  by (simp_all add: upd_cert_def)

section \<open>Certificates only grow\<close>

text \<open>What a later state keeps of a certificate: the quorum certificates and a known digest.\<close>

definition cert_le :: "MsgCert \<Rightarrow> MsgCert \<Rightarrow> bool" where
  "cert_le x y \<longleftrightarrow>
     (prepareQc x \<noteq> None \<longrightarrow> prepareQc y = prepareQc x) \<and>
     (fastPrepareQc x \<noteq> None \<longrightarrow> fastPrepareQc y = fastPrepareQc x) \<and>
     (commitQc x \<noteq> None \<longrightarrow> commitQc y = commitQc x) \<and>
     (blen (reqBatchDigest x) \<noteq> 0 \<longrightarrow> reqBatchDigest y = reqBatchDigest x) \<and>
     (prePrepareStore x \<noteq> None \<longrightarrow> prePrepareStore y \<noteq> None)"

lemma cert_le_refl [simp]: "cert_le x x"
  by (simp add: cert_le_def)

lemma cert_le_trans: "cert_le x y \<Longrightarrow> cert_le y z \<Longrightarrow> cert_le x z"
  by (simp add: cert_le_def)

lemma core_step_cert_le: "core_step E cf c d \<Longrightarrow> cert_le (a_cert c idx) (a_cert d idx)"
  by (induction rule: core_step.induct)
    (auto simp: cert_le_def dest: bytes_Equal_nonempty)

lemma core_steps_cert_le:
  "(core_step E cf)\<^sup>*\<^sup>* c d \<Longrightarrow> cert_le (a_cert c idx) (a_cert d idx)"
  by (induction rule: rtranclp_induct) (auto intro: cert_le_trans core_step_cert_le)

section \<open>Certificates are what they claim\<close>

text \<open>
  A stored prepare or fast certificate is filed under its own number and view and has been
  verified. \<open>evidence\<close> is what licenses execution: a fast certificate, or a prepare
  certificate with a commit certificate whose signature verifies over it.
\<close>

definition evidence :: "env \<Rightarrow> NodeConf \<Rightarrow> MsgCert \<Rightarrow> bool" where
  "evidence E cf x \<longleftrightarrow> fastPrepareQc x \<noteq> None \<or>
     (\<exists>q cqc. prepareQc x = Some q \<and> commitQc x = Some cqc \<and> cqc_valid E cf (Some q) cqc)"

definition cert_wf :: "env \<Rightarrow> NodeConf \<Rightarrow> MsgId \<Rightarrow> MsgCert \<Rightarrow> bool" where
  "cert_wf E cf idx x \<longleftrightarrow>
     (\<forall>q. prepareQc x = Some q \<longrightarrow> pqc_id q = idx \<and> pqc_valid E cf q) \<and>
     (\<forall>q. fastPrepareQc x = Some q \<longrightarrow> fpqc_id q = idx \<and> fpqc_valid E cf q) \<and>
     (reqBatchStage x = prepared \<longrightarrow> prepareQc x \<noteq> None) \<and>
     (reqBatchStage x = committed \<longrightarrow> evidence E cf x) \<and>
     (reqBatchDigest x \<noteq> None \<longrightarrow> prePrepareStore x \<noteq> None)"

lemma cert_wf_new: "cert_wf E cf idx newCert"
  by (simp add: cert_wf_def newCert_def)

lemma evidence_mono: "evidence E cf x \<Longrightarrow> cert_le x y \<Longrightarrow> evidence E cf y"
  by (auto simp: evidence_def cert_le_def)

lemma core_step_cert_wf:
  assumes "core_step E cf c d" and wf: "\<And>i. cert_wf E cf i (a_cert c i)"
  shows "cert_wf E cf idx (a_cert d idx)"
proof -
  have ev: "evidence E cf (a_cert c idx) \<Longrightarrow> evidence E cf (a_cert d idx)"
    using core_step_cert_le [OF assms(1)] by (rule evidence_mono [rotated])
  from assms(1) show ?thesis
  proof (cases rule: core_step.cases)
    case (to_committed_slow j q)
    from wf [of j] to_committed_slow(2) obtain pq where "prepareQc (a_cert c j) = Some pq"
      by (auto simp: cert_wf_def)
    with to_committed_slow wf [of idx] show ?thesis by (auto simp: cert_wf_def evidence_def)
  next
    case (to_committed_fast j)
    with wf [of idx] show ?thesis by (auto simp: cert_wf_def evidence_def)
  qed (use wf [of idx] ev in \<open>auto simp: cert_wf_def\<close>)
qed

lemma core_reach_cert_wf: "core_reach E cf c \<Longrightarrow> cert_wf E cf idx (a_cert c idx)"
proof (induction arbitrary: idx rule: core_reach.induct)
  case init
  then show ?case by (simp add: core_init_def cert_wf_new)
next
  case (step c d)
  then show ?case by (blast intro: core_step_cert_wf)
qed

section \<open>The execution buffer\<close>

definition buf_wf :: "env \<Rightarrow> NodeConf \<Rightarrow> Core \<Rightarrow> bool" where
  "buf_wf E cf c \<longleftrightarrow> (\<forall>i.
     (\<forall>idx. a_id c i = Some idx \<longrightarrow> id_Sn idx = i \<and> evidence E cf (a_cert c idx)) \<and>
     (a_buf c i \<noteq> None \<longrightarrow> (\<exists>idx. a_id c i = Some idx \<and> prePrepareStore (a_cert c idx) \<noteq> None)))"

lemma buf_wf_keep:
  assumes "buf_wf E cf c" and "a_id d = a_id c" and "a_buf d = a_buf c"
    and le: "\<And>idx. cert_le (a_cert c idx) (a_cert d idx)"
  shows "buf_wf E cf d"
proof -
  have "evidence E cf (a_cert c idx) \<Longrightarrow> evidence E cf (a_cert d idx)" for idx
    using le by (rule evidence_mono [rotated])
  moreover have "prePrepareStore (a_cert c idx) \<noteq> None \<Longrightarrow> prePrepareStore (a_cert d idx) \<noteq> None" for idx
    using le [of idx] by (simp add: cert_le_def)
  ultimately show ?thesis
    using assms(1-3) unfolding buf_wf_def by metis
qed

lemma core_step_buf_wf:
  assumes "core_step E cf c d" and "\<And>i. cert_wf E cf i (a_cert c i)" and "buf_wf E cf c"
  shows "buf_wf E cf d"
proof (cases "a_id d = a_id c \<and> a_buf d = a_buf c")
  case True
  then show ?thesis
    using assms(3) core_step_cert_le [OF assms(1)] by (blast intro: buf_wf_keep)
next
  case False
  with assms(1) obtain idx where st: "reqBatchStage (a_cert c idx) = committed"
    and d: "d = c\<lparr>a_id := (a_id c)(id_Sn idx \<mapsto> idx),
      a_buf := (a_buf c)(id_Sn idx := reqBatchDigest (a_cert c idx))\<rparr>"
    by (cases rule: core_step.cases) auto
  from assms(2) [of idx] st have "evidence E cf (a_cert c idx)"
    "reqBatchDigest (a_cert c idx) \<noteq> None \<longrightarrow> prePrepareStore (a_cert c idx) \<noteq> None"
    by (auto simp: cert_wf_def)
  with assms(3) d show ?thesis by (auto simp: buf_wf_def)
qed

lemma core_reach_buf_wf: "core_reach E cf c \<Longrightarrow> buf_wf E cf c"
proof (induction rule: core_reach.induct)
  case init
  then show ?case by (simp add: core_init_def buf_wf_def)
next
  case (step c d)
  then show ?case by (blast intro: core_step_buf_wf core_reach_cert_wf)
qed

section \<open>Execution in order, and only with evidence\<close>

fun executed :: "log_event list \<Rightarrow> (u32 \<times> MsgId \<times> gobytes) list" where
  "executed [] = []"
| "executed (Executed sn idx d # es) = (sn, idx, d) # executed es"
| "executed (_ # es) = executed es"

lemma executed_append [simp]: "executed (xs @ ys) = executed xs @ executed ys"
  by (induction xs rule: executed.induct) auto

text \<open>The k-th executed request has number k (modulo the width of the counter).\<close>

definition exec_wf :: "env \<Rightarrow> NodeConf \<Rightarrow> Core \<Rightarrow> bool" where
  "exec_wf E cf c \<longleftrightarrow>
     map fst (executed (a_trace c)) = map (\<lambda>k. of_nat (Suc k)) [0..<length (executed (a_trace c))] \<and>
     a_last c = of_nat (length (executed (a_trace c))) \<and>
     (\<forall>(sn, idx, d) \<in> set (executed (a_trace c)).
        id_Sn idx = sn \<and> d \<noteq> None \<and> evidence E cf (a_cert c idx))"

lemma core_step_exec_wf:
  assumes "core_step E cf c d" and "buf_wf E cf c" and "exec_wf E cf c"
  shows "exec_wf E cf d"
proof -
  have ev: "evidence E cf (a_cert c idx) \<Longrightarrow> evidence E cf (a_cert d idx)" for idx
    using core_step_cert_le [OF assms(1)] by (rule evidence_mono [rotated])
  from assms(1) show ?thesis
  proof (cases rule: core_step.cases)
    case (execute sn dg idx)
    with assms(2) have "id_Sn idx = sn" "evidence E cf (a_cert c idx)"
      by (auto simp: buf_wf_def)
    with assms(3) execute show ?thesis by (simp add: exec_wf_def add.commute)
  qed (use assms(3) ev in \<open>(simp add: exec_wf_def, blast?)+\<close>)
qed

lemma core_reach_exec_wf: "core_reach E cf c \<Longrightarrow> exec_wf E cf c"
proof (induction rule: core_reach.induct)
  case init
  then show ?case by (simp add: core_init_def exec_wf_def)
next
  case (step c d)
  then show ?case by (blast intro: core_step_exec_wf core_reach_buf_wf)
qed

section \<open>Everything stored was received\<close>

text \<open>
  A stored pre-prepare is filed under its own number and view, gives the slot its digest, and
  has been received or taken from a new-view message; a stored certificate has been received;
  and what has been received verifies under the key of the replica it names.
\<close>

definition origin_wf :: "env \<Rightarrow> NodeConf \<Rightarrow> Core \<Rightarrow> bool" where
  "origin_wf E cf c \<longleftrightarrow>
     (\<forall>idx p. prePrepareStore (a_cert c idx) = Some p \<longrightarrow>
        mkId (ppm_SN p) (ppm_View p) = idx \<and> reqBatchDigest (a_cert c idx) = ppm_BatchHash p \<and>
        (PrePrepareM p \<in> set (a_rcvd c) \<or> Replayed p \<in> set (a_trace c))) \<and>
     (\<forall>idx q. prepareQc (a_cert c idx) = Some q \<longrightarrow> PrepareQcM q \<in> set (a_rcvd c)) \<and>
     (\<forall>idx q. fastPrepareQc (a_cert c idx) = Some q \<longrightarrow> FastPrepareQcM q \<in> set (a_rcvd c)) \<and>
     (\<forall>idx q. commitQc (a_cert c idx) = Some q \<longrightarrow> CommitQcM q \<in> set (a_rcvd c)) \<and>
     (\<forall>m \<in> set (a_rcvd c). vouched E cf m)"

lemma core_step_origin_wf: "core_step E cf c d \<Longrightarrow> origin_wf E cf c \<Longrightarrow> origin_wf E cf d"
  by (induction rule: core_step.induct) (auto simp: origin_wf_def)

lemma core_reach_origin_wf: "core_reach E cf c \<Longrightarrow> origin_wf E cf c"
proof (induction rule: core_reach.induct)
  case init
  then show ?case by (simp add: core_init_def origin_wf_def newCert_def)
next
  case (step c d)
  then show ?case by (blast intro: core_step_origin_wf)
qed

text \<open>A replica proposes in its own name and with the digest of the batch.\<close>

definition proposal_wf :: "env \<Rightarrow> NodeConf \<Rightarrow> Core \<Rightarrow> bool" where
  "proposal_wf E cf c \<longleftrightarrow> (\<forall>p. Proposed p \<in> set (a_trace c) \<longrightarrow> ppm_ReplicaId p = replicaId cf \<and>
     ppm_BatchHash p = dataHashByte (env_crypto E) (j_RequestBatch (ppm_ReqBatch p)))"

lemma core_step_proposal_wf: "core_step E cf c d \<Longrightarrow> proposal_wf E cf c \<Longrightarrow> proposal_wf E cf d"
  by (induction rule: core_step.induct) (auto simp: proposal_wf_def)

lemma core_reach_proposal_wf: "core_reach E cf c \<Longrightarrow> proposal_wf E cf c"
proof (induction rule: core_reach.induct)
  case init
  then show ?case by (simp add: core_init_def proposal_wf_def)
next
  case (step c d)
  then show ?case by (blast intro: core_step_proposal_wf)
qed

text \<open>The logs only grow, and a signed commit vote is for the certificate that is stored.\<close>

lemma core_step_log: "core_step E cf c d \<Longrightarrow> \<exists>es ms. a_trace d = a_trace c @ es \<and> a_rcvd d = a_rcvd c @ ms"
  by (induction rule: core_step.induct) auto

lemma core_steps_log:
  "(core_step E cf)\<^sup>*\<^sup>* c d \<Longrightarrow> set (a_trace c) \<subseteq> set (a_trace d) \<and> set (a_rcvd c) \<subseteq> set (a_rcvd d)"
  by (induction rule: rtranclp_induct) (fastforce dest: core_step_log)+

definition commit_wf :: "Core \<Rightarrow> bool" where
  "commit_wf c \<longleftrightarrow> (\<forall>q. SignedCommit q \<in> set (a_trace c) \<longrightarrow> prepareQc (a_cert c (pqc_id q)) = Some q)"

lemma core_step_commit_wf:
  assumes "core_step E cf c d" and "commit_wf c"
  shows "commit_wf d"
proof -
  have keep: "prepareQc (a_cert c idx) = Some q \<Longrightarrow> prepareQc (a_cert d idx) = Some q" for idx q
    using core_step_cert_le [OF assms(1), of idx] by (simp add: cert_le_def)
  show ?thesis
    unfolding commit_wf_def
  proof (intro allI impI)
    fix q assume "SignedCommit q \<in> set (a_trace d)"
    with assms(1) have "SignedCommit q \<in> set (a_trace c) \<or> prepareQc (a_cert c (pqc_id q)) = Some q"
      by (cases rule: core_step.cases) auto
    with assms(2) keep show "prepareQc (a_cert d (pqc_id q)) = Some q" by (auto simp: commit_wf_def)
  qed
qed

lemma core_reach_commit_wf: "core_reach E cf c \<Longrightarrow> commit_wf c"
proof (induction rule: core_reach.induct)
  case init
  then show ?case by (simp add: core_init_def commit_wf_def)
next
  case (step c d)
  then show ?case by (blast intro: core_step_commit_wf)
qed

section \<open>Executed digests\<close>

text \<open>A digest that is buffered or has been executed is still the digest of its slot.\<close>

definition digest_wf :: "Core \<Rightarrow> bool" where
  "digest_wf c \<longleftrightarrow>
     (\<forall>i idx. a_id c i = Some idx \<longrightarrow> blen (a_buf c i) \<noteq> 0 \<longrightarrow> reqBatchDigest (a_cert c idx) = a_buf c i) \<and>
     (\<forall>sn idx dg. (sn, idx, dg) \<in> set (executed (a_trace c)) \<longrightarrow> blen dg \<noteq> 0 \<longrightarrow>
        reqBatchDigest (a_cert c idx) = dg)"

lemma digest_wf_keep:
  assumes "digest_wf c" and "core_step E cf c d"
    and "a_id d = a_id c" "a_buf d = a_buf c" "executed (a_trace d) = executed (a_trace c)"
  shows "digest_wf d"
proof -
  have keep: "blen (reqBatchDigest (a_cert c idx)) \<noteq> 0 \<Longrightarrow>
      reqBatchDigest (a_cert d idx) = reqBatchDigest (a_cert c idx)" for idx
    using core_step_cert_le [OF assms(2), of idx] by (simp add: cert_le_def)
  show ?thesis
    unfolding digest_wf_def assms(3-5)
  proof (intro conjI allI impI)
    fix i idx assume "a_id c i = Some idx" "blen (a_buf c i) \<noteq> 0"
    then have "reqBatchDigest (a_cert c idx) = a_buf c i" using assms(1) by (simp add: digest_wf_def)
    with keep [of idx] \<open>blen (a_buf c i) \<noteq> 0\<close> show "reqBatchDigest (a_cert d idx) = a_buf c i" by simp
  next
    fix sn idx dg assume "(sn, idx, dg) \<in> set (executed (a_trace c))" "blen dg \<noteq> 0"
    then have "reqBatchDigest (a_cert c idx) = dg" using assms(1) by (simp add: digest_wf_def)
    with keep [of idx] \<open>blen dg \<noteq> 0\<close> show "reqBatchDigest (a_cert d idx) = dg" by simp
  qed
qed

lemma core_step_digest_wf:
  assumes "core_step E cf c d" and "buf_wf E cf c" and "digest_wf c"
  shows "digest_wf d"
  using assms(1)
proof (cases rule: core_step.cases)
  case (execute sn dg idx)
  with assms(2) have "a_id c sn = Some idx" by (auto simp: buf_wf_def)
  with assms(3) execute show ?thesis by (auto simp: digest_wf_def)
next
  case (buffer idx)
  with assms(3) show ?thesis by (auto simp: digest_wf_def)
qed (rule digest_wf_keep [OF assms(3,1)]; simp)+

lemma core_reach_digest_wf: "core_reach E cf c \<Longrightarrow> digest_wf c"
proof (induction rule: core_reach.induct)
  case init
  then show ?case by (simp add: core_init_def digest_wf_def)
next
  case (step c d)
  then show ?case by (blast intro: core_step_digest_wf core_reach_buf_wf)
qed

section \<open>One digest per number and view\<close>

definition votes_wf :: "Core \<Rightarrow> bool" where
  "votes_wf c \<longleftrightarrow> (\<forall>v. SignedPrepare v \<in> set (a_trace c) \<longrightarrow> blen (vote_BatchHash v) \<noteq> 0 \<longrightarrow>
     reqBatchDigest (a_cert c (vote_id v)) = vote_BatchHash v)"

lemma core_step_votes_wf:
  assumes "core_step E cf c d" and "votes_wf c"
  shows "votes_wf d"
proof -
  have keep: "blen (reqBatchDigest (a_cert c idx)) \<noteq> 0 \<Longrightarrow>
      reqBatchDigest (a_cert d idx) = reqBatchDigest (a_cert c idx)" for idx
    using core_step_cert_le [OF assms(1), of idx] by (simp add: cert_le_def)
  have new: "SignedPrepare v \<in> set (a_trace c) \<or> vote_BatchHash v = reqBatchDigest (a_cert c (vote_id v))"
    if "SignedPrepare v \<in> set (a_trace d)" for v
    using assms(1) that by (cases rule: core_step.cases) auto
  show ?thesis
    unfolding votes_wf_def
  proof (intro allI impI)
    fix v assume v: "SignedPrepare v \<in> set (a_trace d)" "blen (vote_BatchHash v) \<noteq> 0"
    from new [OF v(1)] v(2) assms(2) have "reqBatchDigest (a_cert c (vote_id v)) = vote_BatchHash v"
      unfolding votes_wf_def by metis
    with keep [of "vote_id v"] v(2) show "reqBatchDigest (a_cert d (vote_id v)) = vote_BatchHash v" by simp
  qed
qed

lemma core_reach_votes_wf: "core_reach E cf c \<Longrightarrow> votes_wf c"
proof (induction rule: core_reach.induct)
  case init
  then show ?case by (simp add: core_init_def votes_wf_def)
next
  case (step c d)
  then show ?case by (blast intro: core_step_votes_wf)
qed

lemma core_reach_one_vote:
  assumes "core_reach E cf c"
    and "SignedPrepare v \<in> set (a_trace c)" and "SignedPrepare w \<in> set (a_trace c)"
    and "vote_id v = vote_id w" and "blen (vote_BatchHash v) \<noteq> 0" and "blen (vote_BatchHash w) \<noteq> 0"
  shows "v = w"
proof -
  from core_reach_votes_wf [OF assms(1)] assms(2-6)
  have "vote_BatchHash v = vote_BatchHash w" by (metis votes_wf_def)
  with assms(4) show ?thesis by (auto simp: vote_id_def intro: VoteForPrepare.equality)
qed

end
