(* ===== verification/Frame.thy ===== *)
theory Frame
  imports ViewChange
begin

text \<open>
  Reasoning about what operations do to a node, for any relation between the state before
  and after. The locale \<open>node_rel\<close> asks of the relation that it is a preorder and does not
  see the fields that sending, timers and leaving a view write; it then holds across
  \<open>broadcast\<close>, \<open>sendToLeader\<close>, \<open>sendViewChange\<close> and the operations they are made of,
  whatever the environment does and also when they end blocked.
\<close>

text \<open>\<open>go_rel R n nd m\<close>: from \<open>n\<close>, every node \<open>m\<close> returns or blocks in is related to \<open>n\<close>.\<close>

definition go_rel :: "(Node \<Rightarrow> Node \<Rightarrow> bool) \<Rightarrow> Node \<Rightarrow> ('a \<Rightarrow> Node) \<Rightarrow> (Node, 'a) go \<Rightarrow> bool" where
  "go_rel R n nd m \<longleftrightarrow> go_ok (R n) (\<lambda>x. R n (nd x)) m"

text \<open>A computation that reads the node and neither changes it nor blocks.\<close>

definition go_reads :: "('s, 'a) go \<Rightarrow> bool" where
  "go_reads m \<longleftrightarrow> (\<forall>s. m \<noteq> Block s)"

lemma go_reads_prims [simp]:
  "go_reads (SignWithPrikey C d k)" "go_reads (VerifySignEd C d p sg)"
  "go_reads (SignTSPartial C sh d)" "go_reads (AssembleIntactTSPartial C ps pub d t m)"
  "go_reads (primary n v)"
  by (auto simp: go_reads_def SignWithPrikey_def VerifySignEd_def SignTSPartial_def Let_def
    AssembleIntactTSPartial_def primary_def split: option.split)

lemma go_reads_bind:
  "go_reads m \<Longrightarrow> (\<And>x. go_reads (k x)) \<Longrightarrow> go_reads (go_bind m k)"
  by (cases m) (auto simp: go_reads_def)

lemma go_reads_Ret [simp]: "go_reads (Ret x)"
  by (simp add: go_reads_def)

lemma go_reads_sigs [simp]:
  "go_reads (createThresholdSig E v ps pub t m)" "go_reads (verifyRsaSignature E msg i sg n)"
  by (auto simp: createThresholdSig_def verifyRsaSignature_def go_reads_bind split: option.split)

lemma go_rel_read:
  assumes "go_reads m" and "\<And>x. m = Ret x \<Longrightarrow> go_rel R n nd (k x)"
  shows "go_rel R n nd (go_bind m k)"
  using assms by (cases m) (auto simp: go_rel_def go_reads_def)

lemma go_rel_Panic [simp]: "go_rel R n nd (Panic p)"
  by (simp add: go_rel_def)

lemma go_rel_Ret [simp]: "go_rel R n nd (Ret x) \<longleftrightarrow> R n (nd x)"
  by (simp add: go_rel_def)

lemma go_rel_Block [simp]: "go_rel R n nd (Block s) \<longleftrightarrow> R n s"
  by (simp add: go_rel_def)

lemma go_rel_weaken:
  "go_rel R n nd m \<Longrightarrow> (\<And>x. R n x \<Longrightarrow> S n x) \<Longrightarrow> go_rel S n nd m"
  unfolding go_rel_def by (erule go_ok_weaken) auto

lemma go_rel_RetD: "go_rel R n nd m \<Longrightarrow> m = Ret x \<Longrightarrow> R n (nd x)"
  by (simp add: go_rel_def)

lemma go_rel_BlockD: "go_rel R n nd m \<Longrightarrow> m = Block s \<Longrightarrow> R n s"
  by (simp add: go_rel_def)

locale node_preorder =
  fixes R :: "Node \<Rightarrow> Node \<Rightarrow> bool"
  assumes R_refl: "R n n"
    and R_trans: "R a b \<Longrightarrow> R b c \<Longrightarrow> R a c"
begin

lemma from_node: "R n n1 \<Longrightarrow> go_rel R n1 nd m \<Longrightarrow> go_rel R n nd m"
  unfolding go_rel_def by (erule go_ok_weaken) (auto intro: R_trans)

lemma bind:
  assumes "go_rel R n nd m" and "\<And>x. m = Ret x \<Longrightarrow> R n (nd x) \<Longrightarrow> go_rel R (nd x) nd' (k x)"
  shows "go_rel R n nd' (go_bind m k)"
  using assms by (cases m) (auto intro: from_node)

lemma Ret_same: "go_rel R n (\<lambda>x. x) (Ret n)"
  by (simp add: R_refl)

end

locale node_rel = node_preorder +
  assumes R_clock: "R n (n\<lparr>clock := c\<rparr>)"
    and R_gos: "R n (n\<lparr>gos := g\<rparr>)"
    and R_sent: "R n (n\<lparr>sent := s\<rparr>)"
    and R_errq: "R n (n\<lparr>errq := q\<rparr>)"
    and R_timer: "R n (n\<lparr>newViewTimer := t\<rparr>)"
    and R_active: "R n (n\<lparr>timerActive := b\<rparr>)"
    and R_view: "R n (n\<lparr>currenView := v, activeView := b\<rparr>)"
    and R_stage: "R n (n\<lparr>viewChangeStage := st\<rparr>)"
    and R_timeout: "R n (n\<lparr>lastNewVewTimeout := d\<rparr>)"
begin

lemma clock: "R n (step_clock n)"
  by (simp add: step_clock_def R_clock)

lemma spawning: "R n (spawn ts n)"
  by (simp add: spawn_def R_gos)

lemma withholding: "R n (snd (withholds E n))"
  by (simp add: withholds_def clock R_refl)

lemma clock_sent: "R n ((step_clock n)\<lparr>sent := s\<rparr>)"
  by (rule R_trans [OF clock R_sent])

lemma sending_err: "go_rel R n (\<lambda>x. x) (send_err err e n)"
  by (cases err) (auto simp: R_refl R_errq)

lemma reporting: "go_rel R (fst r) (\<lambda>x. x) (report err r)"
  by (auto simp: report_def sending_err R_refl split: option.split)

lemma broadcasting: "go_rel R n fst (broadcast E m exc n)"
proof (rule from_node [OF withholding [of n E]])
  show "go_rel R (snd (withholds E n)) fst (broadcast E m exc n)"
    unfolding broadcast_def
    by (auto simp: Let_def case_prod_unfold R_refl split: option.split
      intro!: go_rel_read R_trans [OF clock spawning])
qed

lemma to_leader: "go_rel R n fst (sendToLeader E m a n)"
proof (rule from_node [OF withholding [of n E]])
  show "go_rel R (snd (withholds E n)) fst (sendToLeader E m a n)"
    unfolding sendToLeader_def
    by (auto simp: Let_def case_prod_unfold R_refl clock clock_sent
      split: option.split net_result.split intro!: go_rel_read)
qed

lemma broadcast_report: "go_rel R n (\<lambda>x. x) (go_bind (broadcast E m exc n) (report err))"
  by (rule bind [OF broadcasting reporting])

lemma to_leader_report: "go_rel R n (\<lambda>x. x) (go_bind (sendToLeader E m a n) (report err))"
  by (rule bind [OF to_leader reporting])

lemma sending_task: "go_rel R n (\<lambda>x. x) (send_task E i a m sg n)"
  by (auto simp: send_task_def Let_def clock clock_sent split: net_result.split)

lemma timing: "go_rel R n (\<lambda>x. x) (on_timer oper n)"
  by (auto simp: on_timer_def R_timer split: option.split go.split)

lemma stopping: "go_rel R n (\<lambda>x. x) (stopTimer n)"
  unfolding stopTimer_def by (rule from_node [OF R_active timing])

lemma starting: "go_rel R n (\<lambda>x. x) (startTimer d r n)"
  unfolding startTimer_def by (rule from_node [OF R_active timing])

lemma leaving_view: "go_rel R n (\<lambda>x. x) (sendViewChange E err n)"
  unfolding sendViewChange_def Let_def
proof (rule bind [OF stopping], rule from_node)
  fix x
  let ?x = "step_clock (step_clock (x\<lparr>currenView := currenView x + 1, activeView := False\<rparr>))"
  show "R x (?x\<lparr>viewChangeStage := gm_put (currenView ?x) True (viewChangeStage ?x)\<rparr>)"
    by (rule R_trans [OF R_trans [OF R_trans [OF R_view clock] clock] R_stage])
qed (rule bind [OF broadcasting], rule bind [OF reporting], rule bind [OF starting],
  simp add: R_timeout)

end

end
