(* ===== verification/NewView.thy ===== *)
theory NewView
  imports Normal
begin

text \<open>
  The second half of core/viewchange.go: receiving view-change messages, sending, receiving
  and entering a new view. Entering one replays the assigned requests through
  \<open>handlePrePrepareMsg\<close>, with the pre-prepares the new primary would have sent.
\<close>

section \<open>Entering a new view\<close>

text \<open>
  One turn of the loop over the assigned sequence numbers. The errors of the replayed
  pre-prepares go to a nil channel.
\<close>

definition replay_one :: "env \<Rightarrow> NewViewMsg \<Rightarrow> u32 \<Rightarrow> stmt" where
  "replay_one E nv sn n =
     (if sn \<le> low_h n then Ret n
      else (let batch = gm_get0 emptyBatch (nv_Oset nv) sn;
                batchHash = dataHashByte (env_crypto E) (j_RequestBatch batch);
                view = currenView n
            in go_bind (primary n view) (\<lambda>leader.
                 let n = (if replicaId (cfg n) = leader
                          then start_prepareTimer (mkId sn view) (hex_encode (bytes_of batchHash)) n
                          else n);
                     prePrepare = \<lparr>ppm_SN = sn, ppm_BatchHash = batchHash, ppm_ReqBatch = batch,
                        ppm_View = view, ppm_ReplicaId = nv_ReplicaId nv, ppm_TimeStamp = now E n\<rparr>
                 in handlePrePrepareMsg E prePrepare NilCh (add_trace (Replayed prePrepare) (step_clock n)))))"

primrec replay :: "env \<Rightarrow> NewViewMsg \<Rightarrow> u32 list \<Rightarrow> stmt" where
  "replay E nv [] n = Ret n"
| "replay E nv (sn # sns) n = go_bind (replay_one E nv sn n) (replay E nv sns)"

definition processNewView :: "env \<Rightarrow> errch \<Rightarrow> stmt" where
  "processNewView E err n =
     (case gm_get (newViewStore n) (currenView n) of
        None \<Rightarrow> Ret n
      | Some nv \<Rightarrow>
          if activeView n then Ret n
          else go_bind (stopTimer n) (\<lambda>n.
            let n = n\<lparr>activeView := True\<rparr>;
                n = n\<lparr>nextSN := low_h n + n_K (cfg n) + 1\<rparr>;
                n = updateViewChangeSeqNo n;
                keySort = GetMapkey (env_order E (clock n)) (nv_Oset nv)
            in replay E nv keySort (step_clock n)))"

section \<open>Announcing and receiving a new view\<close>

definition sendNewView :: "env \<Rightarrow> errch \<Rightarrow> stmt" where
  "sendNewView E err n =
     (if gm_get (newViewStore n) (currenView n) \<noteq> None then Ret n
      else (let vset = getViewChangeMsgs (env_order E (clock n)) n;
                n = step_clock n;
                (initialS, ok) = selectInitialSequence (slice_of vset)
            in if initialS = 0 \<or> \<not> ok then Ret n
               else go_bind (assignSequenceNumbers n (slice_of vset) initialS) (\<lambda>(msgList, ok).
                 if \<not> ok then Ret n
                 else (let nv = \<lparr>nv_View = currenView n, nv_Vset = vset, nv_Oset = msgList,
                                 nv_ReplicaId = replicaId (cfg n)\<rparr>;
                           excAddrs = gm_put (replicaId (cfg n)) True []
                       in if gm_get0 False (newViewStage n) (currenView n) then Ret n
                          else go_bind (broadcast E (NewViewM nv) excAddrs n) (\<lambda>r.
                               go_bind (report err r) (\<lambda>n.
                               processNewView E err
                                 (n\<lparr>newViewStore := gm_put (currenView n) nv (newViewStore n),
                                    newViewStage := gm_put (currenView n) True (newViewStage n)\<rparr>)))))))"

definition recvNewView :: "env \<Rightarrow> NewViewMsg \<Rightarrow> errch \<Rightarrow> stmt" where
  "recvNewView E nv err n =
     (if \<not> (nv_View nv > 0 \<and> nv_View nv \<ge> currenView n) then Ret n
      else go_bind (primary n (nv_View nv)) (\<lambda>leader.
        if \<not> (leader = nv_ReplicaId nv \<and> gm_get (newViewStore n) (nv_View nv) = None) then Ret n
        else processNewView E err (n\<lparr>newViewStore := gm_put (nv_View nv) nv (newViewStore n)\<rparr>)))"

section \<open>Receiving a view-change message\<close>

text \<open>
  The replicas with a stored message for a later view, and the smallest such view (0 when
  there is none). The result does not depend on the order of the loop.
\<close>

definition later_views :: "u32 \<Rightarrow> (Vcidx, ViewChangeMsg) gomap \<Rightarrow> u32 list \<times> u32" where
  "later_views view store =
     fold (\<lambda>(idx, vc) (replicas, minView).
             if vci_View idx \<le> view then (replicas, minView)
             else (List.insert (vci_ReplicaId idx) replicas,
                   if minView = 0 \<or> vci_View idx < minView then vci_View idx else minView))
       store ([], 0)"

definition quorum_for :: "u32 \<Rightarrow> (Vcidx, ViewChangeMsg) gomap \<Rightarrow> int" where
  "quorum_for view store = int (length (filter (\<lambda>(idx, vc). vci_View idx = view) store))"

definition recvViewChange :: "env \<Rightarrow> ViewChangeMsg \<Rightarrow> errch \<Rightarrow> stmt" where
  "recvViewChange E vc err n =
     (if vc_View vc < currenView n then Ret n
      else go_bind (correctViewChange E vc n) (\<lambda>correct.
        let n = step_clock (step_clock n);
            idx = \<lparr>vci_View = vc_View vc, vci_ReplicaId = vc_ReplicaId vc\<rparr>
        in if \<not> correct then Ret n
           else if gm_get (viewChangeStore n) idx \<noteq> None then Ret n
           else
             (let n = n\<lparr>viewChangeStore := gm_put idx vc (viewChangeStore n)\<rparr>;
                  (replicas, minView) = later_views (currenView n) (viewChangeStore n)
              in go_bind (if int (length replicas) \<ge> n_f (cfg n) + 1
                          then sendViewChange E err (n\<lparr>currenView := minView - 1\<rparr>)
                          else Ret n) (\<lambda>n.
                 let quorum = quorum_for (currenView n) (viewChangeStore n) in
                 if \<not> activeView n \<and> vc_View vc = currenView n \<and> quorum \<ge> viewChangeQuorum (cfg n)
                 then go_bind (primary n (vc_View vc)) (\<lambda>leader.
                        if leader = replicaId (cfg n) then sendNewView E err n else Ret n)
                 else Ret n))))"

end
