(* ===== verification/Refine.thy ===== *)
theory Refine
  imports Core Frame NewView
begin

text \<open>
  Every operation of a node refines the abstract machine of \<open>Core\<close>: it leaves the
  configuration alone and changes the safety-relevant state by a sequence of \<open>core_step\<close>s,
  whatever the environment does and also when it ends blocked. The relation \<open>evolves\<close> says
  so; one lemma per definition of the model, combined by the rule for \<open>go_bind\<close>.
\<close>

section \<open>The abstraction\<close>

definition abs_node :: "Node \<Rightarrow> Core" where
  "abs_node n = \<lparr>a_cert = certOf n, a_buf = gm_get0 None (execReqBuffer n),
     a_id = gm_get (execReqIdBuffer n), a_last = lastExec n, a_trace = trace n,
     a_rcvd = rcvd n\<rparr>"

definition evolves :: "env \<Rightarrow> Node \<Rightarrow> Node \<Rightarrow> bool" where
  "evolves E n n' \<longleftrightarrow> cfg n' = cfg n \<and> (core_step E (cfg n))\<^sup>*\<^sup>* (abs_node n) (abs_node n')"

text \<open>Nothing of the safety-relevant state changes.\<close>

definition same_core :: "Node \<Rightarrow> Node \<Rightarrow> bool" where
  "same_core n n' \<longleftrightarrow> cfg n' = cfg n \<and> abs_node n' = abs_node n"

abbreviation go_evolves :: "env \<Rightarrow> Node \<Rightarrow> (Node, Node) go \<Rightarrow> bool" where
  "go_evolves E n m \<equiv> go_rel (evolves E) n (\<lambda>x. x) m"

lemma evolves_refl [simp, intro]: "evolves E n n"
  by (simp add: evolves_def)

lemma evolves_trans [trans]: "evolves E a b \<Longrightarrow> evolves E b c \<Longrightarrow> evolves E a c"
  by (auto simp: evolves_def)

lemma evolves_cfg: "evolves E n n' \<Longrightarrow> cfg n' = cfg n"
  by (simp add: evolves_def)

lemma evolves_cert_le: "evolves E n n' \<Longrightarrow> cert_le (certOf n idx) (certOf n' idx)"
  using core_steps_cert_le [of E "cfg n" "abs_node n" "abs_node n'" idx]
  by (simp add: evolves_def abs_node_def)

lemma evolves_same: "same_core n n' \<Longrightarrow> evolves E n n'"
  by (simp add: evolves_def same_core_def)

lemma evolves_step:
  "core_step E (cfg n) (abs_node n) (abs_node n') \<Longrightarrow> cfg n' = cfg n \<Longrightarrow> evolves E n n'"
  by (auto simp: evolves_def)

section \<open>Fields that do not matter\<close>

lemma abs_node_frame [simp]:
  "abs_node (n\<lparr>nextSN := a1\<rparr>) = abs_node n"
  "abs_node (n\<lparr>viewChangeSeqNumber := a1\<rparr>) = abs_node n"
  "abs_node (n\<lparr>currenView := a1\<rparr>) = abs_node n"
  "abs_node (n\<lparr>activeView := a2\<rparr>) = abs_node n"
  "abs_node (n\<lparr>viewChangeStore := a3\<rparr>) = abs_node n"
  "abs_node (n\<lparr>viewChangeStage := a4\<rparr>) = abs_node n"
  "abs_node (n\<lparr>newViewStore := a5\<rparr>) = abs_node n"
  "abs_node (n\<lparr>newViewStage := a4\<rparr>) = abs_node n"
  "abs_node (n\<lparr>newViewTimer := a6\<rparr>) = abs_node n"
  "abs_node (n\<lparr>lastNewVewTimeout := a7\<rparr>) = abs_node n"
  "abs_node (n\<lparr>timerActive := a2\<rparr>) = abs_node n"
  "abs_node (n\<lparr>newViewTimerReason := a8\<rparr>) = abs_node n"
  "abs_node (n\<lparr>rh_Leader := a8\<rparr>) = abs_node n"
  "abs_node (n\<lparr>batchStore := a9\<rparr>) = abs_node n"
  "abs_node (n\<lparr>reqBatch := a10\<rparr>) = abs_node n"
  "abs_node (n\<lparr>partialSigInPrepare := a11\<rparr>) = abs_node n"
  "abs_node (n\<lparr>fastPartialSigInPrepare := a11\<rparr>) = abs_node n"
  "abs_node (n\<lparr>partialSigInCommit := a11\<rparr>) = abs_node n"
  "abs_node (n\<lparr>low_h := a1\<rparr>) = abs_node n"
  "abs_node (n\<lparr>chkpts := a12\<rparr>) = abs_node n"
  "abs_node (n\<lparr>checkpointStore := a13\<rparr>) = abs_node n"
  "abs_node (n\<lparr>prepareTimer := a14\<rparr>) = abs_node n"
  "abs_node (n\<lparr>clock := a15\<rparr>) = abs_node n"
  "abs_node (n\<lparr>gos := a16\<rparr>) = abs_node n"
  "abs_node (n\<lparr>sent := a17\<rparr>) = abs_node n"
  "abs_node (n\<lparr>errq := a18\<rparr>) = abs_node n"
  by (simp_all add: abs_node_def certOf_def fun_eq_iff)

lemma frame_ops [simp]:
  "abs_node (step_clock n) = abs_node n" "cfg (step_clock n) = cfg n"
  "abs_node (spawn ts n) = abs_node n" "cfg (spawn ts n) = cfg n"
  "cfg (add_trace e n) = cfg n" "cfg (receive m n) = cfg n"
  "abs_node (start_prepareTimer idx b n) = abs_node n" "cfg (start_prepareTimer idx b n) = cfg n"
  "abs_node (updateViewChangeSeqNo n) = abs_node n" "cfg (updateViewChangeSeqNo n) = cfg n"
  by (simp_all add: step_clock_def spawn_def add_trace_def receive_def start_prepareTimer_def
    updateViewChangeSeqNo_def)

lemma abs_add_trace [simp]:
  "abs_node (add_trace e n) = (abs_node n)\<lparr>a_trace := a_trace (abs_node n) @ [e]\<rparr>"
  by (simp add: add_trace_def abs_node_def certOf_def fun_eq_iff)

lemma abs_receive [simp]:
  "abs_node (receive m n) = (abs_node n)\<lparr>a_rcvd := a_rcvd (abs_node n) @ [m]\<rparr>"
  by (simp add: receive_def abs_node_def certOf_def fun_eq_iff)

lemma abs_sel [simp]:
  "a_cert (abs_node n) = certOf n" "a_last (abs_node n) = lastExec n"
  "a_trace (abs_node n) = trace n" "a_buf (abs_node n) = gm_get0 None (execReqBuffer n)"
  "a_id (abs_node n) = gm_get (execReqIdBuffer n)" "a_rcvd (abs_node n) = rcvd n"
  by (simp_all add: abs_node_def)

lemma getCert_frame [simp]:
  "abs_node (snd (getCert idx n)) = abs_node n" "cfg (snd (getCert idx n)) = cfg n"
proof -
  have "certOf (snd (getCert idx n)) = certOf n" by (rule ext) simp
  moreover have "gm_get0 None (execReqBuffer (snd (getCert idx n))) = gm_get0 None (execReqBuffer n)"
    "gm_get (execReqIdBuffer (snd (getCert idx n))) = gm_get (execReqIdBuffer n)"
    "lastExec (snd (getCert idx n)) = lastExec n" "trace (snd (getCert idx n)) = trace n"
    "rcvd (snd (getCert idx n)) = rcvd n"
    by (simp_all add: getCert_def split: option.split)
  ultimately show "abs_node (snd (getCert idx n)) = abs_node n" by (simp add: abs_node_def)
  show "cfg (snd (getCert idx n)) = cfg n" by (simp add: getCert_def split: option.split)
qed

lemma getCert_eqD:
  assumes "getCert idx n = (cert, n1)"
  shows "cert = certOf n idx" "abs_node n1 = abs_node n" "cfg n1 = cfg n" "certOf n1 = certOf n"
  using getCert_fst [of idx n] getCert_frame [of idx n] certOf_getCert [of idx n] assms
  by (auto simp: fun_eq_iff)

lemma abs_modCert [simp]:
  "abs_node (modCert idx g n) = upd_cert idx g (abs_node n)" "cfg (modCert idx g n) = cfg n"
proof -
  have "certOf (modCert idx g n) = (certOf n)(idx := g (certOf n idx))"
    by (rule ext) (simp add: certOf_modCert)
  moreover have "execReqBuffer (modCert idx g n) = execReqBuffer n"
    "execReqIdBuffer (modCert idx g n) = execReqIdBuffer n"
    "lastExec (modCert idx g n) = lastExec n" "trace (modCert idx g n) = trace n"
    "rcvd (modCert idx g n) = rcvd n"
    by (simp_all add: modCert_def getCert_def Let_def split: option.split)
  ultimately show "abs_node (modCert idx g n) = upd_cert idx g (abs_node n)"
    by (simp add: abs_node_def upd_cert_def)
  show "cfg (modCert idx g n) = cfg n"
    by (simp add: modCert_def getCert_def Let_def split: option.split)
qed

lemma withholds_frame [simp]:
  "abs_node (snd (withholds E n)) = abs_node n" "cfg (snd (withholds E n)) = cfg n"
  by (simp_all add: withholds_def)

interpretation same: node_rel same_core
  by unfold_locales (auto simp: same_core_def)

interpretation ev: node_rel "evolves E" for E
  by unfold_locales (auto intro: evolves_trans evolves_same simp: same_core_def)


section \<open>Execution\<close>

lemma getCert_fst_simp [simp]: "fst (getCert idx n) = certOf n idx"
  by (rule getCert_fst)

lemma same_getCert [simp]: "same_core n (snd (getCert idx n))"
  by (simp add: same_core_def)

lemma same_coreD:
  assumes "same_core n n'"
  shows "cfg n' = cfg n" "abs_node n' = abs_node n" "certOf n' = certOf n" "lastExec n' = lastExec n"
    "trace n' = trace n" "rcvd n' = rcvd n"
  using assms abs_sel(6) [of n] abs_sel(6) [of n'] abs_sel(1) [of n] abs_sel(1) [of n'] abs_sel(2) [of n] abs_sel(2) [of n']
    abs_sel(3) [of n] abs_sel(3) [of n']
  by (simp_all add: same_core_def)

lemma ev_getCert: "go_rel (evolves E) (snd (getCert idx n)) nd m \<Longrightarrow> go_rel (evolves E) n nd m"
  by (erule ev.from_node [rotated]) (simp add: evolves_same)

lemma same_checkIfCreateChkpt: "go_rel same_core n (\<lambda>x. x) (checkIfCreateChkpt sn err n)"
  by (simp add: checkIfCreateChkpt_def same.R_refl same.spawning)

lemma ev_same: "go_rel same_core n nd m \<Longrightarrow> go_rel (evolves E) n nd m"
  by (erule go_rel_weaken) (rule evolves_same)

lemma same_after_execution: "go_rel same_core n (\<lambda>x. x) (after_execution E err n)"
  unfolding after_execution_def
  by (rule same.bind [OF same_checkIfCreateChkpt]) (simp add: same.leaving_view same.R_refl)

lemma abs_mark_executed:
  "abs_node (mark_executed idx dg n) = (abs_node n)\<lparr>a_last := lastExec n + 1,
     a_trace := trace n @ [Executed (lastExec n + 1) idx (Some dg)]\<rparr>"
  "cfg (mark_executed idx dg n) = cfg n" "lastExec (mark_executed idx dg n) = lastExec n + 1"
  by (simp_all add: mark_executed_def Let_def add_trace_def step_clock_def abs_node_def certOf_def
    fun_eq_iff)

lemma evolves_mark_executed:
  assumes "gm_get0 None (execReqBuffer n) (lastExec n + 1) = Some dg"
    and "idx = gm_get0 (mkId 0 0) (execReqIdBuffer n) (lastExec n + 1)"
    and "prePrepareStore (certOf n idx) \<noteq> None"
  shows "evolves E n (mark_executed idx dg n)"
proof (rule evolves_step)
  show "core_step E (cfg n) (abs_node n) (abs_node (mark_executed idx dg n))"
    unfolding abs_mark_executed using core_step.execute [of "lastExec n + 1" "abs_node n" dg idx E "cfg n"] assms
    by (simp add: gm_get0_def)
qed (simp add: abs_mark_executed)

text \<open>The loop keeps its index one ahead of the last executed number.\<close>

lemma evolves_exec_loop: "i = lastExec n + 1 \<Longrightarrow> go_evolves E n (exec_loop fuel E err i n)"
proof (induction fuel arbitrary: i n)
  case (Suc fuel)
  define idx where "idx = gm_get0 (mkId 0 0) (execReqIdBuffer n) i"
  define n1 where "n1 = snd (getCert idx n)"
  have n1: "same_core n n1" by (simp add: n1_def)
  have buf1: "execReqBuffer n1 = execReqBuffer n" "execReqIdBuffer n1 = execReqIdBuffer n"
    by (simp_all add: n1_def getCert_def split: option.split)
  show ?case
  proof (cases "gm_get0 None (execReqBuffer n) i")
    case (Some dg)
    have "go_evolves E n1 (go_bind (after_execution E err (mark_executed idx dg n1)) (exec_loop fuel E err (i + 1)))"
      if pp: "prePrepareStore (certOf n idx) \<noteq> None"
    proof (rule ev.from_node [OF evolves_mark_executed], rule_tac [4] ev.bind [OF ev_same [OF same_after_execution]])
      fix x assume "after_execution E err (mark_executed idx dg n1) = Ret x"
      then have "lastExec x = i"
        using same_coreD(4) [OF go_rel_RetD [OF same_after_execution]] same_coreD(4) [OF n1] Suc.prems
        by (simp add: abs_mark_executed)
      then show "go_evolves E x (exec_loop fuel E err (i + 1) x)"
        by (intro Suc.IH) simp
    qed (use Some Suc.prems pp same_coreD [OF n1] in \<open>simp_all add: buf1 idx_def\<close>)
    then have "prePrepareStore (certOf n idx) \<noteq> None \<Longrightarrow> go_evolves E n
        (go_bind (after_execution E err (mark_executed idx dg n1)) (exec_loop fuel E err (i + 1)))"
      using ev.from_node [OF evolves_same [OF n1]] by blast
    with Some show ?thesis
      by (auto simp: Let_def case_prod_unfold n1_def idx_def)
  qed simp
qed simp


lemma certOf_execBuffers [simp]:
  "certOf (n\<lparr>execReqIdBuffer := b\<rparr>) = certOf n" "certOf (n\<lparr>execReqBuffer := b'\<rparr>) = certOf n"
  by (simp_all add: certOf_def fun_eq_iff)

lemma evolves_executeRequest:
  assumes "reqBatchStage (certOf n idx) = committed"
  shows "go_evolves E n (executeRequest E idx err n)"
proof -
  define n1 where "n1 = snd (getCert idx (n\<lparr>execReqIdBuffer := gm_put (id_Sn idx) idx (execReqIdBuffer n)\<rparr>))"
  define n2 where "n2 = n1\<lparr>execReqBuffer := gm_put (id_Sn idx) (reqBatchDigest (certOf n idx)) (execReqBuffer n1)\<rparr>"
  have n1: "certOf n1 = certOf n" "execReqIdBuffer n1 = gm_put (id_Sn idx) idx (execReqIdBuffer n)"
    "execReqBuffer n1 = execReqBuffer n" "lastExec n1 = lastExec n" "trace n1 = trace n" "cfg n1 = cfg n"
    "rcvd n1 = rcvd n"
    by (simp_all add: n1_def fun_eq_iff) (simp_all add: getCert_def split: option.split)
  then have "abs_node n2 = (abs_node n)\<lparr>a_id := (a_id (abs_node n))(id_Sn idx \<mapsto> idx),
      a_buf := (a_buf (abs_node n))(id_Sn idx := reqBatchDigest (a_cert (abs_node n) idx))\<rparr>"
    by (simp add: n2_def abs_node_def fun_eq_iff gm_get0_put gm_get_put)
  then have "core_step E (cfg n) (abs_node n) (abs_node n2)"
    using core_step.buffer [of "abs_node n" idx E "cfg n"] assms by simp
  then have ev: "evolves E n n2" by (rule evolves_step) (simp add: n2_def n1)
  have "go_evolves E n2 (exec_loop (Suc (length (execReqBuffer n2))) E err (lastExec n2 + 1) n2)"
    by (rule evolves_exec_loop) simp
  from ev.from_node [OF ev this] ev show ?thesis
    by (simp add: executeRequest_def Let_def case_prod_unfold n1_def [symmetric] n2_def [symmetric]
      del: exec_loop.simps)
qed

section \<open>Changing a certificate\<close>

lemma evolves_modCert:
  "core_step E (cfg n) (abs_node n) (upd_cert idx g (abs_node n)) \<Longrightarrow> evolves E n (modCert idx g n)"
  by (rule evolves_step) simp_all

text \<open>The flags and vote stores of a certificate may change freely.\<close>

lemma evolves_flags:
  assumes "\<And>x. g x = x\<lparr>prePareStore := ps x, commitStore := cs x, prepareQcStage := pq x, commitQcStage := cq x\<rparr>"
  shows "evolves E n (modCert idx g n)"
proof (rule evolves_modCert)
  let ?x = "certOf n idx"
  have "upd_cert idx g (abs_node n) = upd_cert idx (\<lambda>x. x\<lparr>prePareStore := ps ?x, commitStore := cs ?x,
      prepareQcStage := pq ?x, commitQcStage := cq ?x\<rparr>) (abs_node n)"
    by (simp add: upd_cert_def assms)
  then show "core_step E (cfg n) (abs_node n) (upd_cert idx g (abs_node n))"
    by (simp add: core_step.bookkeep)
qed

lemma evolves_stores [simp]:
  "evolves E n (modCert idx (\<lambda>c. c\<lparr>prepareQcStage := b\<rparr>) n)"
  "evolves E n (modCert idx (\<lambda>c. c\<lparr>commitQcStage := b\<rparr>) n)"
  "evolves E n (modCert idx (\<lambda>c. c\<lparr>prePareStore := h1 c\<rparr>) n)"
  "evolves E n (modCert idx (\<lambda>c. c\<lparr>commitStore := h2 c\<rparr>) n)"
  by (rule evolves_flags [where ps = prePareStore and cs = commitStore and pq = "\<lambda>_. b" and cq = commitQcStage], simp)
    (rule evolves_flags [where ps = prePareStore and cs = commitStore and pq = prepareQcStage and cq = "\<lambda>_. b"], simp,
     rule evolves_flags [where ps = h1 and cs = commitStore and pq = prepareQcStage and cq = commitQcStage], simp,
     rule evolves_flags [where ps = prePareStore and cs = h2 and pq = prepareQcStage and cq = commitQcStage], simp)

section \<open>Becoming prepared and committed\<close>

lemma ev_after_getCert:
  assumes "\<And>n1. getCert idx n = (certOf n idx, n1) \<Longrightarrow> same_core n n1 \<Longrightarrow> certOf n1 = certOf n \<Longrightarrow>
    cfg n1 = cfg n \<Longrightarrow> go_rel (evolves E) n1 nd (k (certOf n idx) n1)"
  shows "go_rel (evolves E) n nd (case getCert idx n of (c, n1) \<Rightarrow> k c n1)"
proof -
  define n1 where "n1 = snd (getCert idx n)"
  have eq: "getCert idx n = (certOf n idx, n1)" by (simp add: n1_def prod_eq_iff)
  have s: "same_core n n1" by (simp add: n1_def)
  from ev.from_node [OF evolves_same [OF s] assms [OF eq s same_coreD(3) [OF s] same_coreD(1) [OF s]]]
  show ?thesis by (simp add: eq)
qed

lemma evolves_checkIfCommitted: "go_evolves E n (checkIfCommitted E idx err n)"
  unfolding checkIfCommitted_def Let_def
proof (rule ev_after_getCert)
  fix n1
  assume c: "certOf n1 = certOf n" and cf: "cfg n1 = cfg n"
  let ?x = "certOf n idx"
  have "go_evolves E n1 (executeRequest E idx err (modCert idx (\<lambda>c. c\<lparr>reqBatchStage := committed\<rparr>) n1))"
    if "commitQc ?x = Some q" "reqBatchStage ?x = prepared" "cqc_valid E (cfg n1) (prepareQc ?x) q" for q
  proof (rule ev.from_node [OF evolves_modCert evolves_executeRequest])
    show "core_step E (cfg n1) (abs_node n1) (upd_cert idx (\<lambda>c. c\<lparr>reqBatchStage := committed\<rparr>) (abs_node n1))"
      using that by (intro core_step.to_committed_slow [of _ _ q]) (simp_all add: c)
  qed (simp add: certOf_modCert)
  then show "go_evolves E n1 (case commitQc ?x of None \<Rightarrow> Ret n1 | Some cqc \<Rightarrow>
      if reqBatchStage ?x = prepared
      then if \<not> verifyThresholdSig E (j_ptr j_PrepareQc (prepareQc ?x)) (tsPubKey (cfg n1)) (cqc_ThresholdSig cqc)
        then Ret n1
        else executeRequest E idx err (modCert idx (\<lambda>c. c\<lparr>reqBatchStage := committed\<rparr>) n1)
      else Ret n1)"
    by (simp add: cqc_valid_def split: option.split)
qed

lemma evolves_checkIfPrepared: "go_evolves E n (checkIfPrepared E idx err n)"
  unfolding checkIfPrepared_def Let_def
proof (rule ev_after_getCert)
  fix n1
  assume c: "certOf n1 = certOf n"
  let ?x = "certOf n idx"
  have "go_evolves E n1 (executeRequest E idx err (modCert idx (\<lambda>c. c\<lparr>reqBatchStage := committed\<rparr>) n1))"
    if "reqBatchStage ?x = received" "fastPrepareQc ?x \<noteq> None"
    by (rule ev.from_node [OF evolves_modCert evolves_executeRequest])
      (use that in \<open>simp_all add: core_step.to_committed_fast c certOf_modCert\<close>)
  moreover have "go_evolves E n1 (checkIfCommitted E idx err (modCert idx (\<lambda>c. c\<lparr>reqBatchStage := prepared\<rparr>) n1))"
    if "reqBatchStage ?x = received" "prepareQc ?x \<noteq> None"
    by (rule ev.from_node [OF evolves_modCert evolves_checkIfCommitted])
      (use that in \<open>simp_all add: core_step.to_prepared c\<close>)
  ultimately show "go_evolves E n1
     (if reqBatchStage ?x = received \<and> fastPrepareQc ?x \<noteq> None
      then executeRequest E idx err (modCert idx (\<lambda>c. c\<lparr>reqBatchStage := committed\<rparr>) n1)
      else if reqBatchStage ?x = received \<and> prepareQc ?x \<noteq> None
      then checkIfCommitted E idx err (modCert idx (\<lambda>c. c\<lparr>reqBatchStage := prepared\<rparr>) n1)
      else Ret n1)"
    by simp
qed

section \<open>Voting\<close>

lemma getCert_rest:
  assumes "getCert idx n = (c, n1)"
  shows "currenView n1 = currenView n" "low_h n1 = low_h n" "clock n1 = clock n"
  using assms by (auto simp: getCert_def split: option.splits)

lemma evolves_sign_prepare:
  "vote_BatchHash v = reqBatchDigest (certOf n (vote_id v)) \<Longrightarrow>
   evolves E n (add_trace (SignedPrepare v) (step_clock n))"
  by (rule evolves_step) (simp_all add: core_step.sign_prepare [of _ "abs_node n", simplified])

lemma evolves_sign_commit:
  "prepareQc (certOf n (pqc_id q)) = Some q \<Longrightarrow>
   evolves E n (add_trace (SignedCommit q) (step_clock n))"
  by (rule evolves_step) (simp_all add: core_step.sign_commit [of "abs_node n", simplified])

lemmas read_primary = go_rel_read [OF go_reads_prims(5)]

lemma evolves_createPrepareMsg: "go_rel (evolves E) n fst (createPrepareMsg E sn n)"
  unfolding createPrepareMsg_def Let_def
proof (rule ev_after_getCert)
  fix n1
  assume g: "getCert (mkId sn (currenView n)) n = (certOf n (mkId sn (currenView n)), n1)"
    and c: "certOf n1 = certOf n"
  have "evolves E n1 (add_trace (SignedPrepare \<lparr>vote_SN = sn,
      vote_BatchHash = reqBatchDigest (certOf n (mkId sn (currenView n))), vote_View = currenView n1\<rparr>)
      (step_clock n1))"
    by (rule evolves_sign_prepare) (simp add: vote_id_def c getCert_rest [OF g])
  then show "go_rel (evolves E) n1 fst
      (case encode (j_VoteForPrepare \<lparr>vote_SN = sn,
         vote_BatchHash = reqBatchDigest (certOf n (mkId sn (currenView n))), vote_View = currenView n1\<rparr>)
       of None \<Rightarrow> Panic ExplicitPanic
       | Some encodedBytes \<Rightarrow>
         go_bind (SignTSPartial (env_crypto E) (tsPriKey (cfg n1)) (Some encodedBytes)) (\<lambda>sig.
         go_bind (SignTSPartial (env_crypto E) (fastPriKey (cfg n1)) (Some encodedBytes)) (\<lambda>fastSig.
         Ret (add_trace (SignedPrepare \<lparr>vote_SN = sn,
           vote_BatchHash = reqBatchDigest (certOf n (mkId sn (currenView n))), vote_View = currenView n1\<rparr>)
           (step_clock n1),
           \<lparr>pm_Vote = \<lparr>vote_SN = sn,
              vote_BatchHash = reqBatchDigest (certOf n (mkId sn (currenView n))), vote_View = currenView n1\<rparr>,
            pm_ReplicaId = replicaId (cfg n1), pm_PartialSig = sig,
            pm_FastPartialSig = fastSig, pm_TimeStamp = now E n1\<rparr>))))"
    by (auto split: option.split intro!: go_rel_read)
qed

lemma evolves_sendPrepareMsg: "go_evolves E n (sendPrepareMsg E sn err n)"
  unfolding sendPrepareMsg_def
  by (rule ev.bind [OF evolves_createPrepareMsg])
    (auto simp del: go_bind.simps intro!: read_primary ev.to_leader_report)

lemma evolves_createPrepareQc: "go_rel (evolves E) n fst (createPrepareQc E idx s n)"
  unfolding createPrepareQc_def Let_def
  by (rule go_rel_read) (auto split: option.split intro!: ev.clock)

lemma evolves_createFastPrepareQc: "go_rel (evolves E) n fst (createFastPrepareQc E idx s n)"
  unfolding createFastPrepareQc_def Let_def
  by (rule go_rel_read) (auto split: option.split intro!: ev.clock)

lemma ev_broadcast_fst: "go_evolves E n (go_bind (broadcast E m exc n) (\<lambda>r. Ret (fst r)))"
  by (rule ev.bind [OF ev.broadcasting]) simp

text \<open>Assembling a certificate and broadcasting it, with the flag set first.\<close>

lemma evolves_announce:
  assumes "\<And>n1. go_rel (evolves E) n1 fst (mk n1)"
  shows "go_evolves E n (go_bind (mk (modCert idx (\<lambda>c. c\<lparr>prepareQcStage := True\<rparr>) n))
    (\<lambda>(n, qc). case qc of None \<Rightarrow> Panic NilDereference
       | Some q \<Rightarrow> go_bind (broadcast E (f q) [] n) (\<lambda>r. Ret (fst r))))"
proof (rule ev.from_node [OF evolves_stores(1)], rule ev.bind [OF assms])
  fix x :: "Node \<times> 'a option"
  show "go_evolves E (fst x) (case x of (n, qc) \<Rightarrow> case qc of None \<Rightarrow> Panic NilDereference
       | Some q \<Rightarrow> go_bind (broadcast E (f q) [] n) (\<lambda>r. Ret (fst r)))"
    by (cases x) (simp add: ev_broadcast_fst split: option.split)
qed

lemma evolves_checkIfPrepareQc: "go_evolves E n (checkIfPrepareQc E idx s n)"
  unfolding checkIfPrepareQc_def Let_def
  by (rule ev_after_getCert) (auto intro!: evolves_announce [OF evolves_createPrepareQc])

lemma same_init_partials [simp]: "same_core n (init_partials idx key n)"
  by (simp add: same_core_def init_partials_def Let_def)

lemma evolves_handlePrepareVote: "go_evolves E n (handlePrepareVote E pm n)"
  unfolding handlePrepareVote_def Let_def
proof (rule ev_after_getCert)
  fix n1
  let ?idx = "vote_id (pm_Vote pm)" and ?s = "hex_encode (bytes_of (vote_BatchHash (pm_Vote pm)))"
  let ?n2 = "init_partials ?idx ?s n1"
  let ?n3 = "?n2\<lparr>partialSigInPrepare :=
               put_partial ?idx ?s (pm_ReplicaId pm) (pm_PartialSig pm) (partialSigInPrepare ?n2),
             fastPartialSigInPrepare :=
               put_partial ?idx ?s (pm_ReplicaId pm) (pm_FastPartialSig pm) (fastPartialSigInPrepare ?n2)\<rparr>"
  have "same_core n1 ?n3"
    using same_init_partials [of n1 ?idx ?s] by (simp add: same_core_def)
  then have ev: "evolves E n1 ?n3" by (rule evolves_same)
  show "go_evolves E n1
    (case gm_get (prepareTimer ?n3) ?idx of
       None \<Rightarrow> Panic NilDereference
     | Some t \<Rightarrow>
         if \<not> ft_stop t
         then (if int (length (gm_get0 [] (gm_get0 [] (fastPartialSigInPrepare ?n3) ?idx) ?s))
                    \<ge> fastQcQuorum (cfg ?n3) \<and> \<not> prepareQcStage (certOf n ?idx)
               then go_bind (createFastPrepareQc E ?idx ?s
                               (modCert ?idx (\<lambda>c. c\<lparr>prepareQcStage := True\<rparr>) ?n3))
                      (\<lambda>(n, qc). case qc of
                         None \<Rightarrow> Panic NilDereference
                       | Some q \<Rightarrow> go_bind (broadcast E (FastPrepareQcM q) [] n) (\<lambda>r. Ret (fst r)))
               else Ret ?n3)
         else checkIfPrepareQc E ?idx ?s ?n3)"
    by (rule ev.from_node [OF ev])
      (auto intro!: evolves_checkIfPrepareQc evolves_announce [OF evolves_createFastPrepareQc] split: option.split)
qed

lemma checkIfPrePrepared_eqD:
  assumes "checkIfPrePrepared idx n = (ok, n1)"
  shows "same_core n n1"
  using assms same_getCert [of n idx] by (auto simp: checkIfPrePrepared_def case_prod_unfold Let_def)

lemma evolves_handlePrepareMsg: "go_evolves E n (handlePrepareMsg E pm err n)"
proof -
  let ?idx = "mkId (vote_SN (pm_Vote pm)) (currenView n)"
  obtain ok n1 where c: "checkIfPrePrepared ?idx n = (ok, n1)" by fastforce
  have "go_evolves E n1 (case getCert ?idx n1 of (cert, n) \<Rightarrow>
      if gm_get (prePareStore cert) (pm_ReplicaId pm) \<noteq> None then Ret n
      else handlePrepareVote E pm
        (modCert ?idx (\<lambda>c. c\<lparr>prePareStore := gm_put (pm_ReplicaId pm) pm (prePareStore c)\<rparr>) n))"
    by (rule ev_after_getCert) (auto intro: ev.from_node [OF evolves_stores(3) evolves_handlePrepareVote])
  from ev.from_node [OF evolves_same [OF checkIfPrePrepared_eqD [OF c]] this] show ?thesis
    by (simp add: handlePrepareMsg_def c Let_def)
qed

section \<open>Pre-prepare\<close>

text \<open>A pre-prepare enters \<open>handlePrePrepareMsg\<close> from its signer or from a new-view message.\<close>

definition has_origin :: "Node \<Rightarrow> PrePrepareMsg \<Rightarrow> bool" where
  "has_origin n p \<longleftrightarrow> PrePrepareM p \<in> set (rcvd n) \<or> Replayed p \<in> set (trace n)"

lemma has_origin_same: "same_core n n' \<Longrightarrow> has_origin n' p = has_origin n p"
  by (simp add: has_origin_def same_coreD)

lemma evolves_propose:
  assumes "ppm_BatchHash p = dataHashByte (env_crypto E) (j_RequestBatch (ppm_ReqBatch p))"
    and "ppm_ReplicaId p = replicaId (cfg n)"
  shows "evolves E n (add_trace (Proposed p) n)"
  using core_step.propose [OF assms, of "abs_node n"] by (auto intro: evolves_step)

lemma evolves_replayed: "evolves E n (add_trace (Replayed p) n)"
  using core_step.replay [of E "cfg n" "abs_node n" p] by (auto intro: evolves_step)

lemma evolves_accept:
  assumes "blen (reqBatchDigest (certOf n idx)) = 0 \<or> bytes_Equal (reqBatchDigest (certOf n idx)) (ppm_BatchHash p)"
    and "idx = mkId (ppm_SN p) (ppm_View p)" and "has_origin n p"
  shows "evolves E n (modCert idx (\<lambda>c. c\<lparr>reqBatchStage := received, reqBatchDigest := ppm_BatchHash p,
    prePrepareStore := Some p\<rparr>) n)"
  by (rule evolves_modCert, rule core_step.accept) (use assms in \<open>auto simp: has_origin_def\<close>)

lemma evolves_vote_own_or_send:
  "go_evolves E n (go_bind (primary n v) (\<lambda>leader.
     if replicaId (cfg n) \<noteq> leader then sendPrepareMsg E sn err n
     else go_bind (createPrepareMsg E sn n) (\<lambda>(n, pm). handlePrepareMsg E pm err n)))"
proof (rule read_primary)
  fix leader
  have "go_evolves E n (go_bind (createPrepareMsg E sn n) (\<lambda>(n, pm). handlePrepareMsg E pm err n))"
    by (rule ev.bind [OF evolves_createPrepareMsg]) (auto intro: evolves_handlePrepareMsg)
  then show "go_evolves E n (if replicaId (cfg n) \<noteq> leader then sendPrepareMsg E sn err n
     else go_bind (createPrepareMsg E sn n) (\<lambda>(n, pm). handlePrepareMsg E pm err n))"
    by (simp add: evolves_sendPrepareMsg)
qed

lemma evolves_handlePrePrepareMsg:
  assumes "has_origin n p"
  shows "go_evolves E n (handlePrePrepareMsg E p err n)"
proof -
  let ?idx = "mkId (ppm_SN p) (ppm_View p)"
  let ?bad = "\<lambda>cert. blen (reqBatchDigest cert) \<noteq> 0 \<and> \<not> bytes_Equal (reqBatchDigest cert) (ppm_BatchHash p)"
  let ?put = "\<lambda>n. modCert ?idx (\<lambda>c. c\<lparr>reqBatchStage := received,
      reqBatchDigest := ppm_BatchHash p, prePrepareStore := Some p\<rparr>)
      (n\<lparr>reqBatch := gm_put ?idx (ppm_ReqBatch p) (reqBatch n)\<rparr>)"
  let ?k = "\<lambda>n. go_bind (primary n (currenView n)) (\<lambda>leader.
      if replicaId (cfg n) \<noteq> leader then sendPrepareMsg E (ppm_SN p) err n
      else go_bind (createPrepareMsg E (ppm_SN p) n) (\<lambda>(n, pm). handlePrepareMsg E pm err n))"
  have store: "go_evolves E n (case getCert ?idx n of (cert, n) \<Rightarrow>
      if ?bad cert then sendViewChange E err n
      else go_bind (checkIfPrepared E ?idx err (?put n)) ?k)"
  proof (rule ev_after_getCert)
    fix n1 assume c: "certOf n1 = certOf n" and n1: "same_core n n1"
    let ?n2 = "n1\<lparr>reqBatch := gm_put ?idx (ppm_ReqBatch p) (reqBatch n1)\<rparr>"
    have s: "same_core n1 ?n2" by (simp add: same_core_def)
    have "go_evolves E n1 (go_bind (checkIfPrepared E ?idx err (?put n1)) ?k)" if "\<not> ?bad (certOf n ?idx)"
    proof (rule ev.from_node [OF evolves_same [OF s]], rule ev.from_node [OF evolves_accept])
      show "go_evolves E (?put n1) (go_bind (checkIfPrepared E ?idx err (?put n1)) ?k)"
        by (rule ev.bind [OF evolves_checkIfPrepared]) (rule evolves_vote_own_or_send)
    qed (use that assms in \<open>auto simp: same_coreD(3) [OF s] c has_origin_same [OF s] has_origin_same [OF n1]\<close>)
    then show "go_evolves E n1 (if ?bad (certOf n ?idx) then sendViewChange E err n1
        else go_bind (checkIfPrepared E ?idx err (?put n1)) ?k)"
      by (simp add: ev.leaving_view)
  qed
  show ?thesis
    unfolding handlePrePrepareMsg_def Let_def
    using store by (auto simp: ev.leaving_view intro!: read_primary)
qed

section \<open>Certificates and commit votes\<close>

lemma evolves_createCommitMsg:
  assumes "prepareQc (certOf n (pqc_id q)) = Some q"
  shows "go_rel (evolves E) n fst (createCommitMsg E q n)"
  unfolding createCommitMsg_def
  using evolves_sign_commit [OF assms] by (auto split: option.split intro!: go_rel_read)

lemma evolves_sendCommitMsg:
  assumes "prepareQc (certOf n (pqc_id q)) = Some q"
  shows "go_evolves E n (sendCommitMsg E q err n)"
  unfolding sendCommitMsg_def
  by (rule ev.bind [OF evolves_createCommitMsg [OF assms]])
    (auto simp del: go_bind.simps intro!: read_primary ev.to_leader_report)

lemma evolves_prepareQc_stored:
  assumes "prepareQc (certOf n (pqc_id q)) = Some q" and "evolves E n n'"
  shows "prepareQc (certOf n' (pqc_id q)) = Some q"
  using evolves_cert_le [OF assms(2), of "pqc_id q"] assms(1) by (simp add: cert_le_def)

lemma evolves_handlePrepareQc:
  assumes "PrepareQcM q \<in> set (rcvd n)"
  shows "go_evolves E n (handlePrepareQc E q err n)"
proof -
  let ?ok = "\<lambda>n. verifyThresholdSig E (j_VoteForPrepare (pqc_vote q)) (tsPubKey (cfg n)) (pqc_ThresholdSig q)"
  let ?put = "\<lambda>n. modCert (pqc_id q) (\<lambda>c. c\<lparr>prepareQc := Some q\<rparr>) n"
  have store: "go_evolves E n (case getCert (pqc_id q) n of (cert, n) \<Rightarrow>
      if prepareQc cert \<noteq> None then Ret n else if \<not> ?ok n then Ret n
      else go_bind (checkIfPrepared E (pqc_id q) err (?put n)) (sendCommitMsg E q err))"
  proof (rule ev_after_getCert)
    fix n1 assume c: "certOf n1 = certOf n" and s: "same_core n n1"
    have "go_evolves E n1 (go_bind (checkIfPrepared E (pqc_id q) err (?put n1)) (sendCommitMsg E q err))"
      if "prepareQc (certOf n (pqc_id q)) = None" "?ok n1"
    proof (rule ev.from_node [OF evolves_modCert])
      show "core_step E (cfg n1) (abs_node n1) (upd_cert (pqc_id q) (\<lambda>c. c\<lparr>prepareQc := Some q\<rparr>) (abs_node n1))"
        by (rule core_step.store_prepareQc) (use that c assms s in \<open>simp_all add: pqc_valid_def same_coreD\<close>)
      have "prepareQc (certOf (?put n1) (pqc_id q)) = Some q" by (simp add: certOf_modCert)
      then show "go_evolves E (?put n1) (go_bind (checkIfPrepared E (pqc_id q) err (?put n1)) (sendCommitMsg E q err))"
        by (intro ev.bind [OF evolves_checkIfPrepared] evolves_sendCommitMsg) (rule evolves_prepareQc_stored)
    qed
    then show "go_evolves E n1 (if prepareQc (certOf n (pqc_id q)) \<noteq> None then Ret n1 else if \<not> ?ok n1 then Ret n1
      else go_bind (checkIfPrepared E (pqc_id q) err (?put n1)) (sendCommitMsg E q err))"
      by simp
  qed
  show ?thesis
    unfolding handlePrepareQc_def Let_def pqc_id_def [symmetric]
    using store by (auto simp: ev.leaving_view intro!: read_primary)
qed

lemma evolves_handleFastPrepareQc:
  assumes "FastPrepareQcM q \<in> set (rcvd n)"
  shows "go_evolves E n (handleFastPrepareQc E q err n)"
proof -
  let ?ok = "\<lambda>n. verifyThresholdSig E (j_VoteForPrepare (fpqc_vote q)) (fastPubKey (cfg n)) (fpqc_ThresholdSig q)"
  let ?put = "\<lambda>n. modCert (fpqc_id q) (\<lambda>c. c\<lparr>fastPrepareQc := Some q\<rparr>) n"
  have store: "go_evolves E n (case getCert (fpqc_id q) n of (cert, n) \<Rightarrow>
      if fastPrepareQc cert \<noteq> None then Ret n else if \<not> ?ok n then Ret n
      else Ret (spawn [CheckIfPreparedTask (fpqc_id q) err] (?put n)))"
  proof (rule ev_after_getCert)
    fix n1 assume c: "certOf n1 = certOf n" and s: "same_core n n1"
    have "evolves E n1 (spawn [CheckIfPreparedTask (fpqc_id q) err] (?put n1))"
      if "fastPrepareQc (certOf n (fpqc_id q)) = None" "?ok n1"
    proof (rule evolves_trans [OF evolves_modCert ev.spawning])
      show "core_step E (cfg n1) (abs_node n1) (upd_cert (fpqc_id q) (\<lambda>c. c\<lparr>fastPrepareQc := Some q\<rparr>) (abs_node n1))"
        by (rule core_step.store_fastQc) (use that c assms s in \<open>simp_all add: fpqc_valid_def same_coreD\<close>)
    qed
    then show "go_evolves E n1 (if fastPrepareQc (certOf n (fpqc_id q)) \<noteq> None then Ret n1 else if \<not> ?ok n1 then Ret n1
      else Ret (spawn [CheckIfPreparedTask (fpqc_id q) err] (?put n1)))"
      by simp
  qed
  show ?thesis
    unfolding handleFastPrepareQc_def Let_def fpqc_id_def [symmetric]
    using store by (auto intro!: read_primary)
qed

lemma evolves_createCommitQc: "go_rel (evolves E) n fst (createCommitQc E idx v n)"
  unfolding createCommitQc_def Let_def
  by (rule go_rel_read) (auto split: option.split intro!: ev.clock)

lemma evolves_handleCommitVote: "go_evolves E n (handleCommitVote E cm n)"
  unfolding handleCommitVote_def Let_def
proof (rule ev_after_getCert)
  fix n1 :: Node
  let ?idx = "mkId (pqc_SN (cm_Vote cm)) (pqc_View (cm_Vote cm))"
  let ?s = "hex_encode (bytes_of (dataHashByte (env_crypto E) (j_PrepareQc (cm_Vote cm))))"
  let ?n2 = "n1\<lparr>partialSigInCommit :=
       put_partial ?idx ?s (cm_ReplicaId cm) (cm_PartialSig cm) (partialSigInCommit n1)\<rparr>"
  have "same_core n1 ?n2" by (simp add: same_core_def)
  then have ev: "evolves E n1 ?n2" by (rule evolves_same)
  have "go_evolves E ?n2 (go_bind (createCommitQc E ?idx (cm_Vote cm) ?n2) (\<lambda>(n, q).
      go_bind (broadcast E (CommitQcM q) [] (modCert ?idx (\<lambda>c. c\<lparr>commitQcStage := True\<rparr>) n))
        (\<lambda>r. Ret (fst r))))"
    by (rule ev.bind [OF evolves_createCommitQc])
      (auto intro: ev.from_node [OF evolves_stores(2) ev_broadcast_fst])
  with ev show "go_evolves E n1
    (if int (length (gm_get0 [] (gm_get0 [] (partialSigInCommit ?n2) ?idx) ?s)) \<ge> 2 * n_f (cfg ?n2) + 1
        \<and> \<not> commitQcStage (certOf n ?idx)
     then go_bind (createCommitQc E ?idx (cm_Vote cm) ?n2) (\<lambda>(n, q).
          go_bind (broadcast E (CommitQcM q) [] (modCert ?idx (\<lambda>c. c\<lparr>commitQcStage := True\<rparr>) n))
            (\<lambda>r. Ret (fst r)))
     else Ret ?n2)"
    by (auto intro: ev.from_node [OF ev])
qed

lemma evolves_handleCommitMsg: "go_evolves E n (handleCommitMsg E cm err n)"
proof -
  let ?idx = "mkId (pqc_SN (cm_Vote cm)) (pqc_View (cm_Vote cm))"
  obtain ok n1 where c: "checkIfPrePrepared ?idx n = (ok, n1)" by fastforce
  have "go_evolves E n1 (case getCert ?idx n1 of (cert, n) \<Rightarrow>
      if gm_get (commitStore cert) (cm_ReplicaId cm) \<noteq> None then Ret n
      else handleCommitVote E cm
        (modCert ?idx (\<lambda>c. c\<lparr>commitStore := gm_put (cm_ReplicaId cm) cm (commitStore c)\<rparr>) n))"
    by (rule ev_after_getCert) (auto intro: ev.from_node [OF evolves_stores(4) evolves_handleCommitVote])
  from ev.from_node [OF evolves_same [OF checkIfPrePrepared_eqD [OF c]] this] show ?thesis
    by (simp add: handleCommitMsg_def c Let_def)
qed

lemma evolves_handleCommitQc:
  assumes "CommitQcM q \<in> set (rcvd n)"
  shows "go_evolves E n (handleCommitQc E q err n)"
proof -
  let ?idx = "mkId (cqc_SN q) (cqc_View q)"
  let ?put = "\<lambda>n. modCert ?idx (\<lambda>c. c\<lparr>commitQc := Some q\<rparr>) n"
  let ?check = "\<lambda>cert n. case prepareQc cert of None \<Rightarrow> Ret n
      | Some voteMsg \<Rightarrow>
          if \<not> verifyThresholdSig E (j_PrepareQc voteMsg) (tsPubKey (cfg n)) (cqc_ThresholdSig q)
          then Ret n else checkIfCommitted E ?idx err n"
  have store: "go_evolves E n (case getCert ?idx n of (cert, n) \<Rightarrow>
      if commitQc cert \<noteq> None then Ret n else ?check cert (?put n))"
  proof (rule ev_after_getCert)
    fix n1 assume c: "certOf n1 = certOf n" and s: "same_core n n1"
    have "go_evolves E n1 (?check (certOf n ?idx) (?put n1))" if "commitQc (certOf n ?idx) = None"
    proof (rule ev.from_node [OF evolves_modCert])
      show "core_step E (cfg n1) (abs_node n1) (upd_cert ?idx (\<lambda>c. c\<lparr>commitQc := Some q\<rparr>) (abs_node n1))"
        by (rule core_step.store_commitQc) (use that c assms s in \<open>simp_all add: same_coreD\<close>)
      show "go_evolves E (?put n1) (?check (certOf n ?idx) (?put n1))"
        by (simp add: evolves_checkIfCommitted split: option.split)
    qed
    then show "go_evolves E n1 (if commitQc (certOf n ?idx) \<noteq> None then Ret n1 else ?check (certOf n ?idx) (?put n1))"
      by simp
  qed
  show ?thesis
    unfolding handleCommitQc_def Let_def
    using store by (auto simp: ev.leaving_view intro!: read_primary)
qed

end
