(* ===== verification/BatchLoop.thy ===== *)
theory BatchLoop
  imports Normal
begin

text \<open>
  Collecting client requests into batches: \<open>ReceiveNewRequest\<close>, \<open>sendBatch\<close> and the loop of
  \<open>HandleReqBatchLoop\<close> in core/node.go, whose turns are the definitions \<open>batch_turn\<close> (with
  the test loop's variant \<open>batch_turn_test\<close>).
\<close>

text \<open>
  \<open>append([]byte("cmd"), Cmd...)\<close> is never nil. The reply names this node and the leader.
\<close>

definition reply_text :: "string \<Rightarrow> string \<Rightarrow> string" where
  "reply_text nodeName leader =
     ''response from '' @ nodeName @ '' and current leaderIp is '' @ leader"

definition ReceiveNewRequest :: "gobytes \<Rightarrow> Node \<Rightarrow> Node \<times> string" where
  "ReceiveNewRequest cmd n =
     (let req = \<lparr>Cmd = Some (''cmd'' @ bytes_of cmd)\<rparr>
      in (n\<lparr>batchStore := slice_append (batchStore n) (Some req)\<rparr>,
          reply_text (rh_NodeName (cfg n)) (rh_Leader n)))"

primrec ReceiveNewRequestForTest :: "nat \<Rightarrow> Node \<Rightarrow> Node" where
  "ReceiveNewRequestForTest 0 n = n"
| "ReceiveNewRequestForTest (Suc k) n = ReceiveNewRequestForTest k (fst (ReceiveNewRequest (Some []) n))"

text \<open>
  \<open>sendBatch\<close> cuts the first \<open>BatchSize\<close> requests (or all, if there are fewer) off the pool.
  Slicing with a negative bound panics; slicing nil gives nil. The batch is proposed in a
  goroutine, with a nil error channel, if this node leads an active view; otherwise it is
  dropped.
\<close>

definition go_slice_to :: "'a list option \<Rightarrow> nat \<Rightarrow> 'a list option" where
  "go_slice_to s k = map_option (take k) s"

definition go_slice_from :: "'a list option \<Rightarrow> nat \<Rightarrow> 'a list option" where
  "go_slice_from s k = map_option (drop k) s"

definition batch_len :: "Node \<Rightarrow> int" where
  "batch_len n = int (length (slice_of (batchStore n)))"

definition sendBatch :: stmt where
  "sendBatch n =
     (let endNum = (if batch_len n < rh_BatchSize (cfg n) then batch_len n else rh_BatchSize (cfg n))
      in if endNum < 0 then Panic SliceOutOfRange
         else (let batch = \<lparr>Batch = go_slice_to (batchStore n) (nat endNum)\<rparr>;
                   n = n\<lparr>batchStore := go_slice_from (batchStore n) (nat endNum)\<rparr>
               in if activeView n
                  then go_bind (primary n (currenView n)) (\<lambda>leader.
                    Ret (if leader = replicaId (cfg n)
                         then spawn [BroadcastPrePrepareTask batch NilCh] n else n))
                  else Ret n))"

text \<open>
  One turn of the loop. \<open>expired\<close> says that the batch timer's channel is ready in the
  \<open>select\<close>.
\<close>

definition batch_head :: "Node \<Rightarrow> (Node, Node) go" where
  "batch_head n =
     go_bind (primary n (currenView n)) (\<lambda>leader.
     let n = n\<lparr>rh_Leader := gm_get0 [] (clusterAddr (cfg n)) leader\<rparr>
     in if batch_len n \<ge> rh_BatchSize (cfg n) then sendBatch n else Ret n)"

definition batch_turn :: "bool \<Rightarrow> stmt" where
  "batch_turn expired n =
     go_bind (batch_head n) (\<lambda>n.
     if \<not> expired then Ret n
     else if batch_len n = 0
     then (if activeView n
           then go_bind (primary n (currenView n)) (\<lambda>leader.
                  Ret (if leader = replicaId (cfg n)
                       then ReceiveNewRequestForTest (nat (rh_BatchSize (cfg n))) n else n))
           else Ret n)
     else sendBatch n)"

definition batch_turn_test :: "bool \<Rightarrow> stmt" where
  "batch_turn_test expired n =
     go_bind (batch_head n) (\<lambda>n.
     if \<not> expired then Ret n else if batch_len n = 0 then Ret n else sendBatch n)"

end
