(* ===== verification/Dispatch.thy ===== *)
theory Dispatch
  imports NewView BatchLoop
begin

text \<open>
  The main loop of core/node.go (\<open>StartPBFT\<close>) and everything that runs beside it, as a
  transition system over the state of one node process: the loop handles one message per
  turn, goroutines of the pool run at any time and in any order, the batch loop takes its
  turns, clients call, and the view-change timer fires. Steps are atomic: Go's data races
  inside a handler are not modelled.
\<close>

section \<open>One turn of the main loop\<close>

text \<open>
  A message whose signature does not verify makes the loop panic; one that verifies is noted in
  the node's list of received messages, which nothing in the code reads.
\<close>

definition verified :: "env \<Rightarrow> MsgWithSig \<Rightarrow> u32 \<Rightarrow> stmt \<Rightarrow> stmt" where
  "verified E rpc sender handler n =
     go_bind (verifyRsaSignature E (Command rpc) sender (Sig rpc) n)
       (\<lambda>ok. if \<not> ok then Panic ExplicitPanic else handler (receive (Command rpc) n))"

definition dispatch :: "env \<Rightarrow> errch \<Rightarrow> MsgWithSig \<Rightarrow> stmt" where
  "dispatch E ch rpc n =
     (case Command rpc of
        PrePrepareM m \<Rightarrow> verified E rpc (ppm_ReplicaId m) (handlePrePrepareMsg E m ch) n
      | PrepareM m \<Rightarrow> verified E rpc (pm_ReplicaId m) (handlePrepareMsg E m ch) n
      | CommitM m \<Rightarrow> verified E rpc (cm_ReplicaId m) (handleCommitMsg E m ch) n
      | PrepareQcM m \<Rightarrow> verified E rpc (pqc_ReplicaId m) (handlePrepareQc E m ch) n
      | FastPrepareQcM m \<Rightarrow> verified E rpc (fpqc_ReplicaId m) (handleFastPrepareQc E m ch) n
      | CommitQcM m \<Rightarrow> verified E rpc (cqc_ReplicaId m) (handleCommitQc E m ch) n
      | CheckpointM m \<Rightarrow> verified E rpc (ck_ReplicaId m) (\<lambda>n. Ret (recvCheckpoint m ch n)) n
      | ViewChangeM m \<Rightarrow> verified E rpc (vc_ReplicaId m) (recvViewChange E m ch) n
      | ViewChangeQuorumM \<Rightarrow>
          go_bind (primary n (currenView n)) (\<lambda>leader.
            if replicaId (cfg n) = leader then sendNewView E ch n else Ret n)
      | NewViewM m \<Rightarrow> verified E rpc (nv_ReplicaId m) (recvNewView E m ch) n
      | ViewChangeTimerM \<Rightarrow> sendViewChange E ch n)"

section \<open>Running a goroutine\<close>

fun run_task :: "env \<Rightarrow> task \<Rightarrow> stmt" where
  "run_task E (SendTask i addr msg sig) n = send_task E i addr msg sig n"
| "run_task E (CheckpointTask sn digest err) n = checkpoint E sn digest err n"
| "run_task E (CheckIfPreparedTask idx err) n = checkIfPrepared E idx err n"
| "run_task E (PrepareTimerTask idx batchString) n = prepareTimer_task E idx batchString n"
| "run_task E (BroadcastPrePrepareTask batch err) n = broadcastPrePrepareMsg E batch err n"

section \<open>The process\<close>

text \<open>
  \<open>Running\<close>: the main loop takes messages. \<open>Stuck\<close>: a handler is blocked for ever on a
  channel, while the other goroutines go on. \<open>Crashed\<close>: a panic has ended the process.
\<close>

datatype proc = Running Node | Stuck Node | Crashed go_panic

definition main_outcome :: "(Node, Node) go \<Rightarrow> proc" where
  "main_outcome r = (case r of Ret n \<Rightarrow> Running n | Panic p \<Rightarrow> Crashed p | Block n \<Rightarrow> Stuck n)"

text \<open>A goroutine that blocks stays blocked; what it has done remains.\<close>

definition side_outcome :: "(Node \<Rightarrow> proc) \<Rightarrow> (Node, Node) go \<Rightarrow> proc" where
  "side_outcome c r = (case r of Ret n \<Rightarrow> c n | Panic p \<Rightarrow> Crashed p | Block n \<Rightarrow> c n)"

definition drop_task :: "nat \<Rightarrow> Node \<Rightarrow> Node" where
  "drop_task i n = n\<lparr>gos := take i (gos n) @ drop (Suc i) (gos n)\<rparr>"

datatype event =
    Deliver MsgWithSig
  | RunTask nat
  | BatchTurn bool
  | ClientCall gobytes
  | TimerFires bool

text \<open>
  The timer's event reaches the main loop only if the loop is waiting for a message;
  otherwise it is dropped.
\<close>

definition fire_timer :: "timerImpl \<Rightarrow> Node \<Rightarrow> Node" where
  "fire_timer t n = n\<lparr>newViewTimer := Some (fst (timer_loop t (FireIn True)))\<rparr>"

inductive node_step :: "env \<Rightarrow> proc \<Rightarrow> event \<Rightarrow> proc \<Rightarrow> bool" for E where
  deliver: "node_step E (Running n) (Deliver m) (main_outcome (dispatch E ErrCh m n))"
| task: "i < length (gos n) \<Longrightarrow> c = Running \<or> c = Stuck \<Longrightarrow>
    node_step E (c n) (RunTask i) (side_outcome c (run_task E (gos n ! i) (drop_task i n)))"
| batch: "c = Running \<or> c = Stuck \<Longrightarrow>
    node_step E (c n) (BatchTurn b) (side_outcome c (batch_turn b n))"
| client: "c = Running \<or> c = Stuck \<Longrightarrow>
    node_step E (c n) (ClientCall cmd) (c (fst (ReceiveNewRequest cmd n)))"
| fires: "newViewTimer n = Some t \<Longrightarrow> timer_enabled t (FireIn True) \<Longrightarrow>
    node_step E (Running n) (TimerFires True)
      (main_outcome (dispatch E ErrCh \<lparr>Command = ViewChangeTimerM, Sig = None\<rparr> (fire_timer t n)))"
| fires_dropped: "newViewTimer n = Some t \<Longrightarrow> timer_enabled t (FireIn False) \<Longrightarrow>
    c = Running \<or> c = Stuck \<Longrightarrow>
    node_step E (c n) (TimerFires False) (c (fire_timer t n))"

inductive reachable :: "env \<Rightarrow> Node \<Rightarrow> proc \<Rightarrow> bool" for E n0 where
  start: "reachable E n0 (Running n0)"
| step: "reachable E n0 p \<Longrightarrow> node_step E p e q \<Longrightarrow> reachable E n0 q"

text \<open>The node of a process, if it has not crashed.\<close>

fun proc_ok :: "(Node \<Rightarrow> bool) \<Rightarrow> proc \<Rightarrow> bool" where
  "proc_ok I (Running n) = I n"
| "proc_ok I (Stuck n) = I n"
| "proc_ok I (Crashed p) = True"

inductive_cases crashed_stepE: "node_step E (Crashed p) e q"

inductive_simps deliver_step_iff: "node_step E (Running n) (Deliver m) q"

end
