(* ===== verification/Replica.thy ===== *)
theory Replica
  imports Refine Dispatch
begin

text \<open>
  The refinement of theory \<open>Refine\<close> for the rest of a replica: proposing, timers,
  checkpoints, view changes, the batch loop, the goroutines and the main loop. The result
  is that the node of every reachable process is a reachable state of the abstract machine,
  so the invariants of theory \<open>Core\<close> hold for the program.
\<close>

section \<open>Proposing, timers and checkpoints\<close>

lemma createPrePrepareMsg_result:
  assumes "createPrePrepareMsg E batch n = (n1, ppm)"
  shows "same_core n n1" and "ppm_BatchHash ppm = dataHashByte (env_crypto E) (j_RequestBatch (ppm_ReqBatch ppm))"
    and "ppm_ReplicaId ppm = replicaId (cfg n)"
  using assms by (auto simp: createPrePrepareMsg_def Let_def same_core_def)

lemma evolves_broadcastPrePrepareMsg: "go_evolves E n (broadcastPrePrepareMsg E batch err n)"
proof -
  obtain n1 ppm where c: "createPrePrepareMsg E batch n = (n1, ppm)" by fastforce
  let ?n2 = "start_prepareTimer (mkId (ppm_SN ppm) (ppm_View ppm)) (hex_encode (bytes_of (ppm_BatchHash ppm))) n1"
  note c' = createPrePrepareMsg_result [OF c]
  have "same_core n ?n2" using c'(1) by (simp add: same_core_def)
  moreover have "ppm_ReplicaId ppm = replicaId (cfg ?n2)" using c'(1,3) by (simp add: same_core_def)
  ultimately have "evolves E n (add_trace (Proposed ppm) ?n2)"
    by (rule evolves_trans [OF evolves_same evolves_propose [OF c'(2)]])
  from ev.from_node [OF this ev.broadcast_report] show ?thesis
    by (auto simp: broadcastPrePrepareMsg_def c Let_def)
qed

lemma evolves_prepareTimer_task: "go_evolves E n (prepareTimer_task E idx s n)"
proof -
  let ?n = "n\<lparr>prepareTimer := gm_put idx \<lparr>ft_stop = True, ft_timeControl = None\<rparr> (prepareTimer n)\<rparr>"
  have "same_core n ?n" by (simp add: same_core_def)
  from ev.from_node [OF evolves_same [OF this] evolves_checkIfPrepareQc]
  show ?thesis by (auto simp: prepareTimer_task_def split: option.split)
qed

lemma evolves_checkpoint: "go_evolves E n (checkpoint E sn d err n)"
proof -
  let ?n = "n\<lparr>chkpts := gm_put sn (bytes_of d) (chkpts n)\<rparr>"
  have "same_core n ?n" by (simp add: same_core_def)
  from ev.from_node [OF evolves_same [OF this] ev.broadcast_report]
  show ?thesis by (auto simp: checkpoint_def Let_def)
qed

lemma same_recvCheckpoint [simp]: "same_core n (recvCheckpoint ck err n)"
  by (simp add: same_core_def recvCheckpoint_def moveWatermarks_def Let_def)

section \<open>View changes\<close>

lemma evolves_replay_one: "go_evolves E n (replay_one E nv sn n)"
proof -
  have s: "evolves E n (add_trace (Replayed p) (step_clock (if b then start_prepareTimer i d n else n)))" for b i d p
    by (rule evolves_trans [OF evolves_same evolves_replayed]) (simp add: same_core_def)
  have r: "has_origin (add_trace (Replayed p) m) p" for p m
    by (simp add: has_origin_def add_trace_def)
  show ?thesis
    unfolding replay_one_def Let_def
    by (auto simp del: go_bind.simps intro!: read_primary
        ev.from_node [OF s evolves_handlePrePrepareMsg [OF r]])
qed

lemma evolves_replay: "go_evolves E n (replay E nv sns n)"
proof (induction sns arbitrary: n)
  case (Cons sn sns)
  then show ?case by (auto simp del: go_bind.simps intro: ev.bind [OF evolves_replay_one])
qed simp

lemma evolves_processNewView: "go_evolves E n (processNewView E err n)"
proof -
  have s: "same_core x (step_clock (updateViewChangeSeqNo (x\<lparr>activeView := True,
      nextSN := low_h x + n_K (cfg x) + 1\<rparr>)))" for x :: Node
    by (simp add: same_core_def)
  have "go_evolves E n (go_bind (stopTimer n) (\<lambda>n.
      let n = n\<lparr>activeView := True\<rparr>; n = n\<lparr>nextSN := low_h n + n_K (cfg n) + 1\<rparr>;
          n = updateViewChangeSeqNo n;
          keySort = GetMapkey (env_order E (clock n)) (nv_Oset nv)
      in replay E nv keySort (step_clock n)))" for nv
    by (rule ev.bind [OF ev.stopping])
      (auto simp: Let_def intro!: ev.from_node [OF evolves_same [OF s] evolves_replay])
  then show ?thesis
    by (simp add: processNewView_def split: option.split)
qed

lemma same_newViewStores:
  "same_core n (n\<lparr>newViewStore := a, newViewStage := b\<rparr>)" "same_core n (n\<lparr>newViewStore := a\<rparr>)"
  "same_core n (n\<lparr>viewChangeStore := c\<rparr>)" "same_core n (n\<lparr>currenView := v\<rparr>)" "same_core n (step_clock n)"
  by (simp_all add: same_core_def)

lemma evolves_announceNewView:
  "go_evolves E n (go_bind (broadcast E (NewViewM nv) exc n) (\<lambda>r. go_bind (report err r) (\<lambda>n.
     processNewView E err (n\<lparr>newViewStore := gm_put (currenView n) nv (newViewStore n),
       newViewStage := gm_put (currenView n) True (newViewStage n)\<rparr>))))"
  by (rule ev.bind [OF ev.broadcasting], rule ev.bind [OF ev.reporting],
      rule ev.from_node [OF evolves_same [OF same_newViewStores(1)] evolves_processNewView])

lemma go_rel_assign:
  assumes "\<And>x. go_rel (evolves E) n nd (k x)"
  shows "go_rel (evolves E) n nd (go_bind (assignSequenceNumbers n vset sn) k)"
  using assms
  by (auto simp: assignSequenceNumbers_def Let_def split: option.split sum.split prod.split)

lemma evolves_sendNewView: "go_evolves E n (sendNewView E err n)"
proof -
  have s: "evolves E n (step_clock n)" by (rule ev.clock)
  have a: "go_evolves E (step_clock n) (go_bind (assignSequenceNumbers (step_clock n) vset sn) (\<lambda>(msgList, ok).
      if \<not> ok then Ret (step_clock n)
      else (let nv = \<lparr>nv_View = currenView (step_clock n), nv_Vset = vs, nv_Oset = msgList,
                      nv_ReplicaId = replicaId (cfg (step_clock n))\<rparr>;
                excAddrs = gm_put (replicaId (cfg (step_clock n))) True []
            in if gm_get0 False (newViewStage (step_clock n)) (currenView (step_clock n)) then Ret (step_clock n)
               else go_bind (broadcast E (NewViewM nv) excAddrs (step_clock n)) (\<lambda>r.
                    go_bind (report err r) (\<lambda>n.
                    processNewView E err
                      (n\<lparr>newViewStore := gm_put (currenView n) nv (newViewStore n),
                         newViewStage := gm_put (currenView n) True (newViewStage n)\<rparr>))))))"
    for vset sn vs
    by (rule go_rel_assign) (simp add: Let_def evolves_announceNewView split: prod.split)
  show ?thesis
    unfolding sendNewView_def Let_def
    using ev.from_node [OF s a [unfolded Let_def]] s
    by (auto simp: case_prod_unfold simp del: go_bind.simps)
qed

lemma evolves_recvNewView: "go_evolves E n (recvNewView E nv err n)"
  unfolding recvNewView_def
  by (auto simp del: go_bind.simps intro!: read_primary
      ev.from_node [OF evolves_same [OF same_newViewStores(2)] evolves_processNewView])

section \<open>Receiving view changes\<close>

lemma go_reads_pset_check [simp]: "go_reads (pset_check vc k ps)"
  by (induction vc k ps rule: pset_check.induct) (simp_all add: go_reads_def)

lemma go_reads_qset_check [simp]: "go_reads (qset_check E pub qs)"
  by (induction E pub qs rule: qset_check.induct) (simp_all add: go_reads_def)

lemma go_reads_correctViewChange [simp]: "go_reads (correctViewChange E vc n)"
  unfolding correctViewChange_def by (auto intro!: go_reads_bind)

lemma evolves_join:
  "go_evolves E n (if b then sendViewChange E err (n\<lparr>currenView := v\<rparr>) else Ret n)"
  using ev.from_node [OF evolves_same [OF same_newViewStores(4)] ev.leaving_view] by simp

lemma evolves_primary_sendNewView:
  "go_evolves E n (if b n then go_bind (primary n v) (\<lambda>leader.
     if leader = replicaId (cfg n) then sendNewView E err n else Ret n) else Ret n)"
  by (auto simp del: go_bind.simps intro!: read_primary evolves_sendNewView)

lemma evolves_recvViewChange: "go_evolves E n (recvViewChange E vc err n)"
proof (cases "vc_View vc < currenView n")
  case True
  then show ?thesis by (simp add: recvViewChange_def)
next
  case False
  let ?n = "step_clock (step_clock n)"
  have n: "evolves E n ?n" by (rule evolves_trans [OF ev.clock ev.clock])
  let ?idx = "\<lparr>vci_View = vc_View vc, vci_ReplicaId = vc_ReplicaId vc\<rparr>"
  let ?m = "?n\<lparr>viewChangeStore := gm_put ?idx vc (viewChangeStore ?n)\<rparr>"
  have m: "evolves E n ?m"
    by (rule evolves_trans [OF n evolves_same [OF same_newViewStores(3)]])
  obtain replicas minView where l: "later_views (currenView ?m) (viewChangeStore ?m) = (replicas, minView)"
    by fastforce
  have "go_evolves E ?m (go_bind (if int (length replicas) \<ge> n_f (cfg ?m) + 1
          then sendViewChange E err (?m\<lparr>currenView := minView - 1\<rparr>) else Ret ?m) (\<lambda>n.
        if \<not> activeView n \<and> vc_View vc = currenView n \<and>
           quorum_for (currenView n) (viewChangeStore n) \<ge> viewChangeQuorum (cfg n)
        then go_bind (primary n (vc_View vc)) (\<lambda>leader.
          if leader = replicaId (cfg n) then sendNewView E err n else Ret n)
        else Ret n))"
    by (rule ev.bind [OF evolves_join]) (rule evolves_primary_sendNewView)
  from ev.from_node [OF m this] False l n show ?thesis
    unfolding recvViewChange_def by (auto simp: Let_def simp del: go_bind.simps intro!: go_rel_read)
qed

section \<open>The batch loop\<close>

lemma same_ReceiveNewRequest [simp]: "same_core n (fst (ReceiveNewRequest cmd n))"
  by (simp add: same_core_def ReceiveNewRequest_def)

lemma same_ReceiveNewRequestForTest [simp]: "same_core n (ReceiveNewRequestForTest k n)"
  by (induction k arbitrary: n) (auto intro: same.R_trans [OF same_ReceiveNewRequest] simp: same.R_refl)

lemma same_batchStore: "same_core n (n\<lparr>batchStore := b\<rparr>)" "same_core n (n\<lparr>rh_Leader := l\<rparr>)"
  "same_core n (n\<lparr>gos := g\<rparr>)"
  by (simp_all add: same_core_def)

lemma same_read_primary:
  "(\<And>x. go_rel same_core n nd (k x)) \<Longrightarrow> go_rel same_core n nd (go_bind (primary n' v) k)"
  by (rule go_rel_read) simp_all

lemma same_sendBatch: "go_rel same_core n (\<lambda>x. x) (sendBatch n)"
proof -
  have propose: "go_rel same_core n (\<lambda>x. x)
      (go_bind (primary m v) (\<lambda>leader. Ret (if leader = r then spawn ts m else m)))"
    if "same_core n m" for m v ts r
  proof -
    have "same_core n (spawn ts m)" using that by (rule same.R_trans [OF _ same.spawning])
    with that show ?thesis by (intro same_read_primary) auto
  qed
  show ?thesis
    unfolding sendBatch_def Let_def
    by (auto simp del: go_bind.simps simp: same_batchStore intro!: propose)
qed

lemma same_batch_head: "go_rel same_core n (\<lambda>x. x) (batch_head n)"
  unfolding batch_head_def Let_def
  by (rule same_read_primary) (auto simp: same_batchStore
      intro: same.from_node [OF same_batchStore(2) same_sendBatch])

lemma same_batch_turn: "go_rel same_core n (\<lambda>x. x) (batch_turn b n)"
  unfolding batch_turn_def
  by (rule same.bind [OF same_batch_head])
    (auto simp del: go_bind.simps simp: same_sendBatch same.R_refl intro!: same_read_primary)

lemma same_batch_turn_test: "go_rel same_core n (\<lambda>x. x) (batch_turn_test b n)"
  unfolding batch_turn_test_def
  by (rule same.bind [OF same_batch_head]) (auto simp: same_sendBatch same.R_refl)

section \<open>The main loop and the goroutines\<close>

lemma verify_signed_by:
  "verifyRsaSignature E m i sg n = Ret True \<Longrightarrow> signed_by E (cfg n) i m sg"
  by (auto simp: verifyRsaSignature_def signed_by_def VerifySignEd_def Let_def
      split: option.splits if_splits)

lemma evolves_receive:
  assumes "sender_of m = Some i" and "signed_by E (cfg n) i m sg"
  shows "evolves E n (receive m n)"
proof (rule evolves_step)
  from assms have "vouched E (cfg n) m" by (auto simp: vouched_def)
  then show "core_step E (cfg n) (abs_node n) (abs_node (receive m n))"
    using core_step.receive [of E "cfg n" m "abs_node n"] by simp
qed simp

lemma evolves_verified:
  assumes "sender_of (Command rpc) = Some i" and "go_evolves E (receive (Command rpc) n) (h (receive (Command rpc) n))"
  shows "go_evolves E n (verified E rpc i h n)"
  unfolding verified_def
proof (rule go_rel_read)
  fix ok assume "verifyRsaSignature E (Command rpc) i (Sig rpc) n = (Ret ok :: (Node, bool) go)"
  then show "go_evolves E n (if \<not> ok then Panic ExplicitPanic else h (receive (Command rpc) n))"
    using ev.from_node [OF evolves_receive [OF assms(1) verify_signed_by] assms(2)] by (cases ok) auto
qed simp

lemma evolves_dispatch: "go_evolves E n (dispatch E ch rpc n)"
proof -
  have "go_evolves E n (go_bind (primary n v) (\<lambda>leader.
      if replicaId (cfg n) = leader then sendNewView E ch n else Ret n))" for v
    by (rule read_primary) (simp add: evolves_sendNewView)
  then show ?thesis
    by (auto simp: dispatch_def evolves_same ev.leaving_view has_origin_def receive_def split: message.split
      intro!: evolves_verified evolves_handlePrePrepareMsg evolves_handlePrepareMsg evolves_handleCommitMsg evolves_handlePrepareQc evolves_handleFastPrepareQc
        evolves_handleCommitQc evolves_recvViewChange evolves_recvNewView)
qed

lemma evolves_run_task: "go_evolves E n (run_task E t n)"
  by (cases t) (simp_all add: ev.sending_task evolves_checkpoint evolves_checkIfPrepared
    evolves_prepareTimer_task evolves_broadcastPrePrepareMsg)

section \<open>Reachable nodes\<close>

definition refines_core :: "env \<Rightarrow> NodeConf \<Rightarrow> Node \<Rightarrow> bool" where
  "refines_core E cf n \<longleftrightarrow> cfg n = cf \<and> core_reach E cf (abs_node n)"

lemma refines_evolves: "evolves E n n' \<Longrightarrow> refines_core E cf n \<Longrightarrow> refines_core E cf n'"
  by (auto simp: refines_core_def evolves_def intro: core_reach_steps)

lemma refines_NewNode: "refines_core E (cfg (NewNode conf)) (NewNode conf)"
proof -
  have "abs_node (NewNode conf) = core_init"
    by (simp add: abs_node_def NewNode_def core_init_def certOf_def fun_eq_iff)
  then show ?thesis by (simp add: refines_core_def core_reach.init)
qed

lemma refines_StartListen: "refines_core E cf n \<Longrightarrow> refines_core E cf (fst (StartListen b n))"
  by (simp add: StartListen_def refines_core_def)

lemma refines_same: "same_core n n' \<Longrightarrow> refines_core E cf n \<Longrightarrow> refines_core E cf n'"
  by (rule refines_evolves [OF evolves_same])

lemma same_drop_task: "same_core n (drop_task i n)" and same_fire_timer: "same_core n (fire_timer t n)"
  by (simp_all add: same_core_def drop_task_def fire_timer_def)

text \<open>The node of a process that has not crashed.\<close>

fun proc_node :: "proc \<Rightarrow> Node option" where
  "proc_node (Running n) = Some n"
| "proc_node (Stuck n) = Some n"
| "proc_node (Crashed p) = None"

lemma proc_ok_node: "proc_ok I p \<longleftrightarrow> (\<forall>n. proc_node p = Some n \<longrightarrow> I n)"
  by (cases p) auto

lemma proc_node_outcome:
  assumes "go_evolves E n m"
  shows "proc_node (main_outcome m) = Some n' \<Longrightarrow> evolves E n n'"
    and "c = Running \<or> c = Stuck \<Longrightarrow> proc_node (side_outcome c m) = Some n' \<Longrightarrow> evolves E n n'"
  using assms by (auto simp: main_outcome_def side_outcome_def go_rel_def split: go.splits)

lemma node_step_evolves:
  assumes "node_step E p e q" and "proc_node p = Some n" and "proc_node q = Some n'"
  shows "evolves E n n'"
  using assms(1)
proof (cases rule: node_step.cases)
  case (deliver x m)
  with assms show ?thesis by (auto intro: proc_node_outcome(1) [OF evolves_dispatch])
next
  case (task i x c)
  with assms(2) have "x = n" by auto
  with task assms(3) have "evolves E (drop_task i n) n'"
    by (auto intro: proc_node_outcome(2) [OF evolves_run_task])
  then show ?thesis by (rule evolves_trans [OF evolves_same [OF same_drop_task]])
next
  case (batch c x b)
  with assms show ?thesis by (auto intro: proc_node_outcome(2) [OF ev_same [OF same_batch_turn]])
next
  case (client c x cmd)
  with assms show ?thesis by (auto intro: evolves_same [OF same_ReceiveNewRequest])
next
  case (fires x t)
  with assms(2,3) have "evolves E (fire_timer t n) n'"
    by (auto intro: proc_node_outcome(1) [OF evolves_dispatch])
  then show ?thesis by (rule evolves_trans [OF evolves_same [OF same_fire_timer]])
next
  case (fires_dropped x t c)
  with assms show ?thesis by (auto intro: evolves_same [OF same_fire_timer])
qed

lemma node_step_refines:
  assumes "node_step E p e q" and "proc_ok (refines_core E cf) p"
  shows "proc_ok (refines_core E cf) q"
  unfolding proc_ok_node
proof (intro allI impI)
  fix n' assume q: "proc_node q = Some n'"
  from assms(1) obtain n where "proc_node p = Some n"
    by (cases rule: node_step.cases) auto
  with assms q show "refines_core E cf n'"
    by (auto simp: proc_ok_node intro: refines_evolves node_step_evolves)
qed

lemma reachable_refines:
  assumes "reachable E n0 p" and "refines_core E cf n0"
  shows "proc_ok (refines_core E cf) p"
  using assms by (induction rule: reachable.induct) (auto intro: node_step_refines)

end
