(* ===== verification/Eval.thy ===== *)
theory Eval
  imports Json
begin

text \<open>
  Faster equations for the encoders when a concrete run is evaluated: characters are taken
  apart into their bits, and digits chosen by those bits. They are consequences of the
  definitions in theories \<open>Encoding\<close> and \<open>Json\<close> and change no meaning.
\<close>

definition nib :: "bool \<Rightarrow> bool \<Rightarrow> bool \<Rightarrow> bool \<Rightarrow> nat" where
  "nib a b c d = of_bool a + 2 * of_bool b + 4 * of_bool c + 8 * of_bool d"

definition duo :: "bool \<Rightarrow> bool \<Rightarrow> nat" where
  "duo a b = of_bool a + 2 * of_bool b"

definition sextet :: "bool \<Rightarrow> bool \<Rightarrow> bool \<Rightarrow> bool \<Rightarrow> bool \<Rightarrow> bool \<Rightarrow> nat" where
  "sextet a b c d e f = nib a b c d + 16 * of_bool e + 32 * of_bool f"

definition hexbits :: "bool \<Rightarrow> bool \<Rightarrow> bool \<Rightarrow> bool \<Rightarrow> char" where
  "hexbits a b c d =
     (if d
      then (if c
        then (if b then (if a then CHR ''f'' else CHR ''e'') else (if a then CHR ''d'' else CHR ''c''))
        else (if b then (if a then CHR ''b'' else CHR ''a'') else (if a then CHR ''9'' else CHR ''8'')))
      else (if c
        then (if b then (if a then CHR ''7'' else CHR ''6'') else (if a then CHR ''5'' else CHR ''4''))
        else (if b then (if a then CHR ''3'' else CHR ''2'') else (if a then CHR ''1'' else CHR ''0''))))"

definition b64bits :: "bool \<Rightarrow> bool \<Rightarrow> bool \<Rightarrow> bool \<Rightarrow> bool \<Rightarrow> bool \<Rightarrow> char" where
  "b64bits a b c d e f =
     (if f
      then (if e
        then (if d
          then (if c
            then (if b then (if a then CHR ''/'' else CHR ''+'') else (if a then CHR ''9'' else CHR ''8''))
            else (if b then (if a then CHR ''7'' else CHR ''6'') else (if a then CHR ''5'' else CHR ''4'')))
          else (if c
            then (if b then (if a then CHR ''3'' else CHR ''2'') else (if a then CHR ''1'' else CHR ''0''))
            else (if b then (if a then CHR ''z'' else CHR ''y'') else (if a then CHR ''x'' else CHR ''w''))))
        else (if d
          then (if c
            then (if b then (if a then CHR ''v'' else CHR ''u'') else (if a then CHR ''t'' else CHR ''s''))
            else (if b then (if a then CHR ''r'' else CHR ''q'') else (if a then CHR ''p'' else CHR ''o'')))
          else (if c
            then (if b then (if a then CHR ''n'' else CHR ''m'') else (if a then CHR ''l'' else CHR ''k''))
            else (if b then (if a then CHR ''j'' else CHR ''i'') else (if a then CHR ''h'' else CHR ''g'')))))
      else (if e
        then (if d
          then (if c
            then (if b then (if a then CHR ''f'' else CHR ''e'') else (if a then CHR ''d'' else CHR ''c''))
            else (if b then (if a then CHR ''b'' else CHR ''a'') else (if a then CHR ''Z'' else CHR ''Y'')))
          else (if c
            then (if b then (if a then CHR ''X'' else CHR ''W'') else (if a then CHR ''V'' else CHR ''U''))
            else (if b then (if a then CHR ''T'' else CHR ''S'') else (if a then CHR ''R'' else CHR ''Q''))))
        else (if d
          then (if c
            then (if b then (if a then CHR ''P'' else CHR ''O'') else (if a then CHR ''N'' else CHR ''M''))
            else (if b then (if a then CHR ''L'' else CHR ''K'') else (if a then CHR ''J'' else CHR ''I'')))
          else (if c
            then (if b then (if a then CHR ''H'' else CHR ''G'') else (if a then CHR ''F'' else CHR ''E''))
            else (if b then (if a then CHR ''D'' else CHR ''C'') else (if a then CHR ''B'' else CHR ''A''))))))"

lemma hexdigit_nib: "hexdigit (nib a b c d) = hexbits a b c d"
  by (cases a; cases b; cases c; cases d) (simp_all add: nib_def hexdigit_def hexbits_def chr_def char_of_def bit_0)

lemma b64char_sextet: "b64char (sextet a b c d e f) = b64bits a b c d e f"
  by (cases a; cases b; cases c; cases d; cases e; cases f)
    (simp_all add: nib_def sextet_def b64char_def b64bits_def chr_def char_of_def bit_0)

lemma byte_bits: "byte_of (Char b0 b1 b2 b3 b4 b5 b6 b7) = nib b0 b1 b2 b3 + 16 * nib b4 b5 b6 b7"
  by (simp add: byte_of_def nib_def)

lemma nib_less: "nib a b c d < 16"
  by (cases a; cases b; cases c; cases d; simp add: nib_def)

lemma hex_encode_code [code]:
  "hex_encode [] = []"
  "hex_encode (Char b0 b1 b2 b3 b4 b5 b6 b7 # cs) = hexbits b4 b5 b6 b7 # hexbits b0 b1 b2 b3 # hex_encode cs"
  using nib_less [of b0 b1 b2 b3] by (simp_all add: byte_bits flip: hexdigit_nib)

lemma byte_parts:
  "byte_of (Char b0 b1 b2 b3 b4 b5 b6 b7) div 4 = sextet b2 b3 b4 b5 b6 b7"
  "byte_of (Char b0 b1 b2 b3 b4 b5 b6 b7) mod 4 = duo b0 b1"
  "byte_of (Char b0 b1 b2 b3 b4 b5 b6 b7) div 16 = nib b4 b5 b6 b7"
  "byte_of (Char b0 b1 b2 b3 b4 b5 b6 b7) mod 16 = nib b0 b1 b2 b3"
  "byte_of (Char b0 b1 b2 b3 b4 b5 b6 b7) div 64 = duo b6 b7"
  "byte_of (Char b0 b1 b2 b3 b4 b5 b6 b7) mod 64 = sextet b0 b1 b2 b3 b4 b5"
  unfolding byte_bits
  by (cases b0; cases b1; cases b2; cases b3; cases b4; cases b5; cases b6; cases b7; simp add: nib_def sextet_def duo_def)+

lemma sextet_parts:
  "duo a b * 16 = sextet False False False False a b"
  "sextet False False False False a b + nib c d e f = sextet c d e f a b"
  "nib a b c d * 4 = sextet False False a b c d"
  "sextet False False a b c d + duo e f = sextet e f a b c d"
  by (simp_all add: nib_def sextet_def duo_def)

lemma b64_encode_code [code]:
  "b64_encode [] = []"
  "b64_encode [Char a0 a1 a2 a3 a4 a5 a6 a7] =
     [b64bits a2 a3 a4 a5 a6 a7, b64bits False False False False a0 a1, CHR ''='', CHR ''='']"
  "b64_encode [Char a0 a1 a2 a3 a4 a5 a6 a7, Char b0 b1 b2 b3 b4 b5 b6 b7] =
     [b64bits a2 a3 a4 a5 a6 a7, b64bits b4 b5 b6 b7 a0 a1, b64bits False False b0 b1 b2 b3, CHR ''='']"
  "b64_encode (Char a0 a1 a2 a3 a4 a5 a6 a7 # Char b0 b1 b2 b3 b4 b5 b6 b7 # Char c0 c1 c2 c3 c4 c5 c6 c7 # cs) =
     b64bits a2 a3 a4 a5 a6 a7 # b64bits b4 b5 b6 b7 a0 a1 # b64bits c6 c7 b0 b1 b2 b3 #
     b64bits c0 c1 c2 c3 c4 c5 # b64_encode cs"
  by (simp_all add: byte_parts sextet_parts flip: b64char_sextet)

lemma byte_less: "byte_of (Char b0 b1 b2 b3 b4 b5 b6 b7) < 128 \<longleftrightarrow> \<not> b7"
  "32 \<le> byte_of (Char b0 b1 b2 b3 b4 b5 b6 b7) \<longleftrightarrow> b5 \<or> b6 \<or> b7"
  using nib_less [of b0 b1 b2 b3] by (cases b4; cases b5; cases b6; cases b7; simp add: byte_bits nib_def)+

lemma html_safe_code [code]:
  "html_safe (Char b0 b1 b2 b3 b4 b5 b6 b7) \<longleftrightarrow> \<not> b7 \<and> (b5 \<or> b6) \<and>
     (let c = Char b0 b1 b2 b3 b4 b5 b6 b7
      in c \<noteq> CHR 0x22 \<and> c \<noteq> CHR 0x5C \<and> c \<noteq> CHR ''<'' \<and> c \<noteq> CHR ''>'' \<and> c \<noteq> CHR ''&'')"
proof -
  define c where "c = Char b0 b1 b2 b3 b4 b5 b6 b7"
  have eq: "byte_of c = byte_of d \<longleftrightarrow> c = d" for d by (metis byte_of_inj)
  have n: "byte_of (CHR 0x22) = 34" "byte_of (CHR 0x5C) = 92" "byte_of (CHR ''<'') = 60"
    "byte_of (CHR ''>'') = 62" "byte_of (CHR ''&'') = 38"
    by (simp_all add: byte_of_def)
  have "html_safe c \<longleftrightarrow> 32 \<le> byte_of c \<and> byte_of c < 128 \<and> c \<noteq> CHR 0x22 \<and> c \<noteq> CHR 0x5C \<and>
      c \<noteq> CHR ''<'' \<and> c \<noteq> CHR ''>'' \<and> c \<noteq> CHR ''&''"
    unfolding html_safe_def Let_def n [symmetric] by (simp only: insert_iff empty_iff eq) blast
  moreover have "32 \<le> byte_of c \<and> byte_of c < 128 \<longleftrightarrow> \<not> b7 \<and> (b5 \<or> b6)"
    unfolding c_def byte_less by blast
  ultimately show ?thesis unfolding c_def [symmetric] Let_def by blast
qed

text \<open>A safe character is copied.\<close>

lemma json_escape_code [code]:
  "json_escape [] = []"
  "json_escape (c # cs) =
     (if html_safe c then c # json_escape cs
      else if byte_of c < 128 then esc_ascii c @ json_escape cs
      else (let k = utf8_size (c # cs); rune = take k (c # cs) in
        if k = 0 then chr 92 # ''ufffd'' @ json_escape cs
        else (if map byte_of rune = [226, 128, 168] then chr 92 # ''u2028''
              else if map byte_of rune = [226, 128, 169] then chr 92 # ''u2029''
              else rune) @ json_escape (drop (k - 1) cs)))"
  by (simp_all add: html_safe_ascii esc_ascii_def Let_def)

end
