(* ===== verification/Runs.thy ===== *)
theory Runs
  imports Dispatch Eval
begin

text \<open>
  The transition system of theory \<open>Dispatch\<close> is deterministic once the event is chosen:
  \<open>proc_next\<close> computes the step, \<open>run_events\<close> a whole run, and \<open>node_step\<close> and
  \<open>reachable\<close> are exactly what they compute. A small cluster of one replica is run here
  from a client's request to its execution; the properties use it as a concrete instance.
\<close>

section \<open>Steps as a function\<close>

fun proc_next :: "env \<Rightarrow> proc \<Rightarrow> event \<Rightarrow> proc option" where
  "proc_next E (Crashed p) e = None"
| "proc_next E (Running n) (Deliver m) = Some (main_outcome (dispatch E ErrCh m n))"
| "proc_next E (Stuck n) (Deliver m) = None"
| "proc_next E (Running n) (RunTask i) =
     (if i < length (gos n)
      then Some (side_outcome Running (run_task E (gos n ! i) (drop_task i n))) else None)"
| "proc_next E (Stuck n) (RunTask i) =
     (if i < length (gos n)
      then Some (side_outcome Stuck (run_task E (gos n ! i) (drop_task i n))) else None)"
| "proc_next E (Running n) (BatchTurn b) = Some (side_outcome Running (batch_turn b n))"
| "proc_next E (Stuck n) (BatchTurn b) = Some (side_outcome Stuck (batch_turn b n))"
| "proc_next E (Running n) (ClientCall cmd) = Some (Running (fst (ReceiveNewRequest cmd n)))"
| "proc_next E (Stuck n) (ClientCall cmd) = Some (Stuck (fst (ReceiveNewRequest cmd n)))"
| "proc_next E (Running n) (TimerFires ready) =
     (case newViewTimer n of None \<Rightarrow> None
      | Some t \<Rightarrow>
          if \<not> timer_enabled t (FireIn ready) then None
          else if ready
          then Some (main_outcome (dispatch E ErrCh \<lparr>Command = ViewChangeTimerM, Sig = None\<rparr> (fire_timer t n)))
          else Some (Running (fire_timer t n)))"
| "proc_next E (Stuck n) (TimerFires ready) =
     (case newViewTimer n of None \<Rightarrow> None
      | Some t \<Rightarrow> if ready \<or> \<not> timer_enabled t (FireIn False) then None else Some (Stuck (fire_timer t n)))"

lemma node_step_iff: "node_step E p e q \<longleftrightarrow> proc_next E p e = Some q"
proof
  show "node_step E p e q \<Longrightarrow> proc_next E p e = Some q"
    by (cases rule: node_step.cases) auto
  show "proc_next E p e = Some q \<Longrightarrow> node_step E p e q"
    by (cases "(E, p, e)" rule: proc_next.cases)
      (auto split: if_splits option.splits simp del: timer_enabled.simps intro: node_step.intros)
qed

lemma node_step_deterministic: "node_step E p e q \<Longrightarrow> node_step E p e r \<Longrightarrow> q = r"
  by (simp add: node_step_iff)

fun run_events :: "env \<Rightarrow> proc \<Rightarrow> event list \<Rightarrow> proc option" where
  "run_events E p [] = Some p"
| "run_events E p (e # es) =
     (case proc_next E p e of None \<Rightarrow> None | Some q \<Rightarrow> run_events E q es)"

lemma run_events_append:
  "run_events E p (es @ fs) = (case run_events E p es of None \<Rightarrow> None | Some q \<Rightarrow> run_events E q fs)"
  by (induction es arbitrary: p) (auto split: option.split)

lemma reachable_iff_run: "reachable E n p \<longleftrightarrow> (\<exists>es. run_events E (Running n) es = Some p)"
proof
  show "reachable E n p \<Longrightarrow> \<exists>es. run_events E (Running n) es = Some p"
  proof (induction rule: reachable.induct)
    case start
    show ?case by (rule exI [of _ "[]"]) simp
  next
    case (step p e q)
    then obtain es where "run_events E (Running n) es = Some p" by blast
    with step(2) have "run_events E (Running n) (es @ [e]) = Some q"
      by (simp add: run_events_append node_step_iff)
    then show ?case ..
  qed
  have "reachable E n r \<Longrightarrow> run_events E r es = Some p \<Longrightarrow> reachable E n p" for r es
    by (induction es arbitrary: r)
      (auto split: option.splits dest: reachable.step [OF _ node_step_iff [THEN iffD2]])
  then show "\<exists>es. run_events E (Running n) es = Some p \<Longrightarrow> reachable E n p"
    by (blast intro: reachable.start)
qed

section \<open>Starting a node\<close>

text \<open>
  What \<open>main\<close> does with a configuration before the main loop runs, as far as the node's state
  is concerned: \<open>NewNode\<close>, then \<open>StartListen\<close>, whose error it turns into a panic.
\<close>

definition boot :: "Config \<Rightarrow> bool \<Rightarrow> proc" where
  "boot conf bound =
     (let (n, e) = StartListen bound (NewNode conf)
      in case e of None \<Rightarrow> Running n | Some x \<Rightarrow> Crashed ExplicitPanic)"

text \<open>The node a successful start leaves.\<close>

definition started :: "Config \<Rightarrow> Node" where
  "started conf = fst (StartListen True (NewNode conf))"

lemma boot_True: "boot conf True = Running (started conf)"
  by (simp add: boot_def started_def StartListen_def)

section \<open>Concrete runs\<close>

text \<open>
  A cluster of one replica that takes a client's request to its execution, once with the
  fast certificate and once with prepare and commit certificates. Hashing is the identity
  and the only threshold signature that verifies is \<open>q\<close>, on the vote and on the prepare
  certificate of the run.
\<close>

definition demo_batch :: RequestBatch where
  "demo_batch = \<lparr>Batch = Some [Some \<lparr>Cmd = Some ''cmdx''\<rparr>]\<rparr>"

definition demo_digest :: gobytes where
  "demo_digest = encode (j_RequestBatch demo_batch)"

definition demo_vote :: VoteForPrepare where
  "demo_vote = \<lparr>vote_SN = 1, vote_BatchHash = demo_digest, vote_View = 0\<rparr>"

definition demo_prepareQc :: PrepareQc where
  "demo_prepareQc = \<lparr>pqc_SN = 1, pqc_BatchHash = demo_digest, pqc_View = 0, pqc_ReplicaId = 0,
     pqc_ThresholdSig = Some ''q'', pqc_TimeStamp = 0\<rparr>"

definition demo_crypto :: crypto where
  "demo_crypto = \<lparr>sha256 = (\<lambda>s. s), ed_Sign = (\<lambda>k m. ''s''), ed_Verify = (\<lambda>p m s. s = Some ''s''),
     tbls_Sign = (\<lambda>k m. Some (Some ''p'')), tbls_Recover = (\<lambda>q m ps t n. Some (Some ''q'')),
     bls_Verify = (\<lambda>p m s. s = Some ''q'' \<and>
       (m = bytes_of (encode (j_VoteForPrepare demo_vote)) \<or> m = bytes_of (encode (j_PrepareQc demo_prepareQc)))),
     PubPoly_Commit = (\<lambda>q. q), PubPoly_Info = (\<lambda>q. (q, [])),
     NewPubPoly = (\<lambda>p ps. p), scalar_Marshal = (\<lambda>s. Some (Some ''k'')), scalar_Unmarshal = (\<lambda>b. Some 0),
     point_Marshal = (\<lambda>p. Some (Some ''k'')), point_Unmarshal = (\<lambda>b. Some 0)\<rparr>"

definition demo_env :: env where
  "demo_env = \<lparr>env_crypto = demo_crypto, env_now = (\<lambda>i. 0), env_rand = (\<lambda>i. 0),
     env_order = (\<lambda>i. 0), env_net = (\<lambda>i. NetOk)\<rparr>"

text \<open>The parameter is the number of votes a fast certificate needs.\<close>

definition demo_conf :: "int \<Rightarrow> Config" where
  "demo_conf fast = config_New ''h'' [(0, ''h'')] [(0, 1)] 0 (Some (replicate 64 CHR ''k''))
     [(0, Some (replicate 32 CHR ''k''))] \<lparr>share_I = 0, share_V = 0\<rparr> 0 \<lparr>share_I = 0, share_V = 0\<rparr> 0
     1 2 1000 1 5 10 5 5 1000 fast 1 1 0 1000 1000 0"

definition demo_proposal :: PrePrepareMsg where
  "demo_proposal = \<lparr>ppm_SN = 1, ppm_BatchHash = demo_digest, ppm_ReqBatch = demo_batch,
     ppm_View = 0, ppm_ReplicaId = 0, ppm_TimeStamp = 0\<rparr>"

definition demo_fastQc :: FastPrepareQc where
  "demo_fastQc = \<lparr>fpqc_SN = 1, fpqc_BatchHash = demo_digest, fpqc_View = 0, fpqc_ReplicaId = 0,
     fpqc_ThresholdSig = Some ''q'', fpqc_TimeStamp = 0\<rparr>"

definition demo_commit :: CommitMsg where
  "demo_commit = \<lparr>cm_Vote = demo_prepareQc, cm_ReplicaId = 0, cm_PartialSig = Some ''p'', cm_TimeStamp = 0\<rparr>"

definition demo_commitQc :: CommitQc where
  "demo_commitQc = \<lparr>cqc_SN = 1, cqc_BatchHash = demo_digest, cqc_View = 0, cqc_ReplicaId = 0,
     cqc_ThresholdSig = Some ''q'', cqc_TimeStamp = 0\<rparr>"

abbreviation deliver_signed :: "message \<Rightarrow> event" where
  "deliver_signed m \<equiv> Deliver \<lparr>Command = m, Sig = Some ''s''\<rparr>"

text \<open>
  Both runs begin with the client's request, a turn of the batch loop and the goroutine that
  proposes. The goroutine of the fast run at the end is the one the certificate started; in
  the slow run the fast path's timer expires first.
\<close>

definition fast_events :: "event list" where
  "fast_events =
     [ClientCall (Some ''x''), BatchTurn False, RunTask 0, deliver_signed (PrePrepareM demo_proposal),
      deliver_signed (FastPrepareQcM demo_fastQc), RunTask 3]"

definition slow_events :: "event list" where
  "slow_events =
     [ClientCall (Some ''x''), BatchTurn False, RunTask 0, deliver_signed (PrePrepareM demo_proposal),
      RunTask 0, deliver_signed (PrepareQcM demo_prepareQc), deliver_signed (CommitM demo_commit),
      deliver_signed (CommitQcM demo_commitQc)]"

definition node_after :: "proc option \<Rightarrow> Node" where
  "node_after r = (case r of Some (Running n) \<Rightarrow> n | _ \<Rightarrow> started (demo_conf 1))"

definition fast_run :: "proc option" where
  "fast_run = run_events demo_env (Running (started (demo_conf 1))) fast_events"

definition slow_run :: "proc option" where
  "slow_run = run_events demo_env (Running (started (demo_conf 2))) slow_events"

lemma fast_run_result:
  "case fast_run of Some (Running n) \<Rightarrow> trace n = [Proposed demo_proposal, SignedPrepare demo_vote, Executed 1 (mkId 1 0) demo_digest]
     \<and> fastPrepareQc (certOf n (mkId 1 0)) = Some demo_fastQc \<and> tsPubKey (cfg n) = 0
   | _ \<Rightarrow> False"
  by code_simp

lemma slow_run_result:
  "case slow_run of Some (Running n) \<Rightarrow>
       trace n = [Proposed demo_proposal, SignedPrepare demo_vote, SignedCommit demo_prepareQc, Executed 1 (mkId 1 0) demo_digest]
     \<and> prepareQc (certOf n (mkId 1 0)) = Some demo_prepareQc \<and> fastPrepareQc (certOf n (mkId 1 0)) = None
     \<and> tsPubKey (cfg n) = 0
   | _ \<Rightarrow> False"
  by code_simp

lemma fast_run_reachable: "reachable demo_env (started (demo_conf 1)) (Running (node_after fast_run))"
  and fast_run_trace: "trace (node_after fast_run) =
    [Proposed demo_proposal, SignedPrepare demo_vote, Executed 1 (mkId 1 0) demo_digest]"
  and fast_run_cert: "fastPrepareQc (certOf (node_after fast_run) (mkId 1 0)) = Some demo_fastQc"
  using fast_run_result
  by (auto simp: node_after_def reachable_iff_run fast_run_def split: option.splits proc.splits)

lemma slow_run_reachable: "reachable demo_env (started (demo_conf 2)) (Running (node_after slow_run))"
  and slow_run_trace: "trace (node_after slow_run) =
    [Proposed demo_proposal, SignedPrepare demo_vote, SignedCommit demo_prepareQc,
      Executed 1 (mkId 1 0) demo_digest]"
  and slow_run_cert: "prepareQc (certOf (node_after slow_run) (mkId 1 0)) = Some demo_prepareQc"
  and slow_run_fast: "fastPrepareQc (certOf (node_after slow_run) (mkId 1 0)) = None"
  and slow_run_key: "tsPubKey (cfg (node_after slow_run)) = 0"
  using slow_run_result
  by (auto simp: node_after_def reachable_iff_run slow_run_def split: option.splits proc.splits)

end
