(* ===== verification/ConfigGen.thy ===== *)
theory ConfigGen
  imports Prelude "HOL-Library.Signed_Division"
begin

text \<open>
  The numbers config\_gen/main.go computes for a cluster: the thresholds of the two key sets,
  the quorums written into every node's configuration, the numbering of the processes, and
  the random choice of the nodes that misbehave. Reading the template and writing the files
  is left out. Go's integer division truncates, which is \<open>sdiv\<close>.
\<close>

section \<open>Quorums\<close>

definition TotalNodeNum :: "int \<Rightarrow> int \<Rightarrow> int" where
  "TotalNodeNum nodeNumber ProcessCount = (nodeNumber - 1) * ProcessCount + 1"

text \<open>The number of shares a slow-path threshold signature needs.\<close>

definition numT :: "int \<Rightarrow> int" where
  "numT tot = tot - tot sdiv 3"

text \<open>\<open>bg\<close>, \<open>abm\<close> and \<open>pbm\<close> are the configured numbers of each kind of faulty node.\<close>

definition faults_allowed :: "int \<Rightarrow> int \<Rightarrow> int \<Rightarrow> int \<Rightarrow> bool" where
  "faults_allowed tot bg abm pbm \<longleftrightarrow> \<not> tot sdiv 3 < bg + abm + pbm"

definition fastNum :: "int \<Rightarrow> int \<Rightarrow> int \<Rightarrow> int" where
  "fastNum tot abm pbm = tot - abm - pbm sdiv 2"

definition gen_viewChangeQuorum :: "int \<Rightarrow> int \<Rightarrow> int \<Rightarrow> int" where
  "gen_viewChangeQuorum tot abm pbm = 2 * (tot sdiv 3) + 1 + abm + pbm"

definition gen_prePrepareSubsetCount :: "int \<Rightarrow> int \<Rightarrow> int" where
  "gen_prePrepareSubsetCount tot pbm = tot sdiv 3 + 1 + (pbm + 1) sdiv 2"

lemma sdiv_nonneg: "0 \<le> a \<Longrightarrow> 0 < b \<Longrightarrow> a sdiv b = a div (b :: int)"
  by (simp add: signed_divide_int_def sgn_if)

section \<open>Numbering\<close>

text \<open>The replica number of process \<open>j\<close> on the machine with index \<open>ipIndex\<close>.\<close>

definition gen_replicaId :: "int \<Rightarrow> int \<Rightarrow> int \<Rightarrow> int" where
  "gen_replicaId ProcessCount ipIndex j =
     (if ipIndex = 0 then 0 else (ipIndex - 1) * ProcessCount + j + 1)"

lemma gen_replicaId_inj:
  assumes "gen_replicaId c i j = gen_replicaId c i' j'"
    and "0 \<le> i" and "0 \<le> i'" and "0 \<le> j" "j < c" and "0 \<le> j'" "j' < c"
    and "i = 0 \<longrightarrow> j = 0" and "i' = 0 \<longrightarrow> j' = 0"
  shows "i = i' \<and> j = j'"
proof (cases "i = 0 \<or> i' = 0")
  case True
  have pos: "gen_replicaId c k l > 0" if "k > 0" "l \<ge> 0" "c > 0" for k l
    using that by (simp add: gen_replicaId_def add_nonneg_pos add.assoc)
  have z: "gen_replicaId c 0 l = 0" for l by (simp add: gen_replicaId_def)
  from True pos [of i j] pos [of i' j'] z [of j] z [of j'] assms show ?thesis
    by (cases "i = 0"; cases "i' = 0") auto
next
  case False
  with assms(1) have eq: "(i - 1) * c + j = (i' - 1) * c + j'"
    by (simp add: gen_replicaId_def)
  from assms have c: "c > 0" by simp
  have "i - 1 = ((i - 1) * c + j) div c" and "i' - 1 = ((i' - 1) * c + j') div c"
    using c assms by simp_all
  with eq have "i = i'" by simp
  with eq show ?thesis by simp
qed

section \<open>Faulty nodes\<close>

fun judgeNodeType :: "int \<Rightarrow> int list \<Rightarrow> bool" where
  "judgeNodeType i [] = False"
| "judgeNodeType i (v # b) = (if i = v then True else judgeNodeType i b)"

lemma judgeNodeType_iff: "judgeNodeType i b \<longleftrightarrow> i \<in> set b"
  by (induction b) auto

text \<open>
  \<open>generateRandomNumber\<close> draws until it has \<open>count\<close> different numbers. The draws are a
  parameter, \<open>r.Intn\<close> reduces one below the length of the interval; a range too small gives
  nil. Nothing bounds the number of draws, so the loop is a partial function; it returns
  when the draws eventually show enough different values.
\<close>

partial_function (option) draw_loop ::
  "(nat \<Rightarrow> nat) \<Rightarrow> nat \<Rightarrow> int \<Rightarrow> int \<Rightarrow> nat \<Rightarrow> int list \<Rightarrow> int list option" where
  [code]: "draw_loop rnd k start stop cnt nums =
     (if length nums < cnt
      then (let num = int (rnd k) mod (stop - start) + start
            in draw_loop rnd (Suc k) start stop cnt (if num \<in> set nums then nums else nums @ [num]))
      else Some nums)"

definition generateRandomNumber :: "(nat \<Rightarrow> nat) \<Rightarrow> int \<Rightarrow> int \<Rightarrow> int \<Rightarrow> int list option option" where
  "generateRandomNumber rnd start stop cnt =
     (if stop < start \<or> stop - start < cnt then Some None
      else map_option Some (draw_loop rnd 0 start stop (nat cnt) []))"

text \<open>The node type written into a configuration: the three slices of the drawn nodes.\<close>

definition gen_nodetype :: "int list \<Rightarrow> nat \<Rightarrow> nat \<Rightarrow> int \<Rightarrow> int" where
  "gen_nodetype evilNode bg abm replicaId =
     (if judgeNodeType replicaId (take bg evilNode) then 1
      else if judgeNodeType replicaId (take abm (drop bg evilNode)) then 2
      else if judgeNodeType replicaId (drop (bg + abm) evilNode) then 3
      else 0)"

definition drawn_ok :: "int \<Rightarrow> int \<Rightarrow> nat \<Rightarrow> int list \<Rightarrow> bool" where
  "drawn_ok start stop cnt nums \<longleftrightarrow> start < stop \<and> distinct nums \<and> set nums \<subseteq> {start..<stop} \<and> length nums \<le> cnt"

lemma draw_loop_sound:
  assumes "draw_loop rnd k start stop cnt nums = Some r" and "drawn_ok start stop cnt nums"
  shows "distinct r \<and> set r \<subseteq> {start..<stop} \<and> length r = cnt"
proof -
  have "drawn_ok start stop cnt nums \<longrightarrow> distinct r \<and> set r \<subseteq> {start..<stop} \<and> length r = cnt"
  proof (rule draw_loop.raw_induct [OF _ assms(1)])
    fix f :: "(nat \<Rightarrow> nat) \<Rightarrow> nat \<Rightarrow> int \<Rightarrow> int \<Rightarrow> nat \<Rightarrow> int list \<Rightarrow> int list option"
      and rnd :: "nat \<Rightarrow> nat" and k start stop cnt nums r
    let ?num = "int (rnd k) mod (stop - start) + start"
    let ?nums = "if ?num \<in> set nums then nums else nums @ [?num]"
    assume IH: "\<And>rnd k start stop cnt nums r. f rnd k start stop cnt nums = Some r \<Longrightarrow>
        drawn_ok start stop cnt nums \<longrightarrow> distinct r \<and> set r \<subseteq> {start..<stop} \<and> length r = cnt"
      and body: "(if length nums < cnt
         then let num = int (rnd k) mod (stop - start) + start
              in f rnd (Suc k) start stop cnt (if num \<in> set nums then nums else nums @ [num])
         else Some nums) = Some r"
    show "drawn_ok start stop cnt nums \<longrightarrow> distinct r \<and> set r \<subseteq> {start..<stop} \<and> length r = cnt"
    proof (intro impI)
      assume ok: "drawn_ok start stop cnt nums"
      then have "0 < stop - start" by (simp add: drawn_ok_def)
      from pos_mod_bound [OF this, of "int (rnd k)"] pos_mod_sign [OF this, of "int (rnd k)"]
      have "?num \<in> {start..<stop}" unfolding atLeastLessThan_iff by linarith
      with ok have next_ok: "drawn_ok start stop cnt ?nums" if "length nums < cnt"
        using that by (auto simp: drawn_ok_def)
      show "distinct r \<and> set r \<subseteq> {start..<stop} \<and> length r = cnt"
      proof (cases "length nums < cnt")
        case True
        with body have "f rnd (Suc k) start stop cnt ?nums = Some r" by (simp add: Let_def)
        from IH [OF this] next_ok [OF True] show ?thesis by simp
      next
        case False
        with body ok show ?thesis by (auto simp: drawn_ok_def)
      qed
    qed
  qed
  with assms(2) show ?thesis by blast
qed

end
