(* ===== verification/Quorums.thy ===== *)
theory Quorums
  imports ConfigGen Normal
begin

text \<open>
  Counting replicas. The locale \<open>quorum_system\<close> is the interface agreement rests on: two
  quorums, possibly of different sizes, that together exceed the cluster by more than the
  number of faulty replicas share a correct one. It is interpreted on the numbers
  config\_gen writes (slow and fast thresholds) and on the quorum a checkpoint needs.
\<close>

locale quorum_system =
  fixes size_of :: "'c \<Rightarrow> nat"
    and quorum_a quorum_b faulty_max :: "'c \<Rightarrow> nat"
    and sound :: "'c \<Rightarrow> bool"
  assumes overlap: "sound c \<Longrightarrow> size_of c + faulty_max c < quorum_a c + quorum_b c"
begin

lemma common_correct:
  assumes "sound c" and "finite R" and "card R = size_of c" and "A \<subseteq> R" and "B \<subseteq> R"
    and "quorum_a c \<le> card A" and "quorum_b c \<le> card B" and "card (R - H) \<le> faulty_max c"
  shows "\<exists>i \<in> A \<inter> B. i \<in> H"
proof (rule ccontr)
  assume "\<not> ?thesis"
  with assms(4) have "A \<inter> B \<subseteq> R - H" by auto
  with assms(2,8) have few: "card (A \<inter> B) \<le> faulty_max c"
    by (meson card_mono finite_Diff le_trans)
  from assms(2,4,5) have "finite A" "finite B" by (auto intro: finite_subset)
  then have "card A + card B = card (A \<union> B) + card (A \<inter> B)" by (rule card_Un_Int)
  moreover have "card (A \<union> B) \<le> card R" using assms(2,4,5) by (intro card_mono) auto
  ultimately show False using overlap [OF assms(1)] assms(3,6,7) few by linarith
qed

end

section \<open>The generated configurations\<close>

text \<open>
  The parameters of a generated cluster: its size and the configured numbers of faulty nodes
  of the kinds that weigh on the fast quorum.
\<close>

record cluster_params =
  cp_total :: nat
  cp_abm :: nat
  cp_pbm :: nat

text \<open>Accepted by the generator, in a cluster of at least one node.\<close>

definition params_ok :: "cluster_params \<Rightarrow> bool" where
  "params_ok c \<longleftrightarrow> 0 < cp_total c \<and> faults_allowed (int (cp_total c)) 0 (int (cp_abm c)) (int (cp_pbm c))"

definition slow_shares :: "cluster_params \<Rightarrow> nat" where
  "slow_shares c = nat (numT (int (cp_total c)))"

definition fast_shares :: "cluster_params \<Rightarrow> nat" where
  "fast_shares c = nat (fastNum (int (cp_total c)) (int (cp_abm c)) (int (cp_pbm c)))"

definition tolerated :: "cluster_params \<Rightarrow> nat" where
  "tolerated c = (cp_total c - 1) div 3"

lemma slow_shares_eq: "slow_shares c = cp_total c - cp_total c div 3"
  by (simp add: slow_shares_def numT_def sdiv_nonneg nat_diff_distrib zdiv_int)

lemma params_ok_iff: "params_ok c \<longleftrightarrow> 0 < cp_total c \<and> cp_abm c + cp_pbm c \<le> cp_total c div 3"
  by (auto simp: params_ok_def faults_allowed_def sdiv_nonneg)

lemma fast_shares_eq: "params_ok c \<Longrightarrow> fast_shares c = cp_total c - cp_abm c - cp_pbm c div 2"
  by (simp add: params_ok_iff fast_shares_def fastNum_def sdiv_nonneg)

lemma shares_overlap:
  assumes "params_ok c"
  shows "cp_total c + tolerated c < slow_shares c + slow_shares c"
    and "cp_total c + tolerated c < slow_shares c + fast_shares c"
    and "cp_total c + tolerated c < fast_shares c + fast_shares c"
proof -
  let ?N = "cp_total c" and ?b = "cp_pbm c div 2"
  from assms have N: "0 < ?N" and k: "cp_abm c + cp_pbm c \<le> ?N div 3" by (simp_all add: params_ok_iff)
  have t: "3 * (?N div 3) \<le> ?N" and u: "tolerated c * 3 \<le> ?N - 1" "2 * ?b \<le> cp_pbm c"
    by (simp_all add: tolerated_def)
  have f: "fast_shares c = ?N - cp_abm c - ?b" and s: "slow_shares c = ?N - ?N div 3"
    by (simp_all add: fast_shares_eq [OF assms] slow_shares_eq)
  show "?N + tolerated c < slow_shares c + slow_shares c"
    using N t u unfolding s by linarith
  show "?N + tolerated c < slow_shares c + fast_shares c"
    using N t u k unfolding s f by linarith
  show "?N + tolerated c < fast_shares c + fast_shares c"
    using N t u k unfolding f by linarith
qed

interpretation slow_slow: quorum_system cp_total slow_shares slow_shares tolerated params_ok
  by unfold_locales (rule shares_overlap(1))

interpretation slow_fast: quorum_system cp_total slow_shares fast_shares tolerated params_ok
  by unfold_locales (rule shares_overlap(2))

interpretation fast_fast: quorum_system cp_total fast_shares fast_shares tolerated params_ok
  by unfold_locales (rule shares_overlap(3))

section \<open>Checkpoints\<close>

lemma checkpoint_quorum_eq: "checkpoint_quorum c = int (2 * length (clusterAddr c) div 3 + 1)"
  by (simp add: checkpoint_quorum_def zdiv_int)

interpretation checkpoints: quorum_system "\<lambda>c. length (clusterAddr c)" "\<lambda>c. nat (checkpoint_quorum c)"
  "\<lambda>c. nat (checkpoint_quorum c)" "\<lambda>c. (length (clusterAddr c) - 1) div 3" "\<lambda>c. clusterAddr c \<noteq> []"
proof unfold_locales
  fix c :: NodeConf
  assume "clusterAddr c \<noteq> []"
  then have "0 < length (clusterAddr c)" by simp
  then show "length (clusterAddr c) + (length (clusterAddr c) - 1) div 3
      < nat (checkpoint_quorum c) + nat (checkpoint_quorum c)"
    unfolding checkpoint_quorum_eq nat_int by linarith
qed

end
