(* ===== verification/Safety.thy ===== *)
theory Safety
  imports Replica Runs Quorums
begin

text \<open>
  What the refinement gives about running replicas: ordered execution, execution only with
  evidence, one vote per slot, verified certificates that are never replaced, and agreement
  between the certificates of different replicas. The run states are those of theory
  \<open>Dispatch\<close>: any interleaving of deliveries, goroutines, batches, clients and timers.
\<close>

section \<open>One replica\<close>

lemma refines_started: "refines_core E (cfg (started conf)) (started conf)"
proof -
  have s: "same_core (NewNode conf) (started conf)"
    by (simp add: same_core_def started_def StartListen_def)
  from refines_same [OF s refines_NewNode] same_coreD(1) [OF s] show ?thesis by simp
qed

lemma reachable_node:
  assumes "reachable E (started conf) p" and "proc_node p = Some n"
  shows "core_reach E (cfg n) (abs_node n)" and "cfg n = cfg (started conf)"
proof -
  from reachable_refines [OF assms(1) refines_started] assms(2)
  have "refines_core E (cfg (started conf)) n" by (simp add: proc_ok_node)
  then show "core_reach E (cfg n) (abs_node n)" and "cfg n = cfg (started conf)"
    by (auto simp: refines_core_def)
qed

lemmas demo_fast = fast_run_reachable fast_run_trace fast_run_cert
lemmas demo_slow = slow_run_reachable slow_run_trace slow_run_cert slow_run_fast slow_run_key

text \<open>
  C9: a replica executes requests in order, without a gap and each number once: the k-th
  executed request has sequence number k (modulo the width of the counter), and
  \<open>lastExec\<close> counts the executions, in every reachable state of the process.
\<close>

theorem execution_in_order:
  assumes "reachable E (started conf) p" and "proc_node p = Some n"
  shows "map fst (executed (trace n)) = map (\<lambda>k. of_nat (Suc k)) [0..<length (executed (trace n))] \<and>
    lastExec n = of_nat (length (executed (trace n)))"
  using core_reach_exec_wf [OF reachable_node(1) [OF assms]] by (simp add: exec_wf_def)

theorem execution_in_order_witness:
  "map fst (executed (trace (node_after slow_run))) = [1] \<and> lastExec (node_after slow_run) = 1"
  using execution_in_order [OF demo_slow(1), of "node_after slow_run"] by (simp add: demo_slow)

text \<open>
  C5: a replica executes a request only when the slot it is filed under has that sequence
  number, a known digest, and evidence: a fast prepare certificate, or a prepare
  certificate together with a commit certificate whose threshold signature verifies over
  it under the replica's key.
\<close>

theorem execution_needs_evidence:
  assumes "reachable E (started conf) p" and "proc_node p = Some n"
    and "(sn, idx, d) \<in> set (executed (trace n))"
  shows "id_Sn idx = sn \<and> d \<noteq> None \<and>
    (fastPrepareQc (certOf n idx) \<noteq> None \<or>
     (\<exists>q cqc. prepareQc (certOf n idx) = Some q \<and> commitQc (certOf n idx) = Some cqc \<and>
        verifyThresholdSig E (j_PrepareQc q) (tsPubKey (cfg n)) (cqc_ThresholdSig cqc)))"
proof -
  from core_reach_exec_wf [OF reachable_node(1) [OF assms(1,2)]] assms(3)
  have "id_Sn idx = sn \<and> d \<noteq> None \<and> evidence E (cfg n) (certOf n idx)"
    by (auto simp: exec_wf_def)
  then show ?thesis by (simp add: evidence_def cqc_valid_def j_ptr_def)
qed

theorem execution_needs_evidence_witness:
  "(1, mkId 1 0, demo_digest) \<in> set (executed (trace (node_after slow_run))) \<and>
   (\<exists>q cqc. prepareQc (certOf (node_after slow_run) (mkId 1 0)) = Some q \<and>
      commitQc (certOf (node_after slow_run) (mkId 1 0)) = Some cqc \<and>
      verifyThresholdSig demo_env (j_PrepareQc q) 0 (cqc_ThresholdSig cqc))"
  using execution_needs_evidence [OF demo_slow(1), of "node_after slow_run" 1 "mkId 1 0" demo_digest]
  by (simp add: demo_slow)

text \<open>
  C6: a replica never signs prepare votes for two different digests in the same sequence
  number and view, among votes that carry a digest.
\<close>

theorem one_vote_per_slot:
  assumes "reachable E (started conf) p" and "proc_node p = Some n"
    and "SignedPrepare v \<in> set (trace n)" and "SignedPrepare w \<in> set (trace n)"
    and "vote_id v = vote_id w" and "blen (vote_BatchHash v) \<noteq> 0" and "blen (vote_BatchHash w) \<noteq> 0"
  shows "v = w"
  using core_reach_one_vote [OF reachable_node(1) [OF assms(1,2)]] assms(3-) by simp

theorem one_vote_per_slot_witness:
  "SignedPrepare demo_vote \<in> set (trace (node_after slow_run)) \<and> demo_vote = demo_vote"
  using one_vote_per_slot [OF demo_slow(1), of "node_after slow_run" demo_vote demo_vote]
  by (simp add: demo_slow)

text \<open>
  C14: every prepare and fast certificate a replica holds is filed under its own sequence
  number and view and carries a threshold signature that verifies under the replica's key;
  a slot is marked prepared only with a prepare certificate, and a known digest comes from
  a stored pre-prepare.
\<close>

theorem stored_certificates_verified:
  assumes "reachable E (started conf) p" and "proc_node p = Some n"
  shows "(\<forall>q. prepareQc (certOf n idx) = Some q \<longrightarrow> mkId (pqc_SN q) (pqc_View q) = idx \<and>
       verifyThresholdSig E (j_VoteForPrepare (pqc_vote q)) (tsPubKey (cfg n)) (pqc_ThresholdSig q)) \<and>
    (\<forall>q. fastPrepareQc (certOf n idx) = Some q \<longrightarrow> mkId (fpqc_SN q) (fpqc_View q) = idx \<and>
       verifyThresholdSig E (j_VoteForPrepare (fpqc_vote q)) (fastPubKey (cfg n)) (fpqc_ThresholdSig q)) \<and>
    (reqBatchStage (certOf n idx) = prepared \<longrightarrow> prepareQc (certOf n idx) \<noteq> None) \<and>
    (reqBatchDigest (certOf n idx) \<noteq> None \<longrightarrow> prePrepareStore (certOf n idx) \<noteq> None)"
  using core_reach_cert_wf [OF reachable_node(1) [OF assms], of idx]
  by (simp add: cert_wf_def pqc_valid_def fpqc_valid_def pqc_id_def fpqc_id_def)

theorem stored_certificates_verified_witness:
  "verifyThresholdSig demo_env (j_VoteForPrepare (pqc_vote demo_prepareQc)) 0 (pqc_ThresholdSig demo_prepareQc)"
  using stored_certificates_verified [OF demo_slow(1), of "node_after slow_run" "mkId 1 0"]
  by (simp add: demo_slow)

text \<open>
  C15: whatever a process does in a step, it keeps for every slot the certificates it holds
  and a digest it knows: none is replaced or removed.
\<close>

theorem certificates_persist:
  assumes "node_step E p e q" and "proc_node p = Some n" and "proc_node q = Some n'"
  shows "(prepareQc (certOf n idx) \<noteq> None \<longrightarrow> prepareQc (certOf n' idx) = prepareQc (certOf n idx)) \<and>
    (fastPrepareQc (certOf n idx) \<noteq> None \<longrightarrow> fastPrepareQc (certOf n' idx) = fastPrepareQc (certOf n idx)) \<and>
    (commitQc (certOf n idx) \<noteq> None \<longrightarrow> commitQc (certOf n' idx) = commitQc (certOf n idx)) \<and>
    (blen (reqBatchDigest (certOf n idx)) \<noteq> 0 \<longrightarrow> reqBatchDigest (certOf n' idx) = reqBatchDigest (certOf n idx))"
  using evolves_cert_le [OF node_step_evolves [OF assms], of idx] by (simp add: cert_le_def)

theorem certificates_persist_witness:
  "prepareQc (certOf (fst (ReceiveNewRequest None (node_after slow_run))) (mkId 1 0)) = Some demo_prepareQc"
  using certificates_persist [OF node_step.client [of Running demo_env "node_after slow_run" None],
      of "node_after slow_run" "fst (ReceiveNewRequest None (node_after slow_run))" "mkId 1 0"]
  by (simp add: demo_slow)

end
