(* ===== verification/Agreement.thy ===== *)
theory Agreement
  imports Safety
begin

text \<open>
  Several replicas at one moment. Every correct one is in a reachable state of its own
  process, whatever the network and the faulty replicas have sent it. The only assumption
  on the rest of the world is what a threshold signature scheme promises: a signature that
  verifies was made from shares of enough different replicas, of which the correct ones
  sign only by running the code.
\<close>

section \<open>A cluster\<close>

definition correct_run :: "env \<Rightarrow> Config \<Rightarrow> Node \<Rightarrow> bool" where
  "correct_run E conf n \<longleftrightarrow>
     reachable E (started conf) (Running n) \<or> reachable E (started conf) (Stuck n)"

text \<open>\<open>k\<close> shares, from replicas in \<open>R\<close>; those in \<open>H\<close> are correct and are at \<open>node\<close>.\<close>

definition unforgeable ::
  "crypto \<Rightarrow> PubPoly \<Rightarrow> nat \<Rightarrow> u32 set \<Rightarrow> u32 set \<Rightarrow> (u32 \<Rightarrow> Node) \<Rightarrow> bool" where
  "unforgeable C pub k R H node \<longleftrightarrow>
     (\<forall>v sig. VerifyTS C pub (encode (j_VoteForPrepare v)) sig \<longrightarrow>
        (\<exists>S. S \<subseteq> R \<and> k \<le> card S \<and> (\<forall>i \<in> S \<inter> H. SignedPrepare v \<in> set (trace (node i)))))"

text \<open>The digest a replica holds a certificate for, of either kind.\<close>

definition certified :: "Node \<Rightarrow> MsgId \<Rightarrow> gobytes \<Rightarrow> bool" where
  "certified n idx d \<longleftrightarrow>
     (\<exists>q. prepareQc (certOf n idx) = Some q \<and> pqc_BatchHash q = d) \<or>
     (\<exists>q. fastPrepareQc (certOf n idx) = Some q \<and> fpqc_BatchHash q = d)"

definition slot_vote :: "MsgId \<Rightarrow> gobytes \<Rightarrow> VoteForPrepare" where
  "slot_vote idx d = \<lparr>vote_SN = id_Sn idx, vote_BatchHash = d, vote_View = id_View idx\<rparr>"

lemma correct_run_reachable:
  assumes "correct_run E conf n"
  obtains p where "reachable E (started conf) p" and "proc_node p = Some n"
  using assms unfolding correct_run_def by force

lemma started_keys:
  "tsPubKey (cfg (started conf)) = c_TsPubKey conf" "fastPubKey (cfg (started conf)) = c_FastPubKey conf"
  by (simp_all add: started_def StartListen_def NewNode_def)

text \<open>A certificate a correct replica holds is backed by the votes of a quorum.\<close>

lemma certified_backed:
  assumes run: "correct_run E conf n" and C: "env_crypto E = C"
    and ts: "unforgeable C (c_TsPubKey conf) k R H node"
    and fast: "unforgeable C (c_FastPubKey conf) l R H node"
    and cert: "certified n idx d"
  shows "\<exists>S. S \<subseteq> R \<and> (k \<le> card S \<or> l \<le> card S) \<and>
    (\<forall>i \<in> S \<inter> H. SignedPrepare (slot_vote idx d) \<in> set (trace (node i)))"
proof -
  from run obtain p where p: "reachable E (started conf) p" "proc_node p = Some n"
    by (rule correct_run_reachable)
  have wf: "cert_wf E (cfg n) idx (certOf n idx)"
    using core_reach_cert_wf [OF reachable_node(1) [OF p], of idx] by simp
  have keys: "tsPubKey (cfg n) = c_TsPubKey conf" "fastPubKey (cfg n) = c_FastPubKey conf"
    by (simp_all add: reachable_node(2) [OF p] started_keys)
  have ver: "verifyThresholdSig E msg pub sg = VerifyTS C pub (encode msg) sg" for msg pub sg
    using C by (auto simp: verifyThresholdSig_def split: option.split)
  from cert consider q where "prepareQc (certOf n idx) = Some q" "pqc_BatchHash q = d"
    | q where "fastPrepareQc (certOf n idx) = Some q" "fpqc_BatchHash q = d"
    by (auto simp: certified_def)
  then show ?thesis
  proof cases
    case (1 q)
    with wf have "pqc_id q = idx" "pqc_valid E (cfg n) q" by (auto simp: cert_wf_def)
    with 1 have "VerifyTS C (c_TsPubKey conf) (encode (j_VoteForPrepare (slot_vote idx d))) (pqc_ThresholdSig q)"
      by (auto simp: pqc_valid_def ver keys pqc_vote_def slot_vote_def pqc_id_def)
    with ts show ?thesis unfolding unforgeable_def by metis
  next
    case (2 q)
    with wf have "fpqc_id q = idx" "fpqc_valid E (cfg n) q" by (auto simp: cert_wf_def)
    with 2 have "VerifyTS C (c_FastPubKey conf) (encode (j_VoteForPrepare (slot_vote idx d))) (fpqc_ThresholdSig q)"
      by (auto simp: fpqc_valid_def ver keys fpqc_vote_def slot_vote_def fpqc_id_def)
    with fast show ?thesis unfolding unforgeable_def by metis
  qed
qed

text \<open>Two quorums of the generated sizes share a correct replica.\<close>

lemma quorums_meet:
  assumes "params_ok c" and "finite R" and "card R = cp_total c" and "A \<subseteq> R" and "B \<subseteq> R"
    and "slow_shares c \<le> card A \<or> fast_shares c \<le> card A"
    and "slow_shares c \<le> card B \<or> fast_shares c \<le> card B"
    and "card (R - H) \<le> tolerated c"
  shows "\<exists>i \<in> A \<inter> B. i \<in> H"
  using slow_slow.common_correct [OF assms(1-5) _ _ assms(8)] slow_fast.common_correct [OF assms(1-5) _ _ assms(8)]
    slow_fast.common_correct [OF assms(1-3) assms(5,4) _ _ assms(8)]
    fast_fast.common_correct [OF assms(1-5) _ _ assms(8)] assms(6,7)
  by (auto simp: Int_commute)

text \<open>So two digests with the votes of a quorum each are one: a correct replica voted for both.\<close>

lemma votes_agree:
  assumes "params_ok c" and "finite R" and "card R = cp_total c" and "card (R - H) \<le> tolerated c"
    and run: "\<And>l. l \<in> H \<Longrightarrow> \<exists>p. reachable (E l) (started (conf l)) p \<and> proc_node p = Some (node l)"
    and "A \<subseteq> R" and "slow_shares c \<le> card A \<or> fast_shares c \<le> card A"
    and A: "\<And>l. l \<in> A \<inter> H \<Longrightarrow> SignedPrepare (slot_vote idx d) \<in> set (trace (node l))"
    and "B \<subseteq> R" and "slow_shares c \<le> card B \<or> fast_shares c \<le> card B"
    and B: "\<And>l. l \<in> B \<inter> H \<Longrightarrow> SignedPrepare (slot_vote idx d') \<in> set (trace (node l))"
    and "blen d \<noteq> 0" and "blen d' \<noteq> 0"
  shows "d = d'"
proof -
  from quorums_meet [OF assms(1-3,6,9,7,10,4)] obtain l where l: "l \<in> A" "l \<in> B" "l \<in> H" by blast
  from run [OF l(3)] obtain p where p: "reachable (E l) (started (conf l)) p" "proc_node p = Some (node l)"
    by blast
  have "slot_vote idx d = slot_vote idx d'"
    using core_reach_one_vote [OF reachable_node(1) [OF p], of "slot_vote idx d" "slot_vote idx d'"]
      A B l assms(12,13) by (simp add: slot_vote_def vote_id_def)
  then show ?thesis by (simp add: slot_vote_def)
qed

text \<open>
  Two correct replicas never hold certificates, slow or fast, for different digests in
  the same sequence number and view, in a cluster generated for its parameters with at most
  (N - 1) div 3 faulty replicas, however these behave and whatever the network does.
\<close>

theorem certificate_agreement:
  assumes "params_ok c" and "finite R" and "card R = cp_total c" and "card (R - H) \<le> tolerated c"
    and correct: "\<forall>i \<in> H. correct_run (E i) (conf i) (node i) \<and> env_crypto (E i) = C \<and>
      c_TsPubKey (conf i) = ts \<and> c_FastPubKey (conf i) = fast"
    and "unforgeable C ts (slow_shares c) R H node"
    and "unforgeable C fast (fast_shares c) R H node"
    and "i \<in> H" and "j \<in> H"
    and "certified (node i) idx d" and "certified (node j) idx d'"
    and "blen d \<noteq> 0" and "blen d' \<noteq> 0"
  shows "d = d'"
proof -
  have backed: "\<exists>S. S \<subseteq> R \<and> (slow_shares c \<le> card S \<or> fast_shares c \<le> card S) \<and>
      (\<forall>l \<in> S \<inter> H. SignedPrepare (slot_vote idx x) \<in> set (trace (node l)))"
    if "k \<in> H" "certified (node k) idx x" for k x
  proof -
    from correct that(1) have k: "correct_run (E k) (conf k) (node k)" "env_crypto (E k) = C"
      and keys: "c_TsPubKey (conf k) = ts" "c_FastPubKey (conf k) = fast" by blast+
    from certified_backed [OF k assms(6) [folded keys(1)] assms(7) [folded keys(2)] that(2)] show ?thesis .
  qed
  from backed [OF assms(8,10)] obtain A where A: "A \<subseteq> R" "slow_shares c \<le> card A \<or> fast_shares c \<le> card A"
    "\<forall>l \<in> A \<inter> H. SignedPrepare (slot_vote idx d) \<in> set (trace (node l))" by blast
  from backed [OF assms(9,11)] obtain B where B: "B \<subseteq> R" "slow_shares c \<le> card B \<or> fast_shares c \<le> card B"
    "\<forall>l \<in> B \<inter> H. SignedPrepare (slot_vote idx d') \<in> set (trace (node l))" by blast
  have run: "\<exists>p. reachable (E l) (started (conf l)) p \<and> proc_node p = Some (node l)" if "l \<in> H" for l
    using correct that by (blast elim: correct_run_reachable)
  show ?thesis
    by (rule votes_agree [where H = H and node = node and A = A and B = B and idx = idx, OF assms(1-4) run])
      (use A B assms(12,13) in auto)
qed

lemma demo_unforgeable:
  assumes "\<forall>i \<in> H. SignedPrepare demo_vote \<in> set (trace (node i))"
  shows "unforgeable demo_crypto pub 1 {0} H node"
  unfolding unforgeable_def
proof (intro allI impI)
  fix v sig
  assume "VerifyTS demo_crypto pub (encode (j_VoteForPrepare v)) sig"
  then have "encode (j_VoteForPrepare v) = encode (j_VoteForPrepare demo_vote) \<or>
      encode (j_VoteForPrepare v) = encode (j_PrepareQc demo_prepareQc)"
    by (auto simp: VerifyTS_def demo_crypto_def sign_dataHashByte_def encode_def)
  moreover have "encode (j_VoteForPrepare v) \<noteq> encode (j_PrepareQc demo_prepareQc)"
    by (rule notI, drule encode_inj) (simp_all add: j_VoteForPrepare_def j_PrepareQc_def)
  ultimately have "v = demo_vote" using encode_VoteForPrepare_inj by blast
  with assms show "\<exists>S. S \<subseteq> {0} \<and> 1 \<le> card S \<and> (\<forall>i \<in> S \<inter> H. SignedPrepare v \<in> set (trace (node i)))"
    by (intro exI [of _ "{0}"]) auto
qed

theorem certificate_agreement_witness:
  "certified (node_after slow_run) (mkId 1 0) demo_digest \<and> demo_digest = demo_digest"
proof -
  have cert: "certified (node_after slow_run) (mkId 1 0) demo_digest"
    by (simp add: certified_def demo_slow demo_prepareQc_def)
  have "blen demo_digest \<noteq> 0" by code_simp
  then show ?thesis
    using certificate_agreement [of "\<lparr>cp_total = 1, cp_abm = 0, cp_pbm = 0\<rparr>" "{0}" "{0}" "\<lambda>_. demo_env"
        "\<lambda>_. demo_conf 2" "\<lambda>_. node_after slow_run" demo_crypto 0 0 0 0 "mkId 1 0" demo_digest demo_digest]
      cert demo_slow(1) demo_unforgeable [of "{0}" "\<lambda>_. node_after slow_run" 0]
    by (simp add: params_ok_iff slow_shares_eq fast_shares_eq tolerated_def correct_run_def
        demo_env_def demo_conf_def config_New_def demo_slow)
qed

end
