(* ===== verification/Handlers.thy ===== *)
theory Handlers
  imports Replica
begin

text \<open>
  The frame of theory \<open>Frame\<close> carried through every handler: a preorder that does not see
  what the handlers write to certificates, votes, execution buffers and views holds between
  the state before and after any turn of the process, except where a checkpoint message
  moves the watermark. The locales name the writes, in three layers: handling proposals and
  votes (\<open>vote_rel\<close>), everything else but the view-change stores (\<open>normal_rel\<close>), and those
  too (\<open>handler_rel\<close>). Interpretations state invariants of the rest of the state.
\<close>

text \<open>The messages that neither move the watermark nor change the view-change stores.\<close>

fun normal_message :: "message \<Rightarrow> bool" where
  "normal_message (CheckpointM m) = False"
| "normal_message (ViewChangeM m) = False"
| "normal_message (NewViewM m) = False"
| "normal_message ViewChangeQuorumM = False"
| "normal_message _ = True"

text \<open>The writes of handling proposals, votes and certificates.\<close>

locale vote_rel = node_rel +
  assumes R_getCert: "R n (snd (getCert idx n))"
    and R_modCert: "R n (modCert idx g n)"
    and R_trace: "(\<And>p. e \<noteq> Proposed p) \<Longrightarrow> R n (add_trace e n)"
    and R_lastExec: "R n (n\<lparr>lastExec := lastExec n + 1\<rparr>)"
    and R_execId: "R n (n\<lparr>execReqIdBuffer := gm_put sn idx (execReqIdBuffer n)\<rparr>)"
    and R_execBuf: "R n (n\<lparr>execReqBuffer := gm_put sn d (execReqBuffer n)\<rparr>)"
    and R_reqBatch: "R n (n\<lparr>reqBatch := gm_put idx rb (reqBatch n)\<rparr>)"
    and R_init_partials: "R n (init_partials idx key n)"
    and R_prepare_partials: "R n (n\<lparr>partialSigInPrepare := put_partial idx key i sg (partialSigInPrepare n),
          fastPartialSigInPrepare := put_partial idx key i sg' (fastPartialSigInPrepare n)\<rparr>)"
    and R_commit_partials: "R n (n\<lparr>partialSigInCommit := put_partial idx key i sg (partialSigInCommit n)\<rparr>)"
    and R_prepareTimer: "R n (n\<lparr>prepareTimer := gm_put idx tm (prepareTimer n)\<rparr>)"
begin

text \<open>Using the certificate \<open>getCert\<close> returns.\<close>

lemma with_cert:
  assumes "\<And>c n1. R n n1 \<Longrightarrow> go_rel R n1 nd (k c n1)"
  shows "go_rel R n nd (case getCert idx n of (c, n1) \<Rightarrow> k c n1)"
proof -
  obtain c n1 where g: "getCert idx n = (c, n1)" by fastforce
  have r: "R n n1" using R_getCert [of n idx] by (simp add: g)
  from from_node [OF r assms [OF r]] show ?thesis by (simp add: g)
qed

lemmas h_read_primary = go_rel_read [OF go_reads_prims(5)]

lemma broadcast_fst: "go_rel R n (\<lambda>x. x) (go_bind (broadcast E m exc n) (\<lambda>r. Ret (fst r)))"
  by (rule bind [OF broadcasting]) (simp add: R_refl)

section \<open>Execution\<close>

lemma h_after_execution: "go_rel R n (\<lambda>x. x) (after_execution E err n)"
  unfolding after_execution_def
  by (rule bind [where nd = "\<lambda>x. x"]) (auto simp: checkIfCreateChkpt_def spawning R_refl leaving_view)

lemma h_mark_executed: "R n (mark_executed idx dg n)"
  unfolding mark_executed_def Let_def
  by (rule R_trans [OF R_trans [OF clock R_trace] R_lastExec]) simp

lemma h_exec_loop: "go_rel R n (\<lambda>x. x) (exec_loop fuel E err i n)"
proof (induction fuel arbitrary: i n)
  case (Suc fuel)
  have "go_rel R m (\<lambda>x. x) (go_bind (after_execution E err (mark_executed idx dg m)) (exec_loop fuel E err (i + 1)))"
    for m idx dg
    by (rule from_node [OF h_mark_executed], rule bind [OF h_after_execution Suc.IH])
  then have "go_rel R n (\<lambda>x. x) (case getCert idx n of (cert, n1) \<Rightarrow> if prePrepareStore cert = None then Panic NilDereference
      else go_bind (after_execution E err (mark_executed idx dg n1)) (exec_loop fuel E err (i + 1)))" for idx dg
    by (intro with_cert) simp
  then show ?case by (simp add: R_refl Let_def split: option.split)
qed (simp add: R_refl)

lemma h_executeRequest: "go_rel R n (\<lambda>x. x) (executeRequest E idx err n)"
  unfolding executeRequest_def Let_def
proof (rule from_node [OF R_execId], rule with_cert)
  fix c :: MsgCert and n1 :: Node
  let ?n2 = "n1\<lparr>execReqBuffer := gm_put (id_Sn idx) (reqBatchDigest c) (execReqBuffer n1)\<rparr>"
  show "go_rel R n1 (\<lambda>x. x) (if lastExec ?n2 < id_Sn idx
      then exec_loop (Suc (length (execReqBuffer ?n2))) E err (lastExec ?n2 + 1) ?n2 else Ret ?n2)"
    by (rule from_node [OF R_execBuf [of n1 "id_Sn idx" "reqBatchDigest c"]])
      (simp add: h_exec_loop R_refl del: exec_loop.simps)
qed

lemma h_checkIfCommitted: "go_rel R n (\<lambda>x. x) (checkIfCommitted E idx err n)"
  unfolding checkIfCommitted_def Let_def
  by (rule with_cert) (auto simp: R_refl intro: from_node [OF R_modCert h_executeRequest] split: option.split)

lemma h_checkIfPrepared: "go_rel R n (\<lambda>x. x) (checkIfPrepared E idx err n)"
  unfolding checkIfPrepared_def Let_def
  by (rule with_cert) (auto simp: R_refl intro: from_node [OF R_modCert h_executeRequest]
      from_node [OF R_modCert h_checkIfCommitted])

section \<open>Prepare votes\<close>

lemma h_signed: "(\<And>p. e \<noteq> Proposed p) \<Longrightarrow> R n (add_trace e (step_clock n))"
  by (rule R_trans [OF clock R_trace])

lemma h_createPrepareMsg: "go_rel R n fst (createPrepareMsg E sn n)"
  unfolding createPrepareMsg_def Let_def
  by (rule with_cert) (auto simp: h_signed intro!: go_rel_read split: option.split)

lemma h_sendPrepareMsg: "go_rel R n (\<lambda>x. x) (sendPrepareMsg E sn err n)"
  unfolding sendPrepareMsg_def
  by (rule bind [OF h_createPrepareMsg])
    (auto simp del: go_bind.simps intro!: h_read_primary to_leader_report)

lemma h_createQcs: "go_rel R n fst (createPrepareQc E idx s n)" "go_rel R n fst (createFastPrepareQc E idx s n)"
  "go_rel R n fst (createCommitQc E idx v n)"
  unfolding createPrepareQc_def createFastPrepareQc_def createCommitQc_def Let_def
  by (rule go_rel_read, auto split: option.split intro!: clock)+

lemma h_announce:
  assumes "\<And>n1. go_rel R n1 fst (mk n1)"
  shows "go_rel R n (\<lambda>x. x) (go_bind (mk (modCert idx g n))
    (\<lambda>(n, qc). case qc of None \<Rightarrow> Panic NilDereference
       | Some q \<Rightarrow> go_bind (broadcast E (f q) [] n) (\<lambda>r. Ret (fst r))))"
  by (rule from_node [OF R_modCert], rule bind [OF assms])
    (auto simp: case_prod_unfold broadcast_fst split: option.split)

lemma h_checkIfPrepareQc: "go_rel R n (\<lambda>x. x) (checkIfPrepareQc E idx s n)"
  unfolding checkIfPrepareQc_def Let_def
  by (rule with_cert) (auto simp: R_refl intro!: h_announce [OF h_createQcs(1)])

lemma h_handlePrepareVote: "go_rel R n (\<lambda>x. x) (handlePrepareVote E pm n)"
  unfolding handlePrepareVote_def Let_def
proof (rule with_cert)
  fix c :: MsgCert and n1 :: Node
  let ?idx = "vote_id (pm_Vote pm)" and ?s = "hex_encode (bytes_of (vote_BatchHash (pm_Vote pm)))"
  let ?n2 = "init_partials ?idx ?s n1"
  let ?n3 = "?n2\<lparr>partialSigInPrepare :=
               put_partial ?idx ?s (pm_ReplicaId pm) (pm_PartialSig pm) (partialSigInPrepare ?n2),
             fastPartialSigInPrepare :=
               put_partial ?idx ?s (pm_ReplicaId pm) (pm_FastPartialSig pm) (fastPartialSigInPrepare ?n2)\<rparr>"
  have r: "R n1 ?n3" by (rule R_trans [OF R_init_partials R_prepare_partials])
  show "go_rel R n1 (\<lambda>x. x)
    (case gm_get (prepareTimer ?n3) ?idx of
       None \<Rightarrow> Panic NilDereference
     | Some t \<Rightarrow>
         if \<not> ft_stop t
         then (if int (length (gm_get0 [] (gm_get0 [] (fastPartialSigInPrepare ?n3) ?idx) ?s))
                    \<ge> fastQcQuorum (cfg ?n3) \<and> \<not> prepareQcStage c
               then go_bind (createFastPrepareQc E ?idx ?s
                               (modCert ?idx (\<lambda>c. c\<lparr>prepareQcStage := True\<rparr>) ?n3))
                      (\<lambda>(n, qc). case qc of
                         None \<Rightarrow> Panic NilDereference
                       | Some q \<Rightarrow> go_bind (broadcast E (FastPrepareQcM q) [] n) (\<lambda>r. Ret (fst r)))
               else Ret ?n3)
         else checkIfPrepareQc E ?idx ?s ?n3)"
    by (rule from_node [OF r])
      (auto simp: R_refl intro!: h_checkIfPrepareQc h_announce [OF h_createQcs(2)] split: option.split)
qed

lemma h_checkIfPrePrepared: "checkIfPrePrepared idx n = (ok, n1) \<Longrightarrow> R n n1"
  using R_getCert [of n idx] by (auto simp: checkIfPrePrepared_def case_prod_unfold Let_def)

lemma h_handlePrepareMsg: "go_rel R n (\<lambda>x. x) (handlePrepareMsg E pm err n)"
proof -
  let ?idx = "mkId (vote_SN (pm_Vote pm)) (currenView n)"
  obtain ok n1 where c: "checkIfPrePrepared ?idx n = (ok, n1)" by fastforce
  have "go_rel R n1 (\<lambda>x. x) (case getCert ?idx n1 of (cert, n) \<Rightarrow>
      if gm_get (prePareStore cert) (pm_ReplicaId pm) \<noteq> None then Ret n
      else handlePrepareVote E pm
        (modCert ?idx (\<lambda>c. c\<lparr>prePareStore := gm_put (pm_ReplicaId pm) pm (prePareStore c)\<rparr>) n))"
    by (rule with_cert) (auto simp: R_refl intro: from_node [OF R_modCert h_handlePrepareVote])
  from from_node [OF h_checkIfPrePrepared [OF c] this] show ?thesis
    by (simp add: handlePrepareMsg_def c R_refl Let_def)
qed

lemma h_handlePrePrepareMsg: "go_rel R n (\<lambda>x. x) (handlePrePrepareMsg E p err n)"
proof -
  let ?idx = "mkId (ppm_SN p) (ppm_View p)"
  let ?bad = "\<lambda>cert. blen (reqBatchDigest cert) \<noteq> 0 \<and> \<not> bytes_Equal (reqBatchDigest cert) (ppm_BatchHash p)"
  let ?put = "\<lambda>n. modCert ?idx (\<lambda>c. c\<lparr>reqBatchStage := received,
      reqBatchDigest := ppm_BatchHash p, prePrepareStore := Some p\<rparr>)
      (n\<lparr>reqBatch := gm_put ?idx (ppm_ReqBatch p) (reqBatch n)\<rparr>)"
  let ?k = "\<lambda>n. go_bind (primary n (currenView n)) (\<lambda>leader.
      if replicaId (cfg n) \<noteq> leader then sendPrepareMsg E (ppm_SN p) err n
      else go_bind (createPrepareMsg E (ppm_SN p) n) (\<lambda>(n, pm). handlePrepareMsg E pm err n))"
  have k: "go_rel R m (\<lambda>x. x) (?k m)" for m
  proof (rule h_read_primary)
    fix leader
    have "go_rel R m (\<lambda>x. x) (go_bind (createPrepareMsg E (ppm_SN p) m) (\<lambda>(n, pm). handlePrepareMsg E pm err n))"
      by (rule bind [OF h_createPrepareMsg]) (auto intro: h_handlePrepareMsg)
    then show "go_rel R m (\<lambda>x. x) (if replicaId (cfg m) \<noteq> leader then sendPrepareMsg E (ppm_SN p) err m
      else go_bind (createPrepareMsg E (ppm_SN p) m) (\<lambda>(n, pm). handlePrepareMsg E pm err n))"
      by (simp add: h_sendPrepareMsg)
  qed
  have put: "go_rel R m (\<lambda>x. x) (go_bind (checkIfPrepared E ?idx err (?put m)) ?k)" for m
    by (rule from_node [OF R_reqBatch], rule from_node [OF R_modCert], rule bind [OF h_checkIfPrepared]) (rule k)
  have store: "go_rel R n (\<lambda>x. x) (case getCert ?idx n of (cert, n) \<Rightarrow>
      if ?bad cert then sendViewChange E err n
      else go_bind (checkIfPrepared E ?idx err (?put n)) ?k)"
    by (rule with_cert) (simp only: put leaving_view split: if_split, simp)
  show ?thesis
    unfolding handlePrePrepareMsg_def Let_def
    using store by (auto simp: leaving_view R_refl intro!: h_read_primary)
qed

section \<open>Certificates and commits\<close>

lemma h_sendCommitMsg: "go_rel R n (\<lambda>x. x) (sendCommitMsg E q err n)"
proof -
  have "go_rel R n fst (createCommitMsg E q n)"
    unfolding createCommitMsg_def by (auto simp: h_signed intro!: go_rel_read split: option.split)
  then show ?thesis
    unfolding sendCommitMsg_def
    by (rule bind) (auto simp del: go_bind.simps intro!: h_read_primary to_leader_report)
qed

lemma h_handlePrepareQc: "go_rel R n (\<lambda>x. x) (handlePrepareQc E q err n)"
proof -
  have "go_rel R m (\<lambda>x. x) (go_bind (checkIfPrepared E idx err (modCert idx g m)) (sendCommitMsg E q err))"
    for m idx g
    by (rule from_node [OF R_modCert], rule bind [OF h_checkIfPrepared h_sendCommitMsg])
  then show ?thesis
    unfolding handlePrepareQc_def Let_def
    by (auto simp: leaving_view R_refl intro!: h_read_primary with_cert)
qed

lemma h_handleFastPrepareQc: "go_rel R n (\<lambda>x. x) (handleFastPrepareQc E q err n)"
  unfolding handleFastPrepareQc_def Let_def
  by (auto simp: R_refl intro!: h_read_primary with_cert R_trans [OF R_modCert spawning])

lemma h_handleCommitVote: "go_rel R n (\<lambda>x. x) (handleCommitVote E cm n)"
proof -
  let ?idx = "mkId (pqc_SN (cm_Vote cm)) (pqc_View (cm_Vote cm))"
  have "go_rel R m (\<lambda>x. x) (go_bind (createCommitQc E ?idx (cm_Vote cm) m) (\<lambda>(n, q).
      go_bind (broadcast E (CommitQcM q) [] (modCert ?idx (\<lambda>c. c\<lparr>commitQcStage := True\<rparr>) n))
        (\<lambda>r. Ret (fst r))))" for m
    by (rule bind [OF h_createQcs(3)]) (auto intro: from_node [OF R_modCert broadcast_fst])
  then have "go_rel R m (\<lambda>x. x) (if b then go_bind (createCommitQc E ?idx (cm_Vote cm) m) (\<lambda>(n, q).
      go_bind (broadcast E (CommitQcM q) [] (modCert ?idx (\<lambda>c. c\<lparr>commitQcStage := True\<rparr>) n))
        (\<lambda>r. Ret (fst r))) else Ret m)" for m b
    by (simp add: R_refl)
  then show ?thesis
    unfolding handleCommitVote_def Let_def
    by (intro with_cert) (rule from_node [OF R_commit_partials])
qed

lemma h_handleCommitMsg: "go_rel R n (\<lambda>x. x) (handleCommitMsg E cm err n)"
proof -
  let ?idx = "mkId (pqc_SN (cm_Vote cm)) (pqc_View (cm_Vote cm))"
  obtain ok n1 where c: "checkIfPrePrepared ?idx n = (ok, n1)" by fastforce
  have "go_rel R n1 (\<lambda>x. x) (case getCert ?idx n1 of (cert, n) \<Rightarrow>
      if gm_get (commitStore cert) (cm_ReplicaId cm) \<noteq> None then Ret n
      else handleCommitVote E cm
        (modCert ?idx (\<lambda>c. c\<lparr>commitStore := gm_put (cm_ReplicaId cm) cm (commitStore c)\<rparr>) n))"
    by (rule with_cert) (auto simp: R_refl intro: from_node [OF R_modCert h_handleCommitVote])
  from from_node [OF h_checkIfPrePrepared [OF c] this] show ?thesis
    by (simp add: handleCommitMsg_def c R_refl Let_def)
qed

lemma h_handleCommitQc: "go_rel R n (\<lambda>x. x) (handleCommitQc E q err n)"
proof -
  let ?idx = "mkId (cqc_SN q) (cqc_View q)"
  have "go_rel R m (\<lambda>x. x) (case prepareQc c of None \<Rightarrow> Ret (modCert ?idx g m)
      | Some voteMsg \<Rightarrow>
          if \<not> verifyThresholdSig E (j_PrepareQc voteMsg) (tsPubKey (cfg (modCert ?idx g m))) (cqc_ThresholdSig q)
          then Ret (modCert ?idx g m) else checkIfCommitted E ?idx err (modCert ?idx g m))" for m c g
    by (rule from_node [OF R_modCert [of m ?idx g]]) (simp add: R_refl h_checkIfCommitted split: option.split)
  then show ?thesis
    unfolding handleCommitQc_def Let_def
    by (auto simp: leaving_view R_refl intro!: h_read_primary with_cert)
qed

section \<open>Replaying assigned requests\<close>

lemma h_start_prepareTimer: "R n (start_prepareTimer idx s n)"
  unfolding start_prepareTimer_def by (rule R_trans [OF R_prepareTimer spawning])

lemma h_replay_one: "go_rel R n (\<lambda>x. x) (replay_one E nv sn n)"
proof -
  have r: "R n (add_trace (Replayed p) (step_clock (if b then start_prepareTimer i d n else n)))" for b i d p
    by (rule R_trans [OF _ R_trace]) (use R_trans [OF h_start_prepareTimer clock] clock in auto)
  show ?thesis
    unfolding replay_one_def Let_def
    by (auto simp del: go_bind.simps simp: R_refl intro!: h_read_primary
        from_node [OF r h_handlePrePrepareMsg])
qed

lemma h_replay: "go_rel R n (\<lambda>x. x) (replay E nv sns n)"
proof (induction sns arbitrary: n)
  case (Cons sn sns)
  then show ?case by (auto simp del: go_bind.simps intro: bind [OF h_replay_one])
qed (simp add: R_refl)

end

text \<open>Proposing, checkpoints, entering a view and the batch loop write a few more fields.\<close>

locale normal_rel = vote_rel +
  assumes R_chkpts: "R n (n\<lparr>chkpts := gm_put sn ds (chkpts n)\<rparr>)"
    and R_propose: "inWatermarks n (nextSN n) \<Longrightarrow> ppm_SN p = nextSN n \<Longrightarrow>
      ppm_ReplicaId p = replicaId (cfg n) \<Longrightarrow> ppm_View p = currenView n \<Longrightarrow>
      R n (add_trace (Proposed p) (n\<lparr>nextSN := nextSN n + 1\<rparr>))"
    and R_enter: "R n (n\<lparr>activeView := True, nextSN := low_h n + n_K (cfg n) + 1\<rparr>)"
    and R_currenView: "R n (n\<lparr>currenView := v\<rparr>)"
    and R_vcSeq: "R n (n\<lparr>viewChangeSeqNumber := sn\<rparr>)"
    and R_batchStore: "R n (n\<lparr>batchStore := bs\<rparr>)"
    and R_leader: "R n (n\<lparr>rh_Leader := l\<rparr>)"
begin

section \<open>Proposing, timers and checkpoints\<close>

lemma h_broadcastPrePrepareMsg: "go_rel R n (\<lambda>x. x) (broadcastPrePrepareMsg E batch err n)"
proof -
  obtain n1 ppm where c: "createPrePrepareMsg E batch n = (n1, ppm)" by fastforce
  let ?n2 = "add_trace (Proposed ppm) (n\<lparr>nextSN := nextSN n + 1\<rparr>)"
  let ?idx = "mkId (ppm_SN ppm) (ppm_View ppm)" and ?s = "hex_encode (bytes_of (ppm_BatchHash ppm))"
  from c have p: "ppm_SN ppm = nextSN n" "ppm_ReplicaId ppm = replicaId (cfg n)" "ppm_View ppm = currenView n"
    and n1: "add_trace (Proposed ppm) (start_prepareTimer ?idx ?s n1) = start_prepareTimer ?idx ?s (step_clock ?n2)"
    by (auto simp: createPrePrepareMsg_def Let_def start_prepareTimer_def step_clock_def spawn_def add_trace_def)
  have r: "R n (start_prepareTimer ?idx ?s (step_clock ?n2))" if "inWatermarks n (nextSN n)"
    by (rule R_trans [OF R_trans [OF R_propose clock] h_start_prepareTimer]) (use that p in auto)
  show ?thesis
    using from_node [OF r broadcast_report] by (auto simp: broadcastPrePrepareMsg_def c Let_def R_refl n1)
qed

lemma h_prepareTimer_task: "go_rel R n (\<lambda>x. x) (prepareTimer_task E idx s n)"
  unfolding prepareTimer_task_def
  using from_node [OF R_prepareTimer h_checkIfPrepareQc] by (simp split: option.split)

lemma h_checkpoint: "go_rel R n (\<lambda>x. x) (checkpoint E sn d err n)"
  unfolding checkpoint_def Let_def
  using from_node [OF R_chkpts broadcast_report] by (simp add: R_refl)

section \<open>Entering a new view\<close>

lemma h_updateViewChangeSeqNo: "R n (updateViewChangeSeqNo n)"
  by (simp add: updateViewChangeSeqNo_def R_refl R_vcSeq)

lemma h_processNewView: "go_rel R n (\<lambda>x. x) (processNewView E err n)"
proof -
  have r: "R x (step_clock (updateViewChangeSeqNo (x\<lparr>activeView := True, nextSN := low_h x + n_K (cfg x) + 1\<rparr>)))"
    for x
    by (rule R_trans [OF R_trans [OF R_enter h_updateViewChangeSeqNo] clock])
  have "go_rel R n (\<lambda>x. x) (go_bind (stopTimer n) (\<lambda>n.
      let n = n\<lparr>activeView := True\<rparr>; n = n\<lparr>nextSN := low_h n + n_K (cfg n) + 1\<rparr>;
          n = updateViewChangeSeqNo n;
          keySort = GetMapkey (env_order E (clock n)) (nv_Oset nv)
      in replay E nv keySort (step_clock n)))" for nv
    by (rule bind [OF stopping]) (auto simp: Let_def intro!: from_node [OF r h_replay])
  then show ?thesis
    by (simp add: processNewView_def R_refl split: option.split)
qed

section \<open>Batches and goroutines\<close>

lemma h_ReceiveNewRequest: "R n (fst (ReceiveNewRequest cmd n))"
  by (simp add: ReceiveNewRequest_def R_batchStore)

lemma h_ReceiveNewRequestForTest: "R n (ReceiveNewRequestForTest k n)"
  by (induction k arbitrary: n) (auto intro: R_trans [OF h_ReceiveNewRequest] simp: R_refl)

lemma h_sendBatch: "go_rel R n (\<lambda>x. x) (sendBatch n)"
proof -
  have propose: "go_rel R n (\<lambda>x. x)
      (go_bind (primary m v) (\<lambda>leader. Ret (if leader = r then spawn ts m else m)))"
    if "R n m" for m v ts r
  proof -
    have "R n (spawn ts m)" using that by (rule R_trans [OF _ spawning])
    with that show ?thesis by (intro h_read_primary) auto
  qed
  show ?thesis
    unfolding sendBatch_def Let_def
    by (auto simp del: go_bind.simps simp: R_batchStore intro!: propose)
qed

lemma h_batch_turn: "go_rel R n (\<lambda>x. x) (batch_turn b n)"
proof -
  have "go_rel R n (\<lambda>x. x) (batch_head n)"
    unfolding batch_head_def Let_def
    by (rule h_read_primary) (auto simp: R_leader intro: from_node [OF R_leader h_sendBatch])
  then show ?thesis
    unfolding batch_turn_def
    by (rule bind)
      (auto simp del: go_bind.simps simp: h_sendBatch h_ReceiveNewRequestForTest R_refl intro!: h_read_primary)
qed

text \<open>
  The laws do not say that a message may be noted as received: the lemmas on deliveries ask
  for it, so that a relation may also speak about the messages received.
\<close>

lemma h_verified:
  assumes "R n (receive (Command rpc) n)" and "\<And>n. go_rel R n (\<lambda>x. x) (h n)"
  shows "go_rel R n (\<lambda>x. x) (verified E rpc i h n)"
  unfolding verified_def using from_node [OF assms(1,2)] by (auto intro: go_rel_read)

lemma h_normal_dispatch:
  assumes "normal_message (Command rpc)" and "R n (receive (Command rpc) n)"
  shows "go_rel R n (\<lambda>x. x) (dispatch E ch rpc n)"
  using assms(1) h_verified [OF assms(2)] by (cases "Command rpc") (auto simp: dispatch_def leaving_view
      intro!: h_handlePrePrepareMsg h_handlePrepareMsg
        h_handleCommitMsg h_handlePrepareQc h_handleFastPrepareQc h_handleCommitQc)

lemma h_run_task: "go_rel R n (\<lambda>x. x) (run_task E t n)"
  by (cases t) (simp_all add: sending_task h_checkpoint h_checkIfPrepared
    h_prepareTimer_task h_broadcastPrePrepareMsg)

lemma h_outcome:
  assumes "go_rel R n (\<lambda>x. x) m"
  shows "proc_node (main_outcome m) = Some n' \<Longrightarrow> R n n'"
    and "c = Running \<or> c = Stuck \<Longrightarrow> proc_node (side_outcome c m) = Some n' \<Longrightarrow> R n n'"
  using assms by (auto simp: main_outcome_def side_outcome_def go_rel_def split: go.splits)

text \<open>Every step but the handling of a message.\<close>

lemma h_quiet_step:
  assumes "node_step E p e q" and "proc_node p = Some n" and "proc_node q = Some n'"
    and quiet: "\<And>m. e \<noteq> Deliver m"
  shows "R n n'"
  using assms(1)
proof (cases rule: node_step.cases)
  case (deliver x m)
  with quiet show ?thesis by blast
next
  case (task i x c)
  with assms(2) have "x = n" by auto
  with task assms(3) have "R (drop_task i n) n'"
    by (auto intro: h_outcome(2) [OF h_run_task])
  then show ?thesis by (rule R_trans [rotated]) (simp add: drop_task_def R_gos)
next
  case (batch c x b)
  with assms show ?thesis by (auto intro: h_outcome(2) [OF h_batch_turn])
next
  case (client c x cmd)
  with assms show ?thesis by (auto intro: h_ReceiveNewRequest)
next
  case (fires x t)
  have d: "go_rel R (fire_timer t n) (\<lambda>x. x)
      (dispatch E ErrCh \<lparr>Command = ViewChangeTimerM, Sig = None\<rparr> (fire_timer t n))"
    by (simp add: dispatch_def leaving_view)
  from fires assms(2,3) have "R (fire_timer t n) n'"
    by (auto intro: h_outcome(1) [OF d])
  then show ?thesis by (rule R_trans [rotated]) (simp add: fire_timer_def R_timer)
next
  case (fires_dropped x t c)
  with assms show ?thesis by (auto simp: fire_timer_def R_timer)
qed

end

text \<open>The stores of view-change and new-view messages are written as well.\<close>

locale handler_rel = normal_rel +
  assumes R_viewChangeStore: "R n (n\<lparr>viewChangeStore :=
          gm_put \<lparr>vci_View = vc_View vc, vci_ReplicaId = vc_ReplicaId vc\<rparr> vc (viewChangeStore n)\<rparr>)"
    and R_newViewStore: "R n (n\<lparr>newViewStore := gm_put v nv (newViewStore n)\<rparr>)"
    and R_newViewStage: "R n (n\<lparr>newViewStage := gm_put v b (newViewStage n)\<rparr>)"
begin

section \<open>View changes\<close>

lemma h_announceNewView:
  "go_rel R n (\<lambda>x. x) (go_bind (broadcast E (NewViewM nv) exc n) (\<lambda>r. go_bind (report err r) (\<lambda>n.
     processNewView E err (n\<lparr>newViewStore := gm_put (currenView n) nv (newViewStore n),
       newViewStage := gm_put (currenView n) True (newViewStage n)\<rparr>))))"
proof (rule bind [OF broadcasting], rule bind [OF reporting])
  fix x :: Node
  have "R x (x\<lparr>newViewStore := gm_put (currenView x) nv (newViewStore x),
      newViewStage := gm_put (currenView x) True (newViewStage x)\<rparr>)"
    using R_trans [OF R_newViewStore [where v = "currenView x"] R_newViewStage [where v = "currenView x" and b = True]]
    by simp
  then show "go_rel R x (\<lambda>x. x) (processNewView E err (x\<lparr>newViewStore := gm_put (currenView x) nv (newViewStore x),
      newViewStage := gm_put (currenView x) True (newViewStage x)\<rparr>))"
    by (rule from_node [OF _ h_processNewView])
qed

lemma h_assign:
  assumes "\<And>x. go_rel R n nd (k x)" 
  shows "go_rel R n nd (go_bind (assignSequenceNumbers n vset sn) k)"
  using assms R_refl [of n]
  by (auto simp: assignSequenceNumbers_def Let_def split: option.split sum.split prod.split)

lemma h_sendNewView: "go_rel R n (\<lambda>x. x) (sendNewView E err n)"
proof -
  have a: "go_rel R (step_clock n) (\<lambda>x. x) (go_bind (assignSequenceNumbers (step_clock n) vset sn) (\<lambda>(msgList, ok).
      if \<not> ok then Ret (step_clock n)
      else (let nv = \<lparr>nv_View = currenView (step_clock n), nv_Vset = vs, nv_Oset = msgList,
                      nv_ReplicaId = replicaId (cfg (step_clock n))\<rparr>;
                excAddrs = gm_put (replicaId (cfg (step_clock n))) True []
            in if gm_get0 False (newViewStage (step_clock n)) (currenView (step_clock n)) then Ret (step_clock n)
               else go_bind (broadcast E (NewViewM nv) excAddrs (step_clock n)) (\<lambda>r.
                    go_bind (report err r) (\<lambda>n.
                    processNewView E err
                      (n\<lparr>newViewStore := gm_put (currenView n) nv (newViewStore n),
                         newViewStage := gm_put (currenView n) True (newViewStage n)\<rparr>))))))"
    for vset sn vs
    by (rule h_assign) (simp add: Let_def h_announceNewView R_refl split: prod.split)
  show ?thesis
    unfolding sendNewView_def Let_def
    using from_node [OF clock a [unfolded Let_def]] clock [of n]
    by (auto simp: case_prod_unfold R_refl simp del: go_bind.simps)
qed

lemma h_recvNewView: "go_rel R n (\<lambda>x. x) (recvNewView E nv err n)"
  unfolding recvNewView_def
  by (auto simp del: go_bind.simps simp: R_refl intro!: h_read_primary
      from_node [OF R_newViewStore h_processNewView])

lemma h_recvViewChange: "go_rel R n (\<lambda>x. x) (recvViewChange E vc err n)"
proof (cases "vc_View vc < currenView n")
  case True
  then show ?thesis by (simp add: recvViewChange_def R_refl)
next
  case False
  let ?n = "step_clock (step_clock n)"
  have n: "R n ?n" by (rule R_trans [OF clock clock])
  let ?idx = "\<lparr>vci_View = vc_View vc, vci_ReplicaId = vc_ReplicaId vc\<rparr>"
  let ?m = "?n\<lparr>viewChangeStore := gm_put ?idx vc (viewChangeStore ?n)\<rparr>"
  have m: "R n ?m" by (rule R_trans [OF n R_viewChangeStore])
  obtain replicas minView where l: "later_views (currenView ?m) (viewChangeStore ?m) = (replicas, minView)"
    by fastforce
  have join: "go_rel R x (\<lambda>x. x) (if b then sendViewChange E err (x\<lparr>currenView := v\<rparr>) else Ret x)" for x b v
    using from_node [OF R_currenView leaving_view] by (simp add: R_refl)
  have last: "go_rel R x (\<lambda>x. x) (if b then go_bind (primary x v) (\<lambda>leader.
      if leader = replicaId (cfg x) then sendNewView E err x else Ret x) else Ret x)" for x b v
    by (auto simp del: go_bind.simps simp: R_refl intro!: h_read_primary h_sendNewView)
  have "go_rel R ?m (\<lambda>x. x) (go_bind (if int (length replicas) \<ge> n_f (cfg ?m) + 1
          then sendViewChange E err (?m\<lparr>currenView := minView - 1\<rparr>) else Ret ?m) (\<lambda>n.
        if \<not> activeView n \<and> vc_View vc = currenView n \<and>
           quorum_for (currenView n) (viewChangeStore n) \<ge> viewChangeQuorum (cfg n)
        then go_bind (primary n (vc_View vc)) (\<lambda>leader.
          if leader = replicaId (cfg n) then sendNewView E err n else Ret n)
        else Ret n))"
    by (rule bind [OF join]) (rule last)
  from from_node [OF m this] False l n show ?thesis
    unfolding recvViewChange_def by (auto simp: Let_def R_refl simp del: go_bind.simps intro!: go_rel_read)
qed

lemma h_dispatch:
  assumes "\<And>m. Command rpc \<noteq> CheckpointM m" and "R n (receive (Command rpc) n)"
  shows "go_rel R n (\<lambda>x. x) (dispatch E ch rpc n)"
proof -
  have "go_rel R n (\<lambda>x. x) (go_bind (primary n v) (\<lambda>leader.
      if replicaId (cfg n) = leader then sendNewView E ch n else Ret n))" for v
    by (rule h_read_primary) (simp add: h_sendNewView R_refl)
  with assms(1) h_verified [OF assms(2)] show ?thesis
    by (auto simp: dispatch_def leaving_view split: message.split
      intro!: h_handlePrePrepareMsg h_handlePrepareMsg
        h_handleCommitMsg h_handlePrepareQc h_handleFastPrepareQc
        h_handleCommitQc h_recvViewChange h_recvNewView)
qed

text \<open>Every step but the delivery of a checkpoint message.\<close>

lemma h_node_step:
  assumes "node_step E p e q" and "proc_node p = Some n" and "proc_node q = Some n'"
    and no_ck: "\<And>m ck. e = Deliver m \<Longrightarrow> Command m \<noteq> CheckpointM ck"
    and note_msg: "\<And>m. e = Deliver m \<Longrightarrow> R n (receive (Command m) n)"
  shows "R n n'"
proof (cases "\<exists>m. e = Deliver m")
  case True
  then obtain m where m: "e = Deliver m" by blast
  with assms(1,2) have "q = main_outcome (dispatch E ErrCh m n)"
    by (cases rule: node_step.cases) auto
  with assms(3) no_ck [OF m] note_msg [OF m] show ?thesis by (auto intro: h_outcome(1) [OF h_dispatch])
next
  case False
  with h_quiet_step [OF assms(1-3)] show ?thesis by blast
qed

end

end
