(* ===== verification/Watermarks.thy ===== *)
theory Watermarks
  imports Handlers Quorums Runs
begin

text \<open>
  Checkpoints and the low watermark. The watermark moves only where \<open>recvCheckpoint\<close> moves
  it: forward, inside the window, and with a quorum of stored checkpoint messages of
  different replicas with one digest. The frame of theory \<open>Handlers\<close> shows that nothing
  else in the process touches the stores this rests on.
\<close>

section \<open>The window\<close>

lemma int_window:
  assumes "(0 :: int) \<le> s" and "h + k < m" and "d = (if h \<le> s then s - h else s - h + m)"
  shows "0 < d \<and> d \<le> k \<longleftrightarrow> h < s \<and> s \<le> h + k"
  using assms by auto

lemma window_iff:
  assumes "uint h + uint k < 2 ^ 32"
  shows "(sn :: u32) - h > 0 \<and> sn - h \<le> k \<longleftrightarrow> h < sn \<and> sn \<le> h + k"
proof -
  have "uint (h + k) = uint h + uint k" using assms by (simp add: uint_plus_if')
  moreover have "uint (sn - h) = (if uint h \<le> uint sn then uint sn - uint h else uint sn - uint h + 2 ^ 32)"
    by (simp add: uint_sub_if')
  from int_window [OF uint_ge_0 assms this]
  have "0 < uint (sn - h) \<and> uint (sn - h) \<le> uint k \<longleftrightarrow> uint h < uint sn \<and> uint sn \<le> uint h + uint k" .
  ultimately show ?thesis unfolding word_less_def word_le_def by simp
qed

lemma demo_started:
  "low_h (started (demo_conf f)) = 0" "n_K (cfg (started (demo_conf f))) = 10"
  "checkpointStore (started conf) = []" "low_h (started conf) = 0"
  by (simp_all add: started_def StartListen_def NewNode_def demo_conf_def config_New_def)

text \<open>
  With no overflow of the upper end, a number is in the watermarks of a node exactly
  when it is above the low watermark and at most \<open>K\<close> above it.
\<close>

theorem inWatermarks_window:
  assumes "uint (low_h n) + uint (n_K (cfg n)) < 2 ^ 32"
  shows "inWatermarks n sn \<longleftrightarrow> low_h n < sn \<and> sn \<le> low_h n + n_K (cfg n)"
  using window_iff [OF assms] by (simp add: inWatermarks_def)

theorem inWatermarks_window_witness:
  "inWatermarks (started (demo_conf 1)) 10 \<and> \<not> inWatermarks (started (demo_conf 1)) 11 \<and>
   \<not> inWatermarks (started (demo_conf 1)) 0"
  by (simp add: inWatermarks_window demo_started)

section \<open>What the rest of the process leaves alone\<close>

definition same_marks :: "Node \<Rightarrow> Node \<Rightarrow> bool" where
  "same_marks n n' \<longleftrightarrow> cfg n' = cfg n \<and> low_h n' = low_h n \<and> checkpointStore n' = checkpointStore n"

lemma getCert_marks [simp]:
  "cfg (snd (getCert idx n)) = cfg n" "low_h (snd (getCert idx n)) = low_h n"
  "checkpointStore (snd (getCert idx n)) = checkpointStore n"
  "viewChangeStore (snd (getCert idx n)) = viewChangeStore n"
  by (simp_all add: getCert_def split: option.split)

lemma modCert_marks [simp]:
  "low_h (modCert idx g n) = low_h n" "checkpointStore (modCert idx g n) = checkpointStore n"
  "viewChangeStore (modCert idx g n) = viewChangeStore n"
  by (simp_all add: modCert_def case_prod_unfold Let_def)

interpretation marks: handler_rel same_marks
  by unfold_locales (auto simp: same_marks_def step_clock_def spawn_def add_trace_def init_partials_def Let_def)

section \<open>Stored checkpoints\<close>

text \<open>Every checkpoint message is stored under its number, once.\<close>

definition marks_wf :: "Node \<Rightarrow> bool" where
  "marks_wf n \<longleftrightarrow> (\<forall>sn store. gm_get (checkpointStore n) sn = Some store \<longrightarrow>
     gm_wf store \<and> (\<forall>ck \<in> set (gm_keys store). ck_SeqN ck = sn))"

text \<open>The replicas whose stored checkpoint messages for a number carry a digest.\<close>

definition ck_voters :: "Node \<Rightarrow> u32 \<Rightarrow> string \<Rightarrow> u32 set" where
  "ck_voters n sn d =
     {ck_ReplicaId ck |ck. ck \<in> set (gm_keys (gm_get0 [] (checkpointStore n) sn)) \<and> ck_StateDigest ck = d}"

lemma gm_get0_wf:
  assumes "marks_wf n"
  shows "gm_wf (gm_get0 [] (checkpointStore n) sn) \<and>
    (\<forall>ck \<in> set (gm_keys (gm_get0 [] (checkpointStore n) sn)). ck_SeqN ck = sn)"
proof (cases "gm_get (checkpointStore n) sn")
  case None
  then show ?thesis by (simp add: gm_get0_def gm_keys_def)
next
  case (Some store)
  with assms show ?thesis by (simp add: gm_get0_def marks_wf_def)
qed

text \<open>Matching messages come from as many replicas.\<close>

lemma count_matching_voters:
  assumes "gm_wf store" and "\<forall>ck \<in> set (gm_keys store). ck_SeqN ck = sn"
  shows "count_matching d (gm_keys store) =
    card (ck_ReplicaId ` {ck \<in> set (gm_keys store). ck_StateDigest ck = d})"
proof -
  let ?M = "{ck \<in> set (gm_keys store). ck_StateDigest ck = d}"
  have "inj_on ck_ReplicaId ?M"
    using assms(2) by (intro inj_onI CheckpointMsg.equality) auto
  moreover have "count_matching d (gm_keys store) = card ?M"
    using gm.wf_distinct [OF assms(1)] by (simp add: count_matching_def flip: distinct_card)
  ultimately show ?thesis by (simp add: card_image)
qed

definition stable_mark :: "Node \<Rightarrow> bool" where
  "stable_mark n \<longleftrightarrow> low_h n = 0 \<or> (\<exists>d. checkpoint_quorum (cfg n) \<le> int (card (ck_voters n (low_h n) d)))"

lemma recvCheckpoint_wf: "marks_wf n \<Longrightarrow> marks_wf (recvCheckpoint ck err n)"
  using gm_get0_wf [of n "ck_SeqN ck"]
  by (auto simp: marks_wf_def recvCheckpoint_def Let_def moveWatermarks_def gm_get_put gm.set_keys_put split: if_splits)

lemma recvCheckpoint_moves:
  assumes "marks_wf n" and "low_h (recvCheckpoint ck err n) \<noteq> low_h n"
  shows "low_h (recvCheckpoint ck err n) = ck_SeqN ck" and "inWatermarks n (ck_SeqN ck)"
    and "checkpoint_quorum (cfg n) \<le>
      int (card (ck_voters (recvCheckpoint ck err n) (ck_SeqN ck) (ck_StateDigest ck)))"
proof -
  let ?store = "gm_put ck True (gm_get0 [] (checkpointStore n) (ck_SeqN ck))"
  from assms(2) show "low_h (recvCheckpoint ck err n) = ck_SeqN ck" and "inWatermarks n (ck_SeqN ck)"
    by (auto simp: recvCheckpoint_def moveWatermarks_def Let_def split: if_splits)
  from assms(2) have q: "checkpoint_quorum (cfg n) \<le> int (count_matching (ck_StateDigest ck) (gm_keys ?store))"
    and st: "checkpointStore (recvCheckpoint ck err n) = gm_put (ck_SeqN ck) ?store (checkpointStore n)"
    by (auto simp: recvCheckpoint_def moveWatermarks_def Let_def split: if_splits)
  have "gm_wf ?store" "\<forall>c \<in> set (gm_keys ?store). ck_SeqN c = ck_SeqN ck"
    using gm_get0_wf [OF assms(1), of "ck_SeqN ck"] by (auto simp: gm.set_keys_put)
  from count_matching_voters [OF this] q
  show "checkpoint_quorum (cfg n) \<le> int (card (ck_voters (recvCheckpoint ck err n) (ck_SeqN ck) (ck_StateDigest ck)))"
    by (simp add: ck_voters_def st gm_get0_put setcompr_eq_image conj_commute)
qed

section \<open>The process\<close>

lemma step_checkpoint:
  assumes "node_step E p (Deliver m) q" and "proc_node p = Some n" and "proc_node q = Some n'"
    and "Command m = CheckpointM ck"
  shows "n' = recvCheckpoint ck ErrCh (receive (CheckpointM ck) n)"
proof -
  from assms(1-3) have d: "proc_node (main_outcome (dispatch E ErrCh m n)) = Some n'"
    by (cases rule: node_step.cases) auto
  obtain r :: "(Node, bool) go" where r: "verifyRsaSignature E (Command m) (ck_ReplicaId ck) (Sig m) n = r" by blast
  have "go_reads r" unfolding r [symmetric] by (rule go_reads_sigs(2))
  then have "\<forall>x. r \<noteq> Block x" by (simp add: go_reads_def)
  with d assms(4) r show ?thesis
    by (cases r) (auto simp: dispatch_def verified_def main_outcome_def split: if_splits)
qed

lemma step_marks:
  assumes "node_step E p e q" and "proc_node p = Some n" and "proc_node q = Some n'"
  shows "same_marks n n' \<or> (\<exists>ck. n' = recvCheckpoint ck ErrCh (receive (CheckpointM ck) n))"
proof (cases "\<exists>m ck. e = Deliver m \<and> Command m = CheckpointM ck")
  case True
  with step_checkpoint [OF _ assms(2,3)] assms(1) show ?thesis by blast
next
  case False
  then show ?thesis by (intro disjI1 marks.h_node_step [OF assms]) (auto simp: same_marks_def receive_def)
qed

lemma ck_voters_mono:
  assumes "marks_wf n"
  shows "finite (ck_voters n sn d)" and "ck_voters n sn d \<subseteq> ck_voters (recvCheckpoint ck err n) sn d"
proof -
  show "finite (ck_voters n sn d)" by (simp add: ck_voters_def setcompr_eq_image)
  show "ck_voters n sn d \<subseteq> ck_voters (recvCheckpoint ck err n) sn d"
    by (auto simp: ck_voters_def recvCheckpoint_def moveWatermarks_def Let_def gm_get0_put gm.set_keys_put)
qed

lemma recvCheckpoint_stable:
  assumes "marks_wf n" and "stable_mark n"
  shows "stable_mark (recvCheckpoint ck err n)"
proof (cases "low_h (recvCheckpoint ck err n) = low_h n")
  case True
  have c: "cfg (recvCheckpoint ck err n) = cfg n"
    by (simp add: recvCheckpoint_def moveWatermarks_def Let_def)
  have grow: "card (ck_voters n (low_h n) d) \<le> card (ck_voters (recvCheckpoint ck err n) (low_h n) d)" for d
    by (rule card_mono [OF ck_voters_mono(1) ck_voters_mono(2)]) (use assms(1) recvCheckpoint_wf in auto)
  show ?thesis
  proof (cases "low_h n = 0")
    case False
    with assms(2) obtain d where "checkpoint_quorum (cfg n) \<le> int (card (ck_voters n (low_h n) d))"
      by (auto simp: stable_mark_def)
    with grow [of d] have "checkpoint_quorum (cfg n) \<le> int (card (ck_voters (recvCheckpoint ck err n) (low_h n) d))"
      by linarith
    with True c show ?thesis by (auto simp: stable_mark_def)
  qed (simp add: stable_mark_def True)
next
  case False
  have c: "cfg (recvCheckpoint ck err n) = cfg n"
    by (simp add: recvCheckpoint_def moveWatermarks_def Let_def)
  from recvCheckpoint_moves [OF assms(1) False] c show ?thesis by (auto simp: stable_mark_def)
qed

lemma marks_receive:
  "marks_wf (receive m n) = marks_wf n" "stable_mark (receive m n) = stable_mark n"
  "low_h (receive m n) = low_h n" "inWatermarks (receive m n) = inWatermarks n"
  by (simp_all add: receive_def marks_wf_def stable_mark_def ck_voters_def inWatermarks_def fun_eq_iff)

lemma reachable_marks:
  assumes "reachable E (started conf) p"
  shows "proc_ok (\<lambda>n. marks_wf n \<and> stable_mark n) p"
  using assms
proof (induction rule: reachable.induct)
  case start
  then show ?case by (simp add: marks_wf_def stable_mark_def demo_started)
next
  case (step p e q)
  show ?case
    unfolding proc_ok_node
  proof (intro allI impI)
    fix n' assume q: "proc_node q = Some n'"
    from step.hyps(2) obtain n where p: "proc_node p = Some n" by (cases rule: node_step.cases) auto
    with step.IH have n: "marks_wf n" "stable_mark n" by (auto simp: proc_ok_node)
    from step_marks [OF step.hyps(2) p q] show "marks_wf n' \<and> stable_mark n'"
    proof
      assume "same_marks n n'"
      with n show ?thesis by (simp add: same_marks_def marks_wf_def stable_mark_def ck_voters_def)
    next
      assume "\<exists>ck. n' = recvCheckpoint ck ErrCh (receive (CheckpointM ck) n)"
      with n marks_receive show ?thesis by (auto intro: recvCheckpoint_wf recvCheckpoint_stable)
    qed
  qed
qed

text \<open>
  C20: whenever the low watermark of a replica is not 0, the replica has stored checkpoint
  messages for that number, all with one digest, from as many different replicas as a
  checkpoint needs. This holds in every reachable state of the process.
\<close>

theorem watermark_is_stable:
  assumes "reachable E (started conf) p" and "proc_node p = Some n" and "low_h n \<noteq> 0"
  shows "\<exists>d. checkpoint_quorum (cfg n) \<le> int (card (ck_voters n (low_h n) d))"
  using reachable_marks [OF assms(1)] assms(2,3) by (auto simp: proc_ok_node stable_mark_def)

definition demo_checkpoint :: CheckpointMsg where
  "demo_checkpoint = \<lparr>ck_SeqN = 5, ck_StateDigest = [], ck_ReplicaId = 0\<rparr>"

definition marked_run :: "proc option" where
  "marked_run = run_events demo_env (Running (started (demo_conf 1))) [deliver_signed (CheckpointM demo_checkpoint)]"

lemma marked_run_result:
  "case marked_run of Some (Running n) \<Rightarrow> low_h n = 5 \<and> n_K (cfg n) = 10 | _ \<Rightarrow> False"
  by code_simp

lemma marked_run_reachable: "reachable demo_env (started (demo_conf 1)) (Running (node_after marked_run))"
  and marked_run_low: "low_h (node_after marked_run) = 5"
  and marked_run_step: "node_step demo_env (Running (started (demo_conf 1)))
    (deliver_signed (CheckpointM demo_checkpoint)) (Running (node_after marked_run))"
proof -
  from marked_run_result obtain n where n: "marked_run = Some (Running n)" "low_h n = 5"
    by (auto split: option.splits proc.splits)
  from n(1) have a: "node_after marked_run = n" unfolding node_after_def by (simp only: n(1) option.case proc.case)
  show "reachable demo_env (started (demo_conf 1)) (Running (node_after marked_run))"
    unfolding reachable_iff_run a using n(1) marked_run_def by metis
  show "low_h (node_after marked_run) = 5" unfolding a by (rule n(2))
  show "node_step demo_env (Running (started (demo_conf 1)))
      (deliver_signed (CheckpointM demo_checkpoint)) (Running (node_after marked_run))"
    unfolding node_step_iff a using n(1)
    by (simp add: marked_run_def del: proc_next.simps split: option.splits)
qed

theorem watermark_is_stable_witness:
  "low_h (node_after marked_run) = 5 \<and>
   (\<exists>d. checkpoint_quorum (cfg (node_after marked_run)) \<le> int (card (ck_voters (node_after marked_run) 5 d)))"
  using watermark_is_stable [OF marked_run_reachable, of "node_after marked_run"] by (simp add: marked_run_low)

lemma low_mark_forward:
  assumes "reachable E (started conf) p" and "node_step E p e q"
    and "proc_node p = Some n" and "proc_node q = Some n'"
    and "uint (low_h n) + uint (n_K (cfg n)) < 2 ^ 32"
  shows "low_h n \<le> low_h n' \<and> low_h n' \<le> low_h n + n_K (cfg n) \<and>
    (low_h n' \<noteq> low_h n \<longrightarrow> (\<exists>ck. n' = recvCheckpoint ck ErrCh (receive (CheckpointM ck) n) \<and> low_h n' = ck_SeqN ck))"
proof (cases "low_h n' = low_h n")
  case True
  have "uint (low_h n + n_K (cfg n)) = uint (low_h n) + uint (n_K (cfg n))"
    using assms(5) by (simp add: uint_plus_if')
  with True show ?thesis by (simp add: word_le_def)
next
  case False
  with step_marks [OF assms(2-4)] obtain ck where ck: "n' = recvCheckpoint ck ErrCh (receive (CheckpointM ck) n)"
    by (auto simp: same_marks_def)
  have "marks_wf (receive (CheckpointM ck) n)"
    using reachable_marks [OF assms(1)] assms(3) by (auto simp: proc_ok_node marks_receive)
  from recvCheckpoint_moves(1,2) [OF this, of ck ErrCh, unfolded marks_receive] False ck window_iff [OF assms(5), of "ck_SeqN ck"]
  show ?thesis by (auto simp: inWatermarks_def)
qed

text \<open>
  C21: a step of the process moves the low watermark only forward, to a number inside the
  window, and only when a checkpoint message is delivered (with no overflow of the upper end
  of the window).
\<close>

theorem watermark_moves_forward:
  assumes "reachable E (started conf) p" and "node_step E p e q"
    and "proc_node p = Some n" and "proc_node q = Some n'"
    and "uint (low_h n) + uint (n_K (cfg n)) < 2 ^ 32"
  shows "low_h n \<le> low_h n' \<and> low_h n' \<le> low_h n + n_K (cfg n) \<and>
    (low_h n' \<noteq> low_h n \<longrightarrow> (\<exists>ck. n' = recvCheckpoint ck ErrCh (receive (CheckpointM ck) n) \<and> low_h n' = ck_SeqN ck))"
  using assms by (rule low_mark_forward)

theorem watermark_moves_forward_witness:
  "low_h (started (demo_conf 1)) = 0 \<and> low_h (node_after marked_run) \<le> 10 \<and>
   (\<exists>ck :: CheckpointMsg. node_after marked_run = recvCheckpoint ck ErrCh (receive (CheckpointM ck) (started (demo_conf 1))) \<and> ck_SeqN ck = 5)"
  using watermark_moves_forward [OF reachable.start marked_run_step,
      of "started (demo_conf 1)" "node_after marked_run"]
  by (simp add: demo_started marked_run_low)

end
