(* ===== verification/LeaveView.thy ===== *)
theory LeaveView
  imports Runs
begin

text \<open>
  Leaving a view: what \<open>sendViewChange\<close> does to the node and what its message says, when
  another node accepts that message, and what the new primary computes from a set of them.
\<close>

section \<open>sendViewChange\<close>

lemma SignWithPrikey_ok: "blen key = 64 \<Longrightarrow> \<exists>sg. SignWithPrikey C d key = Ret (Some sg)"
  by (simp add: SignWithPrikey_def Let_def)

text \<open>The goroutines \<open>broadcast\<close> starts: one per address of the cluster.\<close>

definition sends :: "message \<Rightarrow> gobytes \<Rightarrow> (u32, string) gomap \<Rightarrow> task list" where
  "sends m sg addrs = map (\<lambda>(i, a). SendTask i a m sg) addrs"

lemma broadcast_correct_node:
  assumes "nodeType (cfg n) = 0" and "blen (myPrivateKey (cfg n)) = 64"
  shows "\<exists>sg ts. broadcast E m [] n = Ret (spawn ts (step_clock n), None) \<and>
    mset ts = mset (sends m sg (clusterAddr (cfg n)))"
proof -
  from SignWithPrikey_ok [OF assms(2), of "env_crypto E" "encode (j_message m)"] obtain sg where
    sg: "SignWithPrikey (env_crypto E) (encode (j_message m)) (myPrivateKey (cfg n)) = (Ret (Some sg) :: (Node, gobytes) go)"
    by blast
  let ?ts = "sends m (Some sg) (range_order (env_order E (clock n)) (clusterAddr (cfg n)))"
  have "broadcast E m [] n = Ret (spawn ?ts (step_clock n), None)"
    using sg assms(1) by (simp add: broadcast_def withholds_def encode_def sends_def)
  moreover have "mset ?ts = mset (sends m (Some sg) (clusterAddr (cfg n)))"
    by (simp add: sends_def mset_map)
  ultimately show ?thesis by blast
qed

lemma timer_ops_alive:
  assumes "newViewTimer n = Some t" and "timer_alive t"
  obtains t' where "stopTimer n = Ret (n\<lparr>timerActive := False, newViewTimer := Some t'\<rparr>)"
    and "timerChan t' = None" and "timer_alive t'"
proof -
  from timer.stop_ret [OF assms(2)] obtain t' where "Stop t = Ret t'" "timerChan t' = None" "timer_alive t'"
    by blast
  with that assms(1) show ?thesis by (auto simp: stopTimer_def on_timer_def)
qed

lemma startTimer_alive:
  assumes "newViewTimer n = Some t" and "timer_alive t"
  obtains t' where "startTimer d r n = Ret (n\<lparr>timerActive := True, newViewTimer := Some t'\<rparr>)"
    and "timerChan t' = Some d" and "timer_alive t'"
proof -
  from timer.reset_ret [OF assms(2)] obtain t' where "Reset d ViewChangeTimerM t = Ret t'"
    "timerChan t' = Some d" "timer_alive t'" by blast
  with that assms(1) show ?thesis by (auto simp: startTimer_def on_timer_def)
qed

text \<open>
  C26: a correctly configured node that leaves its view always completes: it is then in the
  next view, inactive, has recorded that it sent the view change, has one goroutine per
  address carrying the message of the new view, and its timer is running with the current
  timeout, which is doubled for the next time. The error channel does not matter.
\<close>

theorem sendViewChange_completes:
  assumes "newViewTimer n = Some t" and "timer_alive t"
    and "nodeType (cfg n) = 0" and "blen (myPrivateKey (cfg n)) = 64"
  shows "\<exists>n' t' sg vc. sendViewChange E err n = Ret n' \<and>
    currenView n' = currenView n + 1 \<and> \<not> activeView n' \<and>
    gm_get (viewChangeStage n') (currenView n') = Some True \<and>
    vc_View vc = currenView n' \<and> vc_LastStableCk vc = low_h n \<and> vc_ReplicaId vc = replicaId (cfg n) \<and>
    mset (gos n') = mset (gos n) + mset (sends (ViewChangeM vc) sg (clusterAddr (cfg n))) \<and>
    newViewTimer n' = Some t' \<and> timer_alive t' \<and> timerChan t' = Some (lastNewVewTimeout n) \<and>
    lastNewVewTimeout n' = lastNewVewTimeout n * 2"
proof -
  from timer_ops_alive [OF assms(1,2)] obtain t1 where
    stop: "stopTimer n = Ret (n\<lparr>timerActive := False, newViewTimer := Some t1\<rparr>)" and t1: "timer_alive t1" .
  define n1 where "n1 = n\<lparr>timerActive := False, newViewTimer := Some t1,
      currenView := currenView n + 1, activeView := False\<rparr>"
  define vc where "vc = viewChangeMsg E n1"
  define n2 where "n2 = (step_clock (step_clock n1))\<lparr>viewChangeStage :=
      gm_put (currenView n + 1) True (viewChangeStage n)\<rparr>"
  have n2: "cfg n2 = cfg n" "newViewTimer n2 = Some t1" "gos n2 = gos n" "lastNewVewTimeout n2 = lastNewVewTimeout n"
    "currenView n2 = currenView n + 1" "\<not> activeView n2"
    "viewChangeStage n2 = gm_put (currenView n + 1) True (viewChangeStage n)"
    by (simp_all add: n2_def n1_def step_clock_def)
  from broadcast_correct_node [of n2 E "ViewChangeM vc"] assms(3,4) n2(1) obtain sg ts where
    bc: "broadcast E (ViewChangeM vc) [] n2 = Ret (spawn ts (step_clock n2), None)"
    and ts: "mset ts = mset (sends (ViewChangeM vc) sg (clusterAddr (cfg n)))" by auto
  have "newViewTimer (spawn ts (step_clock n2)) = Some t1" by (simp add: spawn_def step_clock_def n2)
  from startTimer_alive [OF this t1] obtain t2 where
    start: "startTimer (lastNewVewTimeout n) ''new view change'' (spawn ts (step_clock n2)) =
      Ret ((spawn ts (step_clock n2))\<lparr>timerActive := True, newViewTimer := Some t2\<rparr>)"
    and t2: "timerChan t2 = Some (lastNewVewTimeout n)" "timer_alive t2" .
  let ?n' = "(spawn ts (step_clock n2))\<lparr>timerActive := True, newViewTimer := Some t2,
      lastNewVewTimeout := lastNewVewTimeout n * 2\<rparr>"
  have "sendViewChange E err n = Ret ?n'"
  proof -
    have "viewChangeMsg E (n\<lparr>timerActive := False, newViewTimer := Some t1,
        currenView := currenView n + 1, activeView := False\<rparr>) = vc" by (simp add: vc_def n1_def)
    moreover have "lastNewVewTimeout (spawn ts (step_clock n2)) = lastNewVewTimeout n"
      by (simp add: spawn_def step_clock_def n2)
    ultimately show ?thesis
      using bc start by (simp add: sendViewChange_def stop Let_def n2_def n1_def step_clock_def report_def)
  qed
  moreover have "vc_View vc = currenView n + 1" "vc_LastStableCk vc = low_h n" "vc_ReplicaId vc = replicaId (cfg n)"
    by (simp_all add: vc_def viewChangeMsg_def n1_def Let_def split: prod.split)
  ultimately show ?thesis
    using t2 ts by (intro exI [of _ ?n'] exI [of _ t2] exI [of _ sg] exI [of _ vc])
      (simp add: n2 spawn_def step_clock_def)
qed

lemma demo_keys:
  "newViewTimer (started (demo_conf f)) = Some newTimerImpl" "nodeType (cfg (started (demo_conf f))) = 0"
  "myPrivateKey (cfg (started (demo_conf f))) = Some (replicate 64 CHR ''k'')"
  "currenView (started (demo_conf f)) = 0" "lastNewVewTimeout (started (demo_conf f)) = 1000000000"
  by (simp_all add: started_def StartListen_def NewNode_def demo_conf_def config_New_def)

theorem sendViewChange_completes_witness:
  "\<exists>n'. sendViewChange demo_env NilCh (started (demo_conf 1)) = Ret n' \<and> currenView n' = 1 \<and>
    \<not> activeView n' \<and> lastNewVewTimeout n' = 2000000000"
  using sendViewChange_completes [of "started (demo_conf 1)" newTimerImpl demo_env NilCh]
  by (auto simp: demo_keys timer_alive_def newTimerImpl_def blen_def)

section \<open>The P and Q sets\<close>

definition pq_acc :: "u32 \<Rightarrow> (MsgId \<times> MsgCert) list \<Rightarrow> pset \<times> qset" where
  "pq_acc low xs = fold (pq_entry low) xs ([], [])"

lemma pq_acc_simps [simp]:
  "pq_acc low [] = ([], [])" "pq_acc low (xs @ [e]) = pq_entry low e (pq_acc low xs)"
  by (simp_all add: pq_acc_def)

lemma pq_entry_get:
  "gm_get (fst (pq_entry low (i, c) a)) sn =
     (if low < id_Sn i \<and> id_Sn i = sn \<and> prePrepareStore c \<noteq> None then Some (prePrepareStore c)
      else gm_get (fst a) sn)"
  "gm_get (snd (pq_entry low (i, c) a)) sn =
     (if low < id_Sn i \<and> id_Sn i = sn \<and> prepareQc c \<noteq> None then Some (prepareQc c)
      else gm_get (snd a) sn)"
  by (auto simp: pq_entry_def case_prod_unfold Let_def gm_get_put split: option.splits)

text \<open>Every entry comes from a certificate in the list.\<close>

lemma pq_sound_P:
  "gm_get (fst (pq_acc low xs)) sn = Some v \<Longrightarrow> low < sn \<and> v \<noteq> None \<and>
     (\<exists>idx cert. (idx, cert) \<in> set xs \<and> id_Sn idx = sn \<and> prePrepareStore cert = v)"
proof (induction xs rule: rev_induct)
  case (snoc e xs)
  obtain i c where "e = (i, c)" by fastforce
  with snoc show ?case by (auto simp: pq_entry_get split: if_splits dest!: sym [of "Some _"])
qed simp

lemma pq_sound_Q:
  "gm_get (snd (pq_acc low xs)) sn = Some w \<Longrightarrow> low < sn \<and> w \<noteq> None \<and>
     (\<exists>idx cert. (idx, cert) \<in> set xs \<and> id_Sn idx = sn \<and> prepareQc cert = w)"
proof (induction xs rule: rev_induct)
  case (snoc e xs)
  obtain i c where "e = (i, c)" by fastforce
  with snoc show ?case by (auto simp: pq_entry_get split: if_splits dest!: sym [of "Some _"])
qed simp

text \<open>Every certificate in the list has its entries.\<close>

lemma pq_complete_P:
  "(idx, cert) \<in> set xs \<Longrightarrow> low < id_Sn idx \<Longrightarrow> prePrepareStore cert \<noteq> None \<Longrightarrow>
     gm_get (fst (pq_acc low xs)) (id_Sn idx) \<noteq> None"
proof (induction xs rule: rev_induct)
  case (snoc e xs)
  obtain i c where "e = (i, c)" by fastforce
  with snoc show ?case by (auto simp: pq_entry_get)
qed simp

lemma pq_complete_Q:
  "(idx, cert) \<in> set xs \<Longrightarrow> low < id_Sn idx \<Longrightarrow> prepareQc cert \<noteq> None \<Longrightarrow>
     gm_get (snd (pq_acc low xs)) (id_Sn idx) \<noteq> None"
proof (induction xs rule: rev_induct)
  case (snoc e xs)
  obtain i c where "e = (i, c)" by fastforce
  with snoc show ?case by (auto simp: pq_entry_get)
qed simp

lemma calPQset_facts:
  assumes "gm_wf (reqCertStore n)" and "calPQset s n = (ps, qs)"
  shows "(\<forall>sn. gm_get ps sn \<noteq> None \<longleftrightarrow>
        low_h n < sn \<and> (\<exists>idx. id_Sn idx = sn \<and> prePrepareStore (certOf n idx) \<noteq> None)) \<and>
    (\<forall>sn. gm_get qs sn \<noteq> None \<longleftrightarrow>
        low_h n < sn \<and> (\<exists>idx. id_Sn idx = sn \<and> prepareQc (certOf n idx) \<noteq> None)) \<and>
    (\<forall>sn p. gm_get ps sn = Some p \<longrightarrow> p \<noteq> None \<and> (\<exists>idx. id_Sn idx = sn \<and> prePrepareStore (certOf n idx) = p)) \<and>
    (\<forall>sn q. gm_get qs sn = Some q \<longrightarrow> q \<noteq> None \<and> (\<exists>idx. id_Sn idx = sn \<and> prepareQc (certOf n idx) = q))"
proof -
  let ?xs = "range_order s (reqCertStore n)"
  have acc: "pq_acc (low_h n) ?xs = (ps, qs)"
    using assms(2) by (simp add: calPQset_def pq_acc_def)
  note sound_P = pq_sound_P [of "low_h n" ?xs, unfolded acc fst_conv]
    and sound_Q = pq_sound_Q [of "low_h n" ?xs, unfolded acc snd_conv]
    and complete_P = pq_complete_P [of _ _ ?xs "low_h n", unfolded acc fst_conv]
    and complete_Q = pq_complete_Q [of _ _ ?xs "low_h n", unfolded acc snd_conv]
  have mem: "(idx, cert) \<in> set ?xs \<Longrightarrow> certOf n idx = cert" for idx cert
    using gm_mem_iff [OF assms(1)] by (simp add: certOf_def gm_get0_def)
  have mem': "certOf n idx \<noteq> newCert \<Longrightarrow> (idx, certOf n idx) \<in> set ?xs" for idx
    using gm_mem_iff [OF assms(1)] by (auto simp: certOf_def gm_get0_def split: option.splits)
  have new: "prePrepareStore (certOf n idx) \<noteq> None \<Longrightarrow> certOf n idx \<noteq> newCert"
    "prepareQc (certOf n idx) \<noteq> None \<Longrightarrow> certOf n idx \<noteq> newCert" for idx
    by (auto simp: newCert_def)
  have p: "gm_get ps sn = Some v \<Longrightarrow> low_h n < sn \<and> v \<noteq> None \<and> (\<exists>idx. id_Sn idx = sn \<and> prePrepareStore (certOf n idx) = v)"
    for sn v using sound_P [of sn v] mem by blast
  have q: "gm_get qs sn = Some v \<Longrightarrow> low_h n < sn \<and> v \<noteq> None \<and> (\<exists>idx. id_Sn idx = sn \<and> prepareQc (certOf n idx) = v)"
    for sn v using sound_Q [of sn v] mem by blast
  have p': "prePrepareStore (certOf n idx) \<noteq> None \<Longrightarrow> low_h n < id_Sn idx \<Longrightarrow> gm_get ps (id_Sn idx) \<noteq> None" for idx
    using complete_P [OF mem' [OF new(1)]] by blast
  have q': "prepareQc (certOf n idx) \<noteq> None \<Longrightarrow> low_h n < id_Sn idx \<Longrightarrow> gm_get qs (id_Sn idx) \<noteq> None" for idx
    using complete_Q [OF mem' [OF new(2)]] by blast
  have 1: "gm_get ps sn \<noteq> None \<longleftrightarrow> low_h n < sn \<and> (\<exists>idx. id_Sn idx = sn \<and> prePrepareStore (certOf n idx) \<noteq> None)" for sn
    using p [of sn] p' by blast
  have 2: "gm_get qs sn \<noteq> None \<longleftrightarrow> low_h n < sn \<and> (\<exists>idx. id_Sn idx = sn \<and> prepareQc (certOf n idx) \<noteq> None)" for sn
    using q [of sn] q' by blast
  show ?thesis using 1 2 p q by blast
qed

lemmas calPQset_P_iff = calPQset_facts [THEN conjunct1, THEN spec]
  and calPQset_Q_iff = calPQset_facts [THEN conjunct2, THEN conjunct1, THEN spec]
  and calPQset_P_val = calPQset_facts [THEN conjunct2, THEN conjunct2, THEN conjunct1, rule_format]
  and calPQset_Q_val = calPQset_facts [THEN conjunct2, THEN conjunct2, THEN conjunct2, rule_format]

text \<open>
  C25: the P set of a view-change message has an entry for exactly the sequence numbers above
  the low watermark for which the node holds a pre-prepare, and each entry is such a
  pre-prepare, never nil; the Q set likewise for prepare certificates. The order of the
  loop over the certificates can only decide between certificates of different views.
\<close>

theorem calPQset_exact:
  assumes "gm_wf (reqCertStore n)" and "calPQset s n = (ps, qs)"
  shows "(\<forall>sn. gm_get ps sn \<noteq> None \<longleftrightarrow>
        low_h n < sn \<and> (\<exists>idx. id_Sn idx = sn \<and> prePrepareStore (certOf n idx) \<noteq> None)) \<and>
    (\<forall>sn. gm_get qs sn \<noteq> None \<longleftrightarrow>
        low_h n < sn \<and> (\<exists>idx. id_Sn idx = sn \<and> prepareQc (certOf n idx) \<noteq> None)) \<and>
    (\<forall>sn p. gm_get ps sn = Some p \<longrightarrow> p \<noteq> None \<and> (\<exists>idx. id_Sn idx = sn \<and> prePrepareStore (certOf n idx) = p)) \<and>
    (\<forall>sn q. gm_get qs sn = Some q \<longrightarrow> q \<noteq> None \<and> (\<exists>idx. id_Sn idx = sn \<and> prepareQc (certOf n idx) = q))"
  using assms by (rule calPQset_facts)

lemma gm_wf_modCert: "gm_wf (reqCertStore n) \<Longrightarrow> gm_wf (reqCertStore (modCert idx g n))"
  by (simp add: modCert_def getCert_def Let_def split: option.split)

definition demo_prepared :: Node where
  "demo_prepared = modCert (mkId 10 0) (\<lambda>c. c\<lparr>prePrepareStore := Some (demo_proposal\<lparr>ppm_SN := 10\<rparr>)\<rparr>)
     (started (demo_conf 1))"

lemma demo_prepared_facts:
  "gm_wf (reqCertStore demo_prepared)" "low_h demo_prepared = 0" "n_K (cfg demo_prepared) = 10"
  "certOf demo_prepared idx = (if idx = mkId 10 0 then newCert\<lparr>prePrepareStore := Some (demo_proposal\<lparr>ppm_SN := 10\<rparr>)\<rparr>
     else newCert)"
proof -
  have empty: "reqCertStore (started (demo_conf 1)) = []" "low_h (started (demo_conf 1)) = 0"
    "n_K (cfg (started (demo_conf 1))) = 10"
    by (simp_all add: started_def StartListen_def NewNode_def demo_conf_def config_New_def)
  show "gm_wf (reqCertStore demo_prepared)"
    unfolding demo_prepared_def by (rule gm_wf_modCert) (simp add: empty)
  show "low_h demo_prepared = 0" "n_K (cfg demo_prepared) = 10"
    by (simp_all add: demo_prepared_def modCert_def getCert_def empty)
  show "certOf demo_prepared idx = (if idx = mkId 10 0 then newCert\<lparr>prePrepareStore := Some (demo_proposal\<lparr>ppm_SN := 10\<rparr>)\<rparr>
     else newCert)"
    by (simp add: demo_prepared_def certOf_modCert) (simp add: certOf_def empty)
qed

theorem calPQset_exact_witness:
  "gm_get (fst (calPQset 7 demo_prepared)) 10 \<noteq> None \<and> gm_get (fst (calPQset 7 demo_prepared)) 4 = None \<and>
   gm_get (snd (calPQset 7 demo_prepared)) 10 = None"
proof -
  note ex = calPQset_exact [OF demo_prepared_facts(1) surjective_pairing, of 7, unfolded demo_prepared_facts(2)]
  have p: "id_Sn idx = sn \<and> prePrepareStore (certOf demo_prepared idx) \<noteq> None \<longleftrightarrow> idx = mkId 10 0 \<and> sn = 10"
    and q: "prepareQc (certOf demo_prepared idx) = None" for idx sn
    by (auto simp: demo_prepared_facts newCert_def)
  have P: "gm_get (fst (calPQset 7 demo_prepared)) sn \<noteq> None \<longleftrightarrow> 0 < sn \<and> (\<exists>idx. idx = mkId 10 0 \<and> sn = 10)" for sn
    using ex [THEN conjunct1] unfolding p by (rule spec)
  have Q: "gm_get (snd (calPQset 7 demo_prepared)) 10 = None"
    using ex [THEN conjunct2, THEN conjunct1] by (simp add: q)
  from P [of 10] P [of 4] Q show ?thesis by simp
qed

end
