(* ===== verification/NewPrimary.thy ===== *)
theory NewPrimary
  imports LeaveView ConfigGen
begin

text \<open>
  What a node accepts as a view-change message, and what the new primary computes from the
  messages of a view: the sequence number to start from and a request batch for every
  number of the window.
\<close>

section \<open>Accepting a view-change message\<close>

definition p_entry_ok :: "ViewChangeMsg \<Rightarrow> u32 \<Rightarrow> PrePrepareMsg \<Rightarrow> bool" where
  "p_entry_ok vc k p \<longleftrightarrow> ppm_View p < vc_View vc \<and> ppm_SN p > vc_LastStableCk vc \<and>
     ppm_SN p < vc_LastStableCk vc + k"

definition q_entry_ok :: "env \<Rightarrow> PubPoly \<Rightarrow> PrepareQc \<Rightarrow> bool" where
  "q_entry_ok E pub q \<longleftrightarrow>
     verifyThresholdSig E (j_VoteForPrepare (pqc_vote q)) pub (pqc_ThresholdSig q)"

lemma pset_check_all:
  "None \<notin> set ps \<Longrightarrow> pset_check vc k ps = Ret (\<forall>p. Some p \<in> set ps \<longrightarrow> p_entry_ok vc k p)"
  by (induction vc k ps rule: pset_check.induct) (auto simp: p_entry_ok_def)

lemma qset_check_all:
  "None \<notin> set qs \<Longrightarrow> qset_check E pub qs = Ret (\<forall>q. Some q \<in> set qs \<longrightarrow> q_entry_ok E pub q)"
  by (induction E pub qs rule: qset_check.induct) (auto simp: q_entry_ok_def)

lemma correctViewChange_eq:
  assumes "None \<notin> set (map snd (vc_Pset vc))" and "None \<notin> set (map snd (vc_Qset vc))"
  shows "correctViewChange E vc n = Ret
    ((\<forall>p. Some p \<in> set (map snd (vc_Pset vc)) \<longrightarrow> p_entry_ok vc (n_K (cfg n)) p) \<and>
     (\<forall>q. Some q \<in> set (map snd (vc_Qset vc)) \<longrightarrow> q_entry_ok E (tsPubKey (cfg n)) q) \<and>
     (\<forall>c \<in> set (slice_of (vc_Cset vc)). ck_SeqN c = vc_LastStableCk vc))"
proof -
  let ?ps = "map snd (range_order (env_order E (clock n)) (vc_Pset vc))"
  let ?qs = "map snd (range_order (env_order E (Suc (clock n))) (vc_Qset vc))"
  have sets: "set ?ps = set (map snd (vc_Pset vc))" "set ?qs = set (map snd (vc_Qset vc))" by simp_all
  from pset_check_all [of ?ps vc "n_K (cfg n)"] assms(1)
  have p: "pset_check vc (n_K (cfg n)) ?ps =
      Ret (\<forall>p. Some p \<in> set (map snd (vc_Pset vc)) \<longrightarrow> p_entry_ok vc (n_K (cfg n)) p)"
    unfolding sets by simp
  from qset_check_all [of ?qs E "tsPubKey (cfg n)"] assms(2)
  have q: "qset_check E (tsPubKey (cfg n)) ?qs =
      Ret (\<forall>q. Some q \<in> set (map snd (vc_Qset vc)) \<longrightarrow> q_entry_ok E (tsPubKey (cfg n)) q)"
    unfolding sets by simp
  show ?thesis by (simp add: correctViewChange_def p q list_all_iff del: set_map)
qed

text \<open>
  C24: without nil entries, a view-change message is accepted exactly when every pre-prepare
  is of an earlier view with a number strictly inside the window above the claimed
  checkpoint, every prepare certificate verifies, and every checkpoint message is for the
  claimed number. The orders of the three loops do not matter, and nothing panics.
\<close>

theorem correctViewChange_exact:
  assumes "None \<notin> set (map snd (vc_Pset vc))" and "None \<notin> set (map snd (vc_Qset vc))"
  shows "correctViewChange E vc n = Ret
    ((\<forall>p. Some p \<in> set (map snd (vc_Pset vc)) \<longrightarrow> p_entry_ok vc (n_K (cfg n)) p) \<and>
     (\<forall>q. Some q \<in> set (map snd (vc_Qset vc)) \<longrightarrow> q_entry_ok E (tsPubKey (cfg n)) q) \<and>
     (\<forall>c \<in> set (slice_of (vc_Cset vc)). ck_SeqN c = vc_LastStableCk vc))"
  using assms by (rule correctViewChange_eq)

definition demo_vc :: "PrePrepareMsg option \<Rightarrow> ViewChangeMsg" where
  "demo_vc p = \<lparr>vc_View = 1, vc_LastStableCk = 0, vc_Cset = None, vc_Pset = [(1, p)], vc_Qset = [], vc_ReplicaId = 0\<rparr>"

theorem correctViewChange_exact_witness:
  "correctViewChange demo_env (demo_vc (Some demo_proposal)) demo_prepared = Ret True \<and>
   correctViewChange demo_env (demo_vc (Some (demo_proposal\<lparr>ppm_SN := 10\<rparr>))) demo_prepared = Ret False"
  using correctViewChange_exact [of "demo_vc (Some demo_proposal)" demo_env demo_prepared]
    correctViewChange_exact [of "demo_vc (Some (demo_proposal\<lparr>ppm_SN := 10\<rparr>))" demo_env demo_prepared]
  by (simp add: demo_vc_def p_entry_ok_def demo_proposal_def demo_prepared_facts)

text \<open>
  C38: a node that holds a pre-prepare for the last number of its window, which it accepts as
  inside the watermarks, sends view-change messages that every node with the same window
  size rejects: the check leaves that number out. The window is not empty and its end does not
  wrap around.
\<close>

theorem viewChange_rejected_at_window_end:
  assumes "gm_wf (reqCertStore n)"
    and filed: "\<And>idx p. prePrepareStore (certOf n idx) = Some p \<Longrightarrow> ppm_SN p = id_Sn idx"
    and "id_Sn idx = low_h n + n_K (cfg n)" and "prePrepareStore (certOf n idx) \<noteq> None"
    and "low_h n < low_h n + n_K (cfg n)" and "n_K (cfg m) = n_K (cfg n)"
  shows "inWatermarks n (id_Sn idx) \<and> correctViewChange E' (viewChangeMsg E n) m = Ret False"
proof -
  let ?vc = "viewChangeMsg E n"
  obtain ps qs where pq: "calPQset (env_order E (clock n)) n = (ps, qs)" by fastforce
  have vc: "vc_Pset ?vc = ps" "vc_Qset ?vc = qs" "vc_LastStableCk ?vc = low_h n"
    by (simp_all add: viewChangeMsg_def pq Let_def)
  from assms(5) have "n_K (cfg n) \<noteq> 0" by (metis add.right_neutral less_irrefl)
  with assms(3,5) have "inWatermarks n (id_Sn idx)"
    by (simp add: inWatermarks_def word_gt_0)
  have wf: "gm_wf (snd (pq_acc l xs))" "gm_wf (fst (pq_acc l xs))" for l xs
    by (induction xs rule: rev_induct) (auto simp: pq_entry_def case_prod_unfold Let_def split: option.split)
  have wfs: "gm_wf ps" "gm_wf qs"
    using wf [where xs = "range_order (env_order E (clock n)) (reqCertStore n)" and l = "low_h n"] pq
    by (simp_all add: calPQset_def pq_acc_def)
  have vals: "v \<in> set (map snd ps) \<longleftrightarrow> (\<exists>sn. gm_get ps sn = Some v)"
    "w \<in> set (map snd qs) \<longleftrightarrow> (\<exists>sn. gm_get qs sn = Some w)" for v w
    by (simp_all only: gm_vals_iff [OF wfs(1)] gm_vals_iff [OF wfs(2)])
  have nP: "None \<notin> set (map snd ps)"
    unfolding vals using calPQset_P_val [OF assms(1) pq] by blast
  have nQ: "None \<notin> set (map snd qs)"
    unfolding vals using calPQset_Q_val [OF assms(1) pq] by blast
  have "\<not> (\<forall>p. Some p \<in> set (map snd ps) \<longrightarrow> p_entry_ok ?vc (n_K (cfg m)) p)"
  proof -
    have "gm_get ps (id_Sn idx) \<noteq> None"
      using calPQset_P_iff [OF assms(1) pq] assms(3,4,5) by metis
    then obtain v where v: "gm_get ps (id_Sn idx) = Some v" by blast
    from calPQset_P_val [OF assms(1) pq v]
    obtain p j where j: "v = Some p" "id_Sn j = id_Sn idx" "prePrepareStore (certOf n j) = Some p" by auto
    have "Some p \<in> set (map snd ps)" unfolding vals using v j(1) by blast
    moreover have "ppm_SN p = low_h n + n_K (cfg n)" using filed [OF j(3)] j(2) assms(3) by simp
    ultimately show ?thesis using assms(6) by (auto simp: p_entry_ok_def vc)
  qed
  with correctViewChange_eq [of ?vc E' m, unfolded vc(1,2), OF nP nQ]
  have "correctViewChange E' ?vc m = Ret False" by (simp only: simp_thms)
  with \<open>inWatermarks n (id_Sn idx)\<close> show ?thesis ..
qed

theorem viewChange_rejected_at_window_end_witness:
  "inWatermarks demo_prepared 10 \<and>
   correctViewChange demo_env (viewChangeMsg demo_env demo_prepared) demo_prepared = Ret False"
proof -
  have "ppm_SN p = id_Sn idx" if "prePrepareStore (certOf demo_prepared idx) = Some p" for idx p
    using that by (auto simp: demo_prepared_facts newCert_def split: if_splits)
  from viewChange_rejected_at_window_end [of demo_prepared "mkId 10 0" demo_prepared demo_env demo_env, OF _ this]
  show ?thesis by (simp add: demo_prepared_facts)
qed

text \<open>A nil entry in the P set that is reached makes the check panic.\<close>

lemma pset_check_nil: "\<lbrakk>None \<in> set ps; \<And>p. Some p \<in> set ps \<Longrightarrow> p_entry_ok vc k p\<rbrakk> \<Longrightarrow>
    pset_check vc k ps = Panic NilDereference"
  by (induction vc k ps rule: pset_check.induct) (auto simp: p_entry_ok_def)

section \<open>The starting number\<close>

lemma select_fold:
  "fold (\<lambda>vc (sn, ok). if sn \<le> vc_LastStableCk vc then (vc_LastStableCk vc, True) else (sn, ok)) vset (sn, True)
     = (fold max (map vc_LastStableCk vset) sn, True)"
  by (induction vset arbitrary: sn) (auto simp: max_def)

text \<open>
  The new primary starts from the largest stable checkpoint the messages claim, and
  reports success exactly when there is a message.
\<close>

theorem selectInitialSequence_max:
  "selectInitialSequence vset =
     (if vset = [] then (0, False) else (Max (vc_LastStableCk ` set vset), True))"
proof (cases vset)
  case (Cons vc vcs)
  have "selectInitialSequence vset = (fold max (map vc_LastStableCk vcs) (vc_LastStableCk vc), True)"
    using select_fold [of vcs "vc_LastStableCk vc"] by (simp add: selectInitialSequence_def Cons)
  also have "fold max (map vc_LastStableCk vcs) (vc_LastStableCk vc) = Max (set (map vc_LastStableCk vset))"
    by (simp only: Cons list.map Max.set_eq_fold)
  finally show ?thesis by (simp add: Cons)
qed (simp add: selectInitialSequence_def)

end
