(* ===== verification/SlotAssign.thy ===== *)
theory SlotAssign
  imports NewPrimary Quorums
begin

text \<open>
  How the new primary assigns a request batch to every number of its window: what the loop of
  \<open>assignSequenceNumbers\<close> computes and when it does not end, and why a digest that a fast
  certificate was made for keeps its number in the next view.
\<close>

section \<open>The loop over the window\<close>

text \<open>No message has a nil pre-prepare for the number.\<close>

definition no_nil :: "ViewChangeMsg list \<Rightarrow> u32 \<Rightarrow> bool" where
  "no_nil vset s \<longleftrightarrow> (\<forall>vc \<in> set vset. gm_get (vc_Pset vc) s \<noteq> Some None)"

lemma scan_no_nil: "no_nil vset s \<Longrightarrow> \<exists>r. scan_vset s vset dv db = Inr r"
  by (induction vset arbitrary: dv db) (auto simp: no_nil_def Let_def split: option.split)

lemma slot_no_nil: "no_nil vset s \<Longrightarrow> \<exists>r. assign_slot q vset s = Inr r"
  using scan_no_nil [of vset s "[]" "[]"] by (auto simp: assign_slot_def Let_def split: sum.split)

text \<open>The batch of a slot, if the code sets one, and whether the slot lets the assignment succeed.\<close>

definition slot :: "int \<Rightarrow> ViewChangeMsg list \<Rightarrow> u32 \<Rightarrow> RequestBatch option \<times> bool" where
  "slot q vset s = (case assign_slot q vset s of Inl p \<Rightarrow> (None, False) | Inr r \<Rightarrow> r)"

definition put_slot ::
  "int \<Rightarrow> ViewChangeMsg list \<Rightarrow> u32 \<Rightarrow> (u32, RequestBatch) gomap \<Rightarrow> (u32, RequestBatch) gomap" where
  "put_slot q vset s m = (case fst (slot q vset s) of None \<Rightarrow> m | Some b \<Rightarrow> gm_put s b m)"

lemma assign_body_slot:
  "no_nil vset s \<Longrightarrow>
   assign_body q vset (Inr (s, m, ok)) = Inr (s + 1, put_slot q vset s m, ok \<and> snd (slot q vset s))"
  using slot_no_nil [of vset s q]
  by (auto simp: assign_body_def slot_def put_slot_def split: prod.split)

lemma unat_u32_of_nat: "j < 2 ^ 32 \<Longrightarrow> unat (of_nat j :: u32) = j"
  by (simp add: unat_of_nat)

lemma assign_run:
  assumes "\<And>s. no_nil vset s" and "unat max_s < 2 ^ 32 - 1" and "unat s + k = unat max_s + 1"
  shows "while_option (assign_cond max_s) (assign_body q vset) (Inr (s, m, ok)) =
    Some (Inr (max_s + 1, fold (put_slot q vset) (map of_nat [unat s..<unat s + k]) m,
      ok \<and> (\<forall>j \<in> {unat s..<unat s + k}. snd (slot q vset (of_nat j)))))"
  using assms(3)
proof (induction k arbitrary: s m ok)
  case 0
  have "unat (max_s + 1) = unat max_s + 1"
    using assms(2) by (subst unat_add_lem [THEN iffD1]) auto
  with 0 have "s = max_s + 1" by (simp add: word_unat_eq_iff)
  moreover have "\<not> max_s + 1 \<le> max_s"
    using \<open>unat (max_s + 1) = unat max_s + 1\<close> by (simp add: word_le_nat_alt)
  ultimately show ?case by (subst while_option_unfold) (simp add: assign_cond_def)
next
  case (Suc k)
  have le: "s \<le> max_s" using Suc.prems by (simp add: word_le_nat_alt)
  have s1: "unat (s + 1) = unat s + 1"
    using assms(2) Suc.prems by (subst unat_add_lem [THEN iffD1]) auto
  with Suc.prems have "unat (s + 1) + k = unat max_s + 1" by simp
  note IH = Suc.IH [OF this, of "put_slot q vset s m" "ok \<and> snd (slot q vset s)"]
  have list: "[unat s..<unat s + Suc k] = unat s # [unat (s + 1)..<unat (s + 1) + k]"
    by (simp add: s1 upt_conv_Cons)
  have set: "{unat s..<unat s + Suc k} = insert (unat s) {unat (s + 1)..<unat (s + 1) + k}"
    by (auto simp: s1)
  have "while_option (assign_cond max_s) (assign_body q vset) (Inr (s, m, ok)) =
      while_option (assign_cond max_s) (assign_body q vset)
        (Inr (s + 1, put_slot q vset s m, ok \<and> snd (slot q vset s)))"
    by (subst while_option_unfold) (simp add: assign_cond_def le assign_body_slot [OF assms(1)])
  then show ?case unfolding IH list set by (simp add: conj_assoc)
qed

lemma put_slot_wf: "gm_wf m \<Longrightarrow> gm_wf (put_slot q vset s m)"
  by (simp add: put_slot_def split: option.split)

lemma put_slots_get:
  assumes "distinct xs"
  shows "gm_get (fold (put_slot q vset) xs m) s =
    (if s \<in> set xs \<and> fst (slot q vset s) \<noteq> None then fst (slot q vset s) else gm_get m s)"
  using assms
  by (induction xs arbitrary: m) (auto simp: put_slot_def gm_get_put split: option.split)

text \<open>The numbers of the window, as the loop counts through them.\<close>

lemma window_numbers:
  fixes sn K :: u32
  assumes "unat sn + 1 + unat K < 2 ^ 32"
  defines "js \<equiv> [unat (sn + 1)..<unat (sn + 1) + unat K]"
  shows "unat (sn + K) = unat sn + unat K" and "unat (sn + 1) = unat sn + 1"
    and "of_nat ` set js = {s. sn < s \<and> s \<le> sn + K}" and "distinct (map of_nat js :: u32 list)"
proof -
  show max: "unat (sn + K) = unat sn + unat K" and min: "unat (sn + 1) = unat sn + 1"
    using assms(1) by (subst unat_add_lem [THEN iffD1]; auto)+
  have lt: "j < 2 ^ 32" if "j \<in> set js" for j
    using that assms(1) unfolding js_def min set_upt atLeastLessThan_iff by (blast intro: less_trans)
  have "s \<in> of_nat ` set js \<longleftrightarrow> sn < s \<and> s \<le> sn + K" for s :: u32
  proof
    assume "s \<in> of_nat ` set js"
    then obtain j where "s = of_nat j" "j \<in> set js" by blast
    then have j: "s = of_nat j" "unat sn < j" "j \<le> unat sn + unat K" by (auto simp: min js_def)
    with assms(1) have "unat s = j" by (simp add: unat_u32_of_nat)
    with j show "sn < s \<and> s \<le> sn + K" by (simp add: word_less_nat_alt word_le_nat_alt max)
  next
    assume "sn < s \<and> s \<le> sn + K"
    then have "unat s \<in> set js" by (auto simp: word_less_nat_alt word_le_nat_alt max min js_def)
    then show "s \<in> of_nat ` set js" by (rule rev_image_eqI) simp
  qed
  then show "of_nat ` set js = {s. sn < s \<and> s \<le> sn + K}" by blast
  have "inj_on (of_nat :: nat \<Rightarrow> u32) (set js)"
  proof (rule inj_onI)
    fix i j assume ij: "i \<in> set js" "j \<in> set js" and "(of_nat i :: u32) = of_nat j"
    then have "unat (of_nat i :: u32) = unat (of_nat j :: u32)" by simp
    then show "i = j" by (simp only: unat_u32_of_nat [OF lt [OF ij(1)]] unat_u32_of_nat [OF lt [OF ij(2)]])
  qed
  then show "distinct (map of_nat js :: u32 list)" by (simp only: distinct_map distinct_upt js_def)
qed

text \<open>
  C23: if the window ends below the largest 32-bit number and no message has a nil entry, the
  assignment returns: it holds for each number of the window above the starting one, and for
  no other, the batch its slot decides on, and succeeds exactly when no slot has two
  digests with enough messages.
\<close>

theorem assignSequenceNumbers_exact:
  assumes "unat sn + 1 + unat (n_K (cfg n)) < 2 ^ 32" and "\<And>s. no_nil vset s"
  shows "\<exists>msgList ok. assignSequenceNumbers n vset sn = Ret (msgList, ok) \<and>
    (\<forall>s. gm_get msgList s = (if sn < s \<and> s \<le> sn + n_K (cfg n)
       then fst (slot (prePrepareSubsetCount (cfg n)) vset s) else None)) \<and>
    (ok \<longleftrightarrow> (\<forall>s. sn < s \<and> s \<le> sn + n_K (cfg n) \<longrightarrow> snd (slot (prePrepareSubsetCount (cfg n)) vset s)))"
proof -
  let ?K = "n_K (cfg n)" and ?q = "prePrepareSubsetCount (cfg n)"
  let ?js = "[unat (sn + 1)..<unat (sn + 1) + unat ?K]"
  note w = window_numbers [OF assms(1)]
  have mem: "s \<in> of_nat ` set ?js \<longleftrightarrow> sn < s \<and> s \<le> sn + ?K" for s :: u32
    by (simp only: w(3) mem_Collect_eq)
  have run: "while_option (assign_cond (sn + ?K)) (assign_body ?q vset) (Inr (sn + 1, [], True)) =
    Some (Inr (sn + ?K + 1, fold (put_slot ?q vset) (map of_nat ?js) [],
      True \<and> (\<forall>j \<in> {unat (sn + 1)..<unat (sn + 1) + unat ?K}. snd (slot ?q vset (of_nat j)))))"
    by (rule assign_run) (use assms in \<open>simp_all add: w(1,2)\<close>)
  have all: "(\<forall>j \<in> {unat (sn + 1)..<unat (sn + 1) + unat ?K}. P (of_nat j)) \<longleftrightarrow>
      (\<forall>s. sn < s \<and> s \<le> sn + ?K \<longrightarrow> P s)" for P :: "u32 \<Rightarrow> bool"
    by (simp only: mem [symmetric] set_upt image_iff) blast
  have get: "gm_get (fold (put_slot ?q vset) (map of_nat ?js) []) s =
      (if sn < s \<and> s \<le> sn + ?K then fst (slot ?q vset s) else None)" for s
    unfolding put_slots_get [OF w(4)] set_map mem by simp
  have "assignSequenceNumbers n vset sn = Ret (fold (put_slot ?q vset) (map of_nat ?js) [],
      \<forall>s. sn < s \<and> s \<le> sn + ?K \<longrightarrow> snd (slot ?q vset s))"
    unfolding assignSequenceNumbers_def Let_def run
    by (simp only: option.case sum.case prod.case simp_thms all [of "\<lambda>s. snd (slot ?q vset s)"])
  with get show ?thesis by blast
qed

theorem assignSequenceNumbers_exact_witness:
  "\<exists>msgList. assignSequenceNumbers demo_prepared [demo_vc (Some demo_proposal)] 0 = Ret (msgList, True) \<and>
     gm_get msgList 1 = Some demo_batch \<and> gm_get msgList 2 = Some emptyBatch \<and> gm_get msgList 11 = None"
proof -
  let ?vs = "[demo_vc (Some demo_proposal)]"
  have c: "n_K (cfg demo_prepared) = 10" "prePrepareSubsetCount (cfg demo_prepared) = 1"
    by (simp_all add: demo_prepared_facts) (simp add: demo_prepared_def modCert_def getCert_def started_def
        StartListen_def NewNode_def demo_conf_def config_New_def)
  have nn: "no_nil ?vs s" for s by (simp add: no_nil_def demo_vc_def gm_get_def)
  have s: "slot 1 ?vs s = (Some (if s = 1 then demo_batch else emptyBatch), True)" for s
    by (simp add: slot_def assign_slot_def demo_vc_def gm_get_def gm_put_def gm_get0_def diffSubset_def demo_proposal_def Let_def)
  have "unat (0 :: u32) + 1 + unat (n_K (cfg demo_prepared)) < 2 ^ 32" by (simp add: c)
  from assignSequenceNumbers_exact [OF this nn] obtain msgList ok
    where r: "assignSequenceNumbers demo_prepared ?vs 0 = Ret (msgList, ok)"
      and g: "\<And>s. gm_get msgList s = (if 0 < s \<and> s \<le> 10 then Some (if s = 1 then demo_batch else emptyBatch) else None)"
      and ok: "ok"
    unfolding c s by (auto simp: if_distrib)
  from ok r have "assignSequenceNumbers demo_prepared ?vs 0 = Ret (msgList, True)" by simp
  moreover have "gm_get msgList 1 = Some demo_batch" "gm_get msgList 2 = Some emptyBatch" "gm_get msgList 11 = None"
    by (simp_all add: g)
  ultimately show ?thesis by blast
qed

text \<open>
  When the window ends at the largest 32-bit number itself the loop's condition never fails,
  and \<open>assignSequenceNumbers\<close> does not return.
\<close>

theorem assign_diverges:
  assumes "sn + n_K (cfg n) = - 1" and "\<And>s. no_nil vset s"
  shows "assignSequenceNumbers n vset sn = Block n"
proof -
  let ?b = "assign_body (prePrepareSubsetCount (cfg n)) vset"
  have "\<exists>s m ok. (?b ^^ k) (Inr (sn + 1, [], True)) = Inr (s, m, ok)" for k
  proof (induction k)
    case (Suc k)
    then obtain s m ok where "(?b ^^ k) (Inr (sn + 1, [], True)) = Inr (s, m, ok)" by blast
    then show ?case by (simp add: assign_body_slot [OF assms(2)])
  qed auto
  then have "assign_cond (- 1) ((?b ^^ k) (Inr (sn + 1, [], True)))" for k
    by (metis (no_types, lifting) assign_cond_def case_prod_conv old.sum.simps(6) word_order.extremum)
  then have "while_option (assign_cond (- 1)) ?b (Inr (sn + 1, [], True)) = None"
    by (simp add: while_option_def)
  then show ?thesis by (simp add: assignSequenceNumbers_def Let_def assms(1))
qed

theorem assign_diverges_witness: "assignSequenceNumbers demo_prepared [] (- 11) = Block demo_prepared"
proof -
  have "no_nil [] s" for s by (simp add: no_nil_def)
  with assign_diverges [of "- 11" demo_prepared "[]"] show ?thesis by (simp add: demo_prepared_facts)
qed

section \<open>One slot\<close>











section \<open>Why a fast certificate survives\<close>






end
