(* ===== verification/Transport.thy ===== *)
theory Transport
  imports NodeOps
begin

text \<open>
  The network transport (core/net\_transport.go, core/tcp\_transport.go, core/transport.go):
  the message codes, the framing \<open>SendRPC\<close> writes and \<open>handleCommand\<close> reads, the loops of a
  listener and of a connection, and shutting down. MsgPack is a library: the record \<open>codec\<close>
  has its encoder and one decoder per type the transport reads. A TCP connection is the
  sequence of bytes that arrives on it before the other side closes it.
\<close>

section \<open>Message codes\<close>

datatype MsgType =
    PrePrepareType | PrepareType | CommitType | PrepareQcType | FastPrepareQcType
  | CommitQcType | CheckPointType | ViewChangeType | ViewChangeQuorumType | NewViewType

text \<open>The constants count up from 0 (\<open>iota\<close>).\<close>

primrec msgCode :: "MsgType \<Rightarrow> nat" where
  "msgCode PrePrepareType = 0"
| "msgCode PrepareType = 1"
| "msgCode CommitType = 2"
| "msgCode PrepareQcType = 3"
| "msgCode FastPrepareQcType = 4"
| "msgCode CommitQcType = 5"
| "msgCode CheckPointType = 6"
| "msgCode ViewChangeType = 7"
| "msgCode ViewChangeQuorumType = 8"
| "msgCode NewViewType = 9"

definition allTypes :: "MsgType list" where
  "allTypes = [PrePrepareType, PrepareType, CommitType, PrepareQcType, FastPrepareQcType,
     CommitQcType, CheckPointType, ViewChangeType, ViewChangeQuorumType, NewViewType]"

text \<open>The switch of \<open>handleCommand\<close>: \<open>None\<close> is its default case.\<close>

definition typeOfByte :: "char \<Rightarrow> MsgType option" where
  "typeOfByte b = List.find (\<lambda>t. msgCode t = byte_of b) allTypes"

lemma msgCode_less [simp]: "msgCode t < 256"
  by (cases t) simp_all

lemma typeOfByte_msgCode [simp]: "typeOfByte (chr (msgCode t)) = Some t"
  by (cases t) (simp_all add: typeOfByte_def allTypes_def)

text \<open>The code each sender passes with its message. The timer's event is never sent.\<close>

fun typeOfMessage :: "message \<Rightarrow> MsgType option" where
  "typeOfMessage (PrePrepareM m) = Some PrePrepareType"
| "typeOfMessage (PrepareM m) = Some PrepareType"
| "typeOfMessage (CommitM m) = Some CommitType"
| "typeOfMessage (PrepareQcM m) = Some PrepareQcType"
| "typeOfMessage (FastPrepareQcM m) = Some FastPrepareQcType"
| "typeOfMessage (CommitQcM m) = Some CommitQcType"
| "typeOfMessage (CheckpointM m) = Some CheckPointType"
| "typeOfMessage (ViewChangeM m) = Some ViewChangeType"
| "typeOfMessage ViewChangeQuorumM = Some ViewChangeQuorumType"
| "typeOfMessage (NewViewM m) = Some NewViewType"
| "typeOfMessage ViewChangeTimerM = None"

section \<open>The MsgPack library\<close>

text \<open>
  A decoder reads one value off the front of the bytes of a connection, or fails.
\<close>

datatype net_error = EOF | DecodeErr | UnknownRpc nat | ErrTransportShutdown | WriteErr | CloseErr
  | RpcError string

type_synonym 'a decoder = "string \<Rightarrow> net_error + 'a \<times> string"

record codec =
  enc_message :: "message \<Rightarrow> string option"
  enc_bytes :: "gobytes \<Rightarrow> string option"
  dec_bytes :: "gobytes decoder"
  dec_string :: "string decoder"
  dec_PrePrepareMsg :: "PrePrepareMsg decoder"
  dec_PrepareMsg :: "PrepareMsg decoder"
  dec_CommitMsg :: "CommitMsg decoder"
  dec_CheckpointMsg :: "CheckpointMsg decoder"
  dec_ViewChangeMsg :: "ViewChangeMsg decoder"
  dec_ViewChangeQuorumMsg :: "unit decoder"
  dec_NewViewMsg :: "NewViewMsg decoder"
  dec_CommitQc :: "CommitQc decoder"
  dec_PrepareQc :: "PrepareQc decoder"
  dec_FastPrepareQc :: "FastPrepareQc decoder"

section \<open>Reading a command\<close>

definition as_message :: "('a \<Rightarrow> message) \<Rightarrow> 'a decoder \<Rightarrow> message decoder" where
  "as_message c d r = (case d r of Inl e \<Rightarrow> Inl e | Inr (req, r') \<Rightarrow> Inr (c req, r'))"

primrec decode_command :: "codec \<Rightarrow> MsgType \<Rightarrow> message decoder" where
  "decode_command C PrePrepareType = as_message PrePrepareM (dec_PrePrepareMsg C)"
| "decode_command C PrepareType = as_message PrepareM (dec_PrepareMsg C)"
| "decode_command C CommitType = as_message CommitM (dec_CommitMsg C)"
| "decode_command C CheckPointType = as_message CheckpointM (dec_CheckpointMsg C)"
| "decode_command C ViewChangeType = as_message ViewChangeM (dec_ViewChangeMsg C)"
| "decode_command C ViewChangeQuorumType = as_message (\<lambda>_. ViewChangeQuorumM) (dec_ViewChangeQuorumMsg C)"
| "decode_command C NewViewType = as_message NewViewM (dec_NewViewMsg C)"
| "decode_command C CommitQcType = as_message CommitQcM (dec_CommitQc C)"
| "decode_command C PrepareQcType = as_message PrepareQcM (dec_PrepareQc C)"
| "decode_command C FastPrepareQcType = as_message FastPrepareQcM (dec_FastPrepareQc C)"

text \<open>
  \<open>handleCommand\<close>: the type byte, the command, the signature, and the hand-over to the main
  loop. \<open>closing\<close> says that the last \<open>select\<close> sees the shutdown channel closed and picks it;
  otherwise the message is delivered. The result is the error or the delivered message
  with the bytes left to read.
\<close>

definition handleCommand :: "codec \<Rightarrow> bool \<Rightarrow> string \<Rightarrow> net_error + MsgWithSig \<times> string" where
  "handleCommand C closing r =
     (case r of
        [] \<Rightarrow> Inl EOF
      | rpcType # r \<Rightarrow>
          (case typeOfByte rpcType of
             None \<Rightarrow> Inl (UnknownRpc (byte_of rpcType))
           | Some ty \<Rightarrow>
               (case decode_command C ty r of
                  Inl e \<Rightarrow> Inl e
                | Inr (cmd, r) \<Rightarrow>
                    (case dec_bytes C r of
                       Inl e \<Rightarrow> Inl e
                     | Inr (sig, r) \<Rightarrow>
                         if closing then Inl ErrTransportShutdown
                         else Inr (\<lparr>Command = cmd, Sig = sig\<rparr>, r)))))"

text \<open>
  \<open>handleConn\<close>: commands are handled until one fails or the stream context is done. Nothing
  is ever written back, so flushing the writer succeeds. \<open>turn i\<close> says what turn \<open>i\<close> sees:
  whether the context is done, and \<open>closing\<close>. A command takes at least one byte, so the
  number of bytes bounds the turns: the fuel is the length of the input, and the last
  clause is reached only by a decoder that returns more bytes than it was given.
\<close>

datatype conn_end = ContextDone | Failed net_error | OutOfFuel

fun conn_loop :: "nat \<Rightarrow> codec \<Rightarrow> (nat \<Rightarrow> bool \<times> bool) \<Rightarrow> nat \<Rightarrow> string \<Rightarrow> MsgWithSig list \<times> conn_end" where
  "conn_loop fuel C turn i r =
     (if fst (turn i) then ([], ContextDone)
      else (case handleCommand C (snd (turn i)) r of
              Inl e \<Rightarrow> ([], Failed e)
            | Inr (rpc, r') \<Rightarrow>
                (case fuel of
                   0 \<Rightarrow> ([rpc], OutOfFuel)
                 | Suc fuel \<Rightarrow>
                     (let (rpcs, e) = conn_loop fuel C turn (Suc i) r' in (rpc # rpcs, e)))))"

declare conn_loop.simps [simp del]

definition handleConn :: "codec \<Rightarrow> (nat \<Rightarrow> bool \<times> bool) \<Rightarrow> string \<Rightarrow> MsgWithSig list \<times> conn_end" where
  "handleConn C turn r = conn_loop (length r) C turn 0 r"

section \<open>Sending a command\<close>

text \<open>
  A connection with its buffered writer: what has reached the socket, what is still in the
  buffer, and whether the connection has been closed.
\<close>

record NetConn =
  nc_target :: string
  nc_out :: string
  nc_buf :: string
  nc_closed :: bool

text \<open>
  One call of the writer. It may fail after any number of the pending bytes has reached the
  socket: \<open>fault\<close> is that number.
\<close>

definition conn_write :: "nat option \<Rightarrow> string \<Rightarrow> NetConn \<Rightarrow> NetConn \<times> bool" where
  "conn_write fault bytes c =
     (case fault of
        None \<Rightarrow> (c\<lparr>nc_buf := nc_buf c @ bytes\<rparr>, True)
      | Some k \<Rightarrow> (c\<lparr>nc_out := nc_out c @ take k (nc_buf c @ bytes), nc_buf := []\<rparr>, False))"

definition conn_flush :: "nat option \<Rightarrow> NetConn \<Rightarrow> NetConn \<times> bool" where
  "conn_flush fault c =
     (case fault of
        None \<Rightarrow> (c\<lparr>nc_out := nc_out c @ nc_buf c, nc_buf := []\<rparr>, True)
      | Some k \<Rightarrow> (c\<lparr>nc_out := nc_out c @ take k (nc_buf c), nc_buf := []\<rparr>, False))"

text \<open>Closing a connection that is already closed is an error.\<close>

definition Release :: "NetConn \<Rightarrow> NetConn \<times> net_error option" where
  "Release c = (c\<lparr>nc_closed := True\<rparr>, if nc_closed c then Some CloseErr else None)"

text \<open>\<open>if err != nil { conn.Release(); return err }\<close>\<close>

definition failed_send :: "NetConn \<Rightarrow> NetConn \<times> net_error option" where
  "failed_send c = (fst (Release c), Some WriteErr)"

definition conn_encode :: "nat option \<Rightarrow> string option \<Rightarrow> NetConn \<Rightarrow> NetConn \<times> bool" where
  "conn_encode fault e c = (case e of None \<Rightarrow> (c, False) | Some bytes \<Rightarrow> conn_write fault bytes c)"

definition SendRPC ::
  "codec \<Rightarrow> (nat \<Rightarrow> nat option) \<Rightarrow> MsgType \<Rightarrow> message \<Rightarrow> gobytes \<Rightarrow> NetConn \<Rightarrow> NetConn \<times> net_error option" where
  "SendRPC C fault rpcType args sig c =
     (let (c, ok) = conn_write (fault 0) [chr (msgCode rpcType)] c in
      if \<not> ok then failed_send c else
      let (c, ok) = conn_encode (fault 1) (enc_message C args) c in
      if \<not> ok then failed_send c else
      let (c, ok) = conn_encode (fault 2) (enc_bytes C sig) c in
      if \<not> ok then failed_send c else
      let (c, ok) = conn_flush (fault 3) c in
      if \<not> ok then failed_send c else (c, None))"

text \<open>
  \<open>decodeResponse\<close> reads an error string and a response, and says whether the connection can
  be used again; no caller is left in the program. \<open>resp\<close> is the decoder of the response's
  type; \<open>RpcError\<close> stands for the error \<open>fmt.Errorf\<close> makes of the string.
\<close>

definition decodeResponse :: "codec \<Rightarrow> 'a decoder \<Rightarrow> string \<Rightarrow> bool \<times> net_error option \<times> 'a option" where
  "decodeResponse C resp r =
     (case dec_string C r of
        Inl e \<Rightarrow> (False, Some e, None)
      | Inr (rpcError, r) \<Rightarrow>
          (case resp r of
             Inl e \<Rightarrow> (False, Some e, None)
           | Inr (x, r) \<Rightarrow> (True, if rpcError \<noteq> [] then Some (RpcError rpcError) else None, Some x)))"

section \<open>Connections\<close>

text \<open>
  \<open>dialConn\<close> wraps what the stream layer dials; \<open>GetConn\<close> dials a new connection every time
  (the pool is commented out), and \<open>ReturnConn\<close> closes it.
\<close>

definition dialConn :: "bool \<Rightarrow> string \<Rightarrow> NetConn option" where
  "dialConn dialled target =
     (if \<not> dialled then None
      else Some \<lparr>nc_target = target, nc_out = [], nc_buf = [], nc_closed = False\<rparr>)"

definition GetConn :: "bool \<Rightarrow> string \<Rightarrow> NetConn option" where
  "GetConn dialled target = dialConn dialled target"

definition ReturnConn :: "NetConn \<Rightarrow> NetConn \<times> net_error option" where
  "ReturnConn c = Release c"

section \<open>The stream layer\<close>

text \<open>
  A bound TCP listener: its address, and whether it is open. What \<open>Dial\<close> gives is the input
  \<open>dialled\<close> of \<open>dialConn\<close>; \<open>arrival\<close> is the connection that waits, as the bytes it will bring.
\<close>

record TCPStreamLayer =
  sl_Addr :: string
  sl_Open :: bool

definition stream_Accept :: "TCPStreamLayer \<Rightarrow> string option \<Rightarrow> string option" where
  "stream_Accept s arrival = (if sl_Open s then arrival else None)"

definition stream_Close :: "TCPStreamLayer \<Rightarrow> TCPStreamLayer \<times> net_error option" where
  "stream_Close s = (s\<lparr>sl_Open := False\<rparr>, if sl_Open s then None else Some CloseErr)"

definition stream_Addr :: "TCPStreamLayer \<Rightarrow> string" where
  "stream_Addr s = sl_Addr s"

section \<open>The transport\<close>

text \<open>\<open>tr_streamCtx\<close> is nil, or a context that is done or not.\<close>

record NetworkTransport =
  tr_maxPool :: int
  tr_timeout :: i64
  tr_shutdown :: bool
  tr_shutdownCh_closed :: bool
  tr_stream :: TCPStreamLayer
  tr_streamCtx :: "bool option"

definition setupStreamContext :: "NetworkTransport \<Rightarrow> NetworkTransport" where
  "setupStreamContext t = t\<lparr>tr_streamCtx := Some False\<rparr>"

definition getStreamContext :: "NetworkTransport \<Rightarrow> bool option" where
  "getStreamContext t = tr_streamCtx t"

text \<open>The configuration's logger is left out, and its pool size is not used.\<close>

record NetworkTransportConfig =
  tc_MaxPool :: int
  tc_Stream :: TCPStreamLayer
  tc_Timeout :: i64

definition NewNetworkTransportWithConfig :: "NetworkTransportConfig \<Rightarrow> NetworkTransport" where
  "NewNetworkTransportWithConfig config =
     setupStreamContext
       \<lparr>tr_maxPool = 0, tr_timeout = tc_Timeout config, tr_shutdown = False, tr_shutdownCh_closed = False,
        tr_stream = tc_Stream config, tr_streamCtx = None\<rparr>"

definition NewNetworkTransport :: "TCPStreamLayer \<Rightarrow> i64 \<Rightarrow> int \<Rightarrow> NetworkTransport" where
  "NewNetworkTransport stream timeout pool =
     NewNetworkTransportWithConfig \<lparr>tc_MaxPool = pool, tc_Stream = stream, tc_Timeout = timeout\<rparr>"

text \<open>\<open>bound\<close> says whether the address could be bound.\<close>

definition newTCPTransport :: "bool \<Rightarrow> string \<Rightarrow> (TCPStreamLayer \<Rightarrow> NetworkTransport) \<Rightarrow> NetworkTransport option" where
  "newTCPTransport bound bindAddr transportCreator =
     (if \<not> bound then None else Some (transportCreator \<lparr>sl_Addr = bindAddr, sl_Open = True\<rparr>))"

definition NewTCPTransport :: "bool \<Rightarrow> string \<Rightarrow> i64 \<Rightarrow> int \<Rightarrow> NetworkTransport option" where
  "NewTCPTransport bound bindAddr timeout pool =
     newTCPTransport bound bindAddr (\<lambda>stream. NewNetworkTransport stream timeout pool)"

definition LocalAddr :: "NetworkTransport \<Rightarrow> string" where
  "LocalAddr t = stream_Addr (tr_stream t)"

definition IsShutdown :: "NetworkTransport \<Rightarrow> bool" where
  "IsShutdown t = tr_shutdownCh_closed t"

text \<open>Closing a closed channel panics; the flag prevents it. The contexts of open connections
  are not cancelled.\<close>

definition Close :: "NetworkTransport \<Rightarrow> ('s, NetworkTransport) go" where
  "Close t =
     (if tr_shutdown t then Ret t
      else if tr_shutdownCh_closed t then Panic ExplicitPanic
      else Ret (t\<lparr>tr_shutdownCh_closed := True, tr_stream := fst (stream_Close (tr_stream t)), tr_shutdown := True\<rparr>))"

section \<open>Accepting connections\<close>

definition baseDelay :: i64 where
  "baseDelay = 5000000"

definition maxDelay :: i64 where
  "maxDelay = 1000000000"

definition nextDelay :: "i64 \<Rightarrow> i64" where
  "nextDelay loopDelay =
     (let d = (if loopDelay = 0 then baseDelay else loopDelay * 2)
      in if sint d > sint maxDelay then maxDelay else d)"

text \<open>
  What a turn of \<open>listen\<close> sees: a connection (with the bytes that will arrive on it), or an
  error, in which case the flag says whether the shutdown channel closes before the delay is
  over; when it is closed already, the \<open>select\<close> returns at once.
\<close>

datatype accept = Accepted string | AcceptFails bool

text \<open>The delays waited out, the connections handled, and whether the loop has returned.\<close>

fun listen :: "NetworkTransport \<Rightarrow> i64 \<Rightarrow> accept list \<Rightarrow> i64 list \<times> string list \<times> bool" where
  "listen t loopDelay [] = ([], [], False)"
| "listen t loopDelay (Accepted r # as) =
     (let (ds, rs, fin) = listen t 0 as in (ds, r # rs, fin))"
| "listen t loopDelay (AcceptFails closes # as) =
     (let d = nextDelay loopDelay in
      if tr_shutdownCh_closed t \<or> closes then ([], [], True)
      else (let (ds, rs, fin) = listen t d as in (d # ds, rs, fin)))"

section \<open>Connecting at the start\<close>

text \<open>
  \<open>establishConns\<close> tries every other node once, in map iteration order, and closes what it
  opened; a failed dial is only printed. \<open>dial k\<close> is the outcome of attempt \<open>k\<close>. The result
  lists the peers that were reached. \<open>StartConnect\<close> ignores the error.
\<close>

fun establish_loop :: "(nat \<Rightarrow> bool) \<Rightarrow> nat \<Rightarrow> Node \<Rightarrow> (u32 \<times> string) list \<Rightarrow> string list" where
  "establish_loop dial k n [] = []"
| "establish_loop dial k n ((i, addr) # es) =
     (if i = replicaId (cfg n) then establish_loop dial k n es
      else (case GetConn (dial k) (full_addr n i addr) of
              None \<Rightarrow> establish_loop dial (Suc k) n es
            | Some c \<Rightarrow> nc_target (fst (ReturnConn c)) # establish_loop dial (Suc k) n es))"

definition establishConns :: "NetworkTransport option \<Rightarrow> (nat \<Rightarrow> bool) \<Rightarrow> nat \<Rightarrow> Node \<Rightarrow> string list \<times> go_error option" where
  "establishConns tr dial s n =
     (case tr of
        None \<Rightarrow> ([], Some NetError)
      | Some t \<Rightarrow> (establish_loop dial 0 n (range_order s (clusterAddr (cfg n))), None))"

definition StartConnect :: "NetworkTransport option \<Rightarrow> (nat \<Rightarrow> bool) \<Rightarrow> nat \<Rightarrow> Node \<Rightarrow> string list \<times> go_error option" where
  "StartConnect tr dial s n = (fst (establishConns tr dial s n), None)"

lemma establish_all:
  "(\<And>k. dial k) \<Longrightarrow> establish_loop dial k n es =
     map (\<lambda>(i, addr). full_addr n i addr) (filter (\<lambda>(i, addr). i \<noteq> replicaId (cfg n)) es)"
  by (induction dial k n es rule: establish_loop.induct)
    (auto simp: GetConn_def dialConn_def ReturnConn_def Release_def)

end
