(* ===== verification/Wire.thy ===== *)
theory Wire
  imports Transport Runs
begin

text \<open>
  What the transport guarantees: commands written to a connection arrive whole, in order and
  at most once however the connection is cut; the delay between failing accepts is bounded;
  and the connection a broadcast goroutine uses is the one the node model abstracts to an
  outcome.
\<close>

section \<open>Frames\<close>

text \<open>
  What the transport relies on in MsgPack, for one signed message: decoding gives the encoded
  value back and reads nothing beyond it, and a value that is cut short is an error.
\<close>

definition exact_decoder :: "'a decoder \<Rightarrow> 'a \<Rightarrow> string \<Rightarrow> bool" where
  "exact_decoder d x b \<longleftrightarrow> (\<forall>r. d (b @ r) = Inr (x, r)) \<and> (\<forall>k < length b. \<exists>e. d (take k b) = Inl e)"

definition codec_ok :: "codec \<Rightarrow> MsgWithSig \<Rightarrow> bool" where
  "codec_ok C x \<longleftrightarrow>
     (\<forall>t b. typeOfMessage (Command x) = Some t \<longrightarrow> enc_message C (Command x) = Some b \<longrightarrow>
        exact_decoder (decode_command C t) (Command x) b) \<and>
     (\<forall>b. enc_bytes C (Sig x) = Some b \<longrightarrow> exact_decoder (dec_bytes C) (Sig x) b)"

definition frame :: "codec \<Rightarrow> MsgWithSig \<Rightarrow> string option" where
  "frame C x =
     (case (typeOfMessage (Command x), enc_message C (Command x), enc_bytes C (Sig x)) of
        (Some t, Some b, Some s) \<Rightarrow> Some (chr (msgCode t) # b @ s)
      | _ \<Rightarrow> None)"

primrec frames :: "codec \<Rightarrow> MsgWithSig list \<Rightarrow> string option" where
  "frames C [] = Some []"
| "frames C (x # xs) =
     (case (frame C x, frames C xs) of (Some f, Some fs) \<Rightarrow> Some (f @ fs) | _ \<Rightarrow> None)"

lemma frameE:
  assumes "frame C x = Some f"
  obtains t b s where "typeOfMessage (Command x) = Some t" and "enc_message C (Command x) = Some b"
    and "enc_bytes C (Sig x) = Some s" and "f = chr (msgCode t) # b @ s"
  using assms by (auto simp: frame_def split: option.splits)

lemma handleCommand_frame:
  assumes "codec_ok C x" and "frame C x = Some f"
  shows "handleCommand C False (f @ r) = Inr (x, r)"
  using assms(2)
proof (rule frameE)
  fix t b s
  assume *: "typeOfMessage (Command x) = Some t" "enc_message C (Command x) = Some b"
    "enc_bytes C (Sig x) = Some s" "f = chr (msgCode t) # b @ s"
  with assms(1) have "exact_decoder (decode_command C t) (Command x) b" "exact_decoder (dec_bytes C) (Sig x) s"
    by (simp_all add: codec_ok_def)
  then show ?thesis by (simp add: handleCommand_def exact_decoder_def *)
qed

lemma handleCommand_cut:
  assumes "codec_ok C x" and "frame C x = Some f" and "k < length f"
  shows "\<exists>e. handleCommand C False (take k f) = Inl e"
  using assms(2)
proof (rule frameE)
  fix t b s
  assume *: "typeOfMessage (Command x) = Some t" "enc_message C (Command x) = Some b"
    "enc_bytes C (Sig x) = Some s" "f = chr (msgCode t) # b @ s"
  with assms(1) have d: "exact_decoder (decode_command C t) (Command x) b" "exact_decoder (dec_bytes C) (Sig x) s"
    by (simp_all add: codec_ok_def)
  show ?thesis
  proof (cases k)
    case 0
    then show ?thesis by (simp add: handleCommand_def)
  next
    case (Suc j)
    show ?thesis
    proof (cases "j < length b")
      case True
      with d(1) obtain e where "decode_command C t (take j b) = Inl e" by (auto simp: exact_decoder_def)
      with True show ?thesis by (simp add: handleCommand_def * Suc)
    next
      case False
      with assms(3) * Suc have "j - length b < length s" by simp
      with d(2) obtain e where "dec_bytes C (take (j - length b) s) = Inl e" by (auto simp: exact_decoder_def)
      with d(1) False show ?thesis by (simp add: handleCommand_def * Suc exact_decoder_def)
    qed
  qed
qed

lemma frame_nonempty: "frame C x = Some f \<Longrightarrow> f \<noteq> []"
  by (auto elim!: frameE)

section \<open>A connection\<close>

text \<open>The turns of a connection that nobody closes at the receiver.\<close>

abbreviation staying_open :: "nat \<Rightarrow> bool \<times> bool" where
  "staying_open \<equiv> \<lambda>i. (False, False)"

lemma conn_loop_cut:
  assumes "\<forall>x \<in> set xs. codec_ok C x" and "frames C xs = Some bytes" and "length (take k bytes) \<le> fuel"
  shows "\<exists>j e. conn_loop fuel C staying_open i (take k bytes) = (take j xs, Failed e) \<and>
     j \<le> length xs \<and> (length bytes \<le> k \<longrightarrow> j = length xs)"
  using assms
proof (induction xs arbitrary: bytes k fuel i)
  case Nil
  then show ?case by (simp add: conn_loop.simps [of fuel] handleCommand_def)
next
  case (Cons x xs)
  from Cons.prems(2) obtain f fs where f: "frame C x = Some f" "frames C xs = Some fs" "bytes = f @ fs"
    by (auto split: option.splits)
  from Cons.prems(1) have ok: "codec_ok C x" by simp
  show ?case
  proof (cases "k < length f")
    case True
    with handleCommand_cut [OF ok f(1) True] obtain e
      where "handleCommand C False (take k bytes) = Inl e" by (auto simp: f)
    then have "conn_loop fuel C staying_open i (take k bytes) = (take 0 (x # xs), Failed e)"
      by (simp add: conn_loop.simps [of fuel])
    with True f(3) show ?thesis by (intro exI [of _ 0] exI [of _ e]) simp
  next
    case False
    then have split: "take k bytes = f @ take (k - length f) fs" by (simp add: f)
    with Cons.prems(3) frame_nonempty [OF f(1)] obtain fuel' where fuel: "fuel = Suc fuel'"
      "length (take (k - length f) fs) \<le> fuel'"
      by (cases f; cases fuel) auto
    from Cons.prems(1) have "\<forall>x \<in> set xs. codec_ok C x" by simp
    from Cons.IH [OF this f(2) fuel(2), of "Suc i"] obtain j e where IH:
      "conn_loop fuel' C staying_open (Suc i) (take (k - length f) fs) = (take j xs, Failed e)"
      "j \<le> length xs" "length fs \<le> k - length f \<longrightarrow> j = length xs" by blast
    have "conn_loop fuel C staying_open i (take k bytes) = (take (Suc j) (x # xs), Failed e)"
      unfolding split fuel by (subst conn_loop.simps) (simp add: handleCommand_frame [OF ok f(1)] IH)
    moreover have "length bytes \<le> k \<longrightarrow> Suc j = length (x # xs)"
      using IH(3) by (auto simp: f(3))
    ultimately show ?thesis using IH(2) by (intro exI [of _ "Suc j"] exI [of _ e]) simp
  qed
qed

text \<open>
  C34: however a connection is cut, its handler delivers a prefix of the messages written to it,
  each whole and in the order written, and then ends with an error; when no byte is lost it
  delivers all of them. The fuel of the loop is never used up.
\<close>

theorem stream_delivers_prefix:
  assumes "\<forall>x \<in> set xs. codec_ok C x" and "frames C xs = Some bytes"
  shows "\<exists>j e. handleConn C staying_open (take k bytes) = (take j xs, Failed e) \<and>
     j \<le> length xs \<and> (length bytes \<le> k \<longrightarrow> j = length xs)"
  unfolding handleConn_def by (rule conn_loop_cut [OF assms order_refl])

text \<open>A codec with a one-byte value for one message and one signature.\<close>

definition demo_codec :: codec where
  "demo_codec = \<lparr>enc_message = (\<lambda>m. Some ''m''),
     enc_bytes = (\<lambda>b. Some ''s''),
     dec_bytes = (\<lambda>r. case r of [] \<Rightarrow> Inl EOF | c # r \<Rightarrow> if c = CHR ''s'' then Inr (Some ''s'', r) else Inl DecodeErr),
     dec_string = (\<lambda>r. Inl EOF), 
     dec_PrePrepareMsg = (\<lambda>r. case r of [] \<Rightarrow> Inl EOF | c # r \<Rightarrow>
        if c = CHR ''m'' then Inr (demo_proposal, r) else Inl DecodeErr),
     dec_PrepareMsg = (\<lambda>r. Inl DecodeErr), dec_CommitMsg = (\<lambda>r. Inl DecodeErr),
     dec_CheckpointMsg = (\<lambda>r. Inl DecodeErr), dec_ViewChangeMsg = (\<lambda>r. Inl DecodeErr),
     dec_ViewChangeQuorumMsg = (\<lambda>r. Inl DecodeErr), dec_NewViewMsg = (\<lambda>r. Inl DecodeErr),
     dec_CommitQc = (\<lambda>r. Inl DecodeErr), dec_PrepareQc = (\<lambda>r. Inl DecodeErr),
     dec_FastPrepareQc = (\<lambda>r. Inl DecodeErr)\<rparr>"

definition demo_rpc :: MsgWithSig where
  "demo_rpc = \<lparr>Command = PrePrepareM demo_proposal, Sig = Some ''s''\<rparr>"

lemma demo_codec_ok: "codec_ok demo_codec demo_rpc"
  and demo_frame: "frame demo_codec demo_rpc = Some [chr 0, CHR ''m'', CHR ''s'']"
  by (auto simp: codec_ok_def demo_codec_def demo_rpc_def exact_decoder_def as_message_def frame_def)

theorem stream_delivers_prefix_witness:
  "fst (handleConn demo_codec staying_open (take 6 [chr 0, CHR ''m'', CHR ''s'', chr 0, CHR ''m'', CHR ''s'']))
     = [demo_rpc, demo_rpc]"
proof -
  have "\<forall>x \<in> set [demo_rpc, demo_rpc]. codec_ok demo_codec x" by (simp add: demo_codec_ok)
  moreover have "frames demo_codec [demo_rpc, demo_rpc] = Some [chr 0, CHR ''m'', CHR ''s'', chr 0, CHR ''m'', CHR ''s'']"
    by (simp add: demo_frame)
  ultimately show ?thesis
    using stream_delivers_prefix [of "[demo_rpc, demo_rpc]" demo_codec _ 6] by fastforce
qed

section \<open>One message per connection\<close>

text \<open>Every way \<open>SendRPC\<close> can end leaves a prefix of the frame on the socket.\<close>

lemma SendRPC_prefix:
  assumes "typeOfMessage (Command x) = Some t" and "frame C x = Some f"
    and "GetConn True addr = Some c" and "SendRPC C fault t (Command x) (Sig x) c = (c', err)"
  shows "(\<exists>k. nc_out c' = take k f) \<and> (err = None \<longrightarrow> nc_out c' = f) \<and> (nc_closed c' \<longleftrightarrow> err \<noteq> None)"
  using assms(2)
proof (rule frameE)
  fix t' b s
  assume *: "typeOfMessage (Command x) = Some t'" "enc_message C (Command x) = Some b"
    "enc_bytes C (Sig x) = Some s" "f = chr (msgCode t') # b @ s"
  with assms(1) have t: "t' = t" by simp
  have c: "c = \<lparr>nc_target = addr, nc_out = [], nc_buf = [], nc_closed = False\<rparr>"
    using assms(3) by (simp add: GetConn_def dialConn_def)
  have cut: "\<exists>k. take i (chr (msgCode t) # b) = take k f" "\<exists>k. take i [chr (msgCode t)] = take k f" for i
    using * t take_append [of i "chr (msgCode t) # b" s]
    by (intro exI [of _ "min i (length (chr (msgCode t) # b))"] exI [of _ "min i 1"];
        simp add: take_Cons' min_def)+
  have whole: "\<exists>k. chr (msgCode t) # b @ s = take k (chr (msgCode t) # b @ s)"
    by (rule exI [of _ "length (chr (msgCode t) # b @ s)"]) simp
  show ?thesis
    using assms(4) cut whole *(4) t
    by (auto simp: SendRPC_def c conn_write_def conn_encode_def conn_flush_def *(2,3) failed_send_def Release_def
        split: option.splits)
qed

text \<open>
  The message a goroutine sends over its fresh connection is delivered exactly once when
  \<open>SendRPC\<close> reports success, and at most once, never altered, when a write fails part-way; the
  connection is closed exactly in the second case.
\<close>

theorem SendRPC_at_most_once:
  assumes "typeOfMessage (Command x) = Some t" and "frame C x = Some f" and "codec_ok C x"
    and "GetConn True addr = Some c" and "SendRPC C fault t (Command x) (Sig x) c = (c', err)"
  shows "fst (handleConn C staying_open (nc_out c')) \<in> {[], [x]} \<and>
    (err = None \<longrightarrow> fst (handleConn C staying_open (nc_out c')) = [x]) \<and> (nc_closed c' \<longleftrightarrow> err \<noteq> None)"
proof -
  note p = SendRPC_prefix [OF assms(1,2,4,5)]
  have "\<exists>j e. conn_loop (length (take k f)) C staying_open 0 (take k f) = (take j [x], Failed e) \<and>
      j \<le> length [x] \<and> (length f \<le> k \<longrightarrow> j = length [x])" for k
    by (rule conn_loop_cut) (use assms(2,3) in auto)
  then have d: "fst (handleConn C staying_open (take k f)) \<in> {[], [x]} \<and>
      (length f \<le> k \<longrightarrow> fst (handleConn C staying_open (take k f)) = [x])" for k
    unfolding handleConn_def by (metis fst_conv insertCI le_Suc_eq le_zero_eq length_Cons list.size(3)
      One_nat_def take_0 take_Suc_Cons take_Nil)
  from p obtain k where "nc_out c' = take k f" by blast
  with d [of k] p d [of "length f"] show ?thesis by auto
qed

theorem SendRPC_at_most_once_witness:
  "fst (handleConn demo_codec staying_open
     (nc_out (fst (SendRPC demo_codec (\<lambda>i. None) PrePrepareType (Command demo_rpc) (Sig demo_rpc)
        (the (GetConn True ''h'')))))) = [demo_rpc]"
proof -
  let ?r = "SendRPC demo_codec (\<lambda>i. None) PrePrepareType (Command demo_rpc) (Sig demo_rpc) (the (GetConn True ''h''))"
  have "snd ?r = None"
    by (simp add: SendRPC_def conn_write_def conn_encode_def conn_flush_def demo_codec_def)
  moreover have "GetConn True ''h'' = Some (the (GetConn True ''h''))" by (simp add: GetConn_def dialConn_def)
  moreover have "typeOfMessage (Command demo_rpc) = Some PrePrepareType" by (simp add: demo_rpc_def)
  ultimately show ?thesis
    using SendRPC_at_most_once [OF _ demo_frame demo_codec_ok, of PrePrepareType "''h''" _ "\<lambda>i. None" "fst ?r" "snd ?r"]
    by simp
qed

section \<open>The goroutine of a broadcast\<close>

text \<open>
  The goroutine with its connection: what it prints is left out. The nil connection of a
  failed dial is dereferenced.
\<close>

definition broadcast_goroutine ::
  "codec \<Rightarrow> bool \<Rightarrow> (nat \<Rightarrow> nat option) \<Rightarrow> string \<Rightarrow> MsgType \<Rightarrow> message \<Rightarrow> gobytes \<Rightarrow>
   ('s, NetConn \<times> net_error option \<times> net_error option) go" where
  "broadcast_goroutine C dialled fault target ty msg sig =
     (case GetConn dialled target of
        None \<Rightarrow> Panic NilDereference
      | Some conn \<Rightarrow>
          (let (conn, err) = SendRPC C fault ty msg sig conn;
               (conn, err') = ReturnConn conn
           in Ret (conn, err, err')))"

text \<open>The outcome the node model abstracts a run of the goroutine to.\<close>

definition outcome_of :: "('s, NetConn \<times> net_error option \<times> net_error option) go \<Rightarrow> net_result" where
  "outcome_of r = (case r of Ret (conn, err, err') \<Rightarrow> (if err \<noteq> None then SendErr else NetOk) | _ \<Rightarrow> ConnErr)"

text \<open>
  C35: the node model's \<open>send_task\<close> agrees with the goroutine that has a real connection: both
  panic when the dial fails; otherwise the connection is closed in the end, and the message
  is recorded as sent exactly when \<open>SendRPC\<close> succeeded, in which case the peer's handler
  delivers it.
\<close>

theorem send_task_refines_wire:
  assumes "typeOfMessage msg = Some ty" and "frame C \<lparr>Command = msg, Sig = sig\<rparr> = Some f"
    and "codec_ok C \<lparr>Command = msg, Sig = sig\<rparr>" and "env_net E (clock n) = outcome_of r"
    and "r = broadcast_goroutine C dialled fault (full_addr n i addr) ty msg sig"
  shows "(r = Panic NilDereference \<and> send_task E i addr msg sig n = Panic NilDereference) \<or>
    (\<exists>conn err err' n'. r = Ret (conn, err, err') \<and> send_task E i addr msg sig n = Ret n' \<and> nc_closed conn \<and>
       sent n' = sent n @ (if err = None then [(full_addr n i addr, msg, sig)] else []) \<and>
       (err = None \<longrightarrow> fst (handleConn C staying_open (nc_out conn)) = [\<lparr>Command = msg, Sig = sig\<rparr>]))"
proof (cases dialled)
  case False
  then have "r = Panic NilDereference" by (simp add: assms(5) broadcast_goroutine_def GetConn_def dialConn_def)
  with assms(4) show ?thesis by (simp add: send_task_def outcome_of_def Let_def)
next
  case True
  then obtain c where c: "GetConn dialled (full_addr n i addr) = Some c" "GetConn True (full_addr n i addr) = Some c"
    by (simp add: GetConn_def dialConn_def)
  let ?x = "\<lparr>Command = msg, Sig = sig\<rparr>"
  obtain c' err where send: "SendRPC C fault ty msg sig c = (c', err)" by fastforce
  have r: "r = Ret (c'\<lparr>nc_closed := True\<rparr>, err, if nc_closed c' then Some CloseErr else None)"
    by (simp add: assms(5) broadcast_goroutine_def c send ReturnConn_def Release_def)
  have p: "err = None \<Longrightarrow> nc_out c' = f"
    using SendRPC_prefix [of ?x, OF _ assms(2) c(2), of ty fault c' err] send assms(1) by simp
  have "fst (handleConn C staying_open f) = [?x]"
    using conn_loop_cut [of "[?x]" C f "length f" "length f" 0] assms(2,3) by (auto simp: handleConn_def)
  with p r assms(4) show ?thesis
    by (cases err) (auto simp: send_task_def outcome_of_def Let_def step_clock_def full_addr_def)
qed

theorem send_task_refines_wire_witness:
  "send_task demo_env 0 ''h'' (PrePrepareM demo_proposal) (Some ''s'') (started (demo_conf 1)) \<noteq> Panic NilDereference"
proof -
  let ?n = "started (demo_conf 1)" and ?r = "broadcast_goroutine demo_codec True (\<lambda>i. None)
    (full_addr (started (demo_conf 1)) 0 ''h'') PrePrepareType (PrePrepareM demo_proposal) (Some ''s'') :: (Node, _) go"
  have r: "?r \<noteq> Panic NilDereference" "outcome_of ?r = NetOk"
    by (simp_all add: broadcast_goroutine_def GetConn_def dialConn_def SendRPC_def conn_write_def
        conn_encode_def conn_flush_def demo_codec_def ReturnConn_def Release_def outcome_of_def)
  then have "env_net demo_env (clock ?n) = outcome_of ?r" by (simp add: demo_env_def)
  from send_task_refines_wire [OF _ demo_frame [unfolded demo_rpc_def] demo_codec_ok [unfolded demo_rpc_def] this refl] r(1)
  show ?thesis by auto
qed

section \<open>The listener\<close>

lemma nextDelay_iterate:
  "sint ((nextDelay ^^ Suc k) 0) = min (5000000 * 2 ^ k) 1000000000"
proof (induction k)
  case 0
  show ?case by (simp add: nextDelay_def baseDelay_def maxDelay_def)
next
  case (Suc k)
  define d where "d = (nextDelay ^^ Suc k) 0"
  have d: "sint d = min (5000000 * 2 ^ k) 1000000000" using Suc.IH by (simp add: d_def)
  have le: "(5000000 :: int) * 1 \<le> 5000000 * 2 ^ k" by (intro mult_left_mono) simp_all
  then have pos: "0 < sint d" and bound: "sint d \<le> 1000000000" using d by auto
  then have ne: "d \<noteq> 0" by auto
  have dbl: "sint (d * 2) = sint d * 2"
    using pos bound by (simp add: sint_word_ariths(3) signed_take_bit_int_eq_self)
  have "sint (nextDelay d) = min (sint d * 2) 1000000000"
    by (auto simp: nextDelay_def ne dbl maxDelay_def)
  also have "\<dots> = min (5000000 * 2 ^ Suc k) 1000000000" using d by auto
  finally show ?case by (simp add: d_def)
qed

lemma listen_delays:
  "\<not> tr_shutdownCh_closed t \<Longrightarrow>
   fst (listen t d (replicate k (AcceptFails False))) = map (\<lambda>i. (nextDelay ^^ Suc i) d) [0..<k]"
proof (induction k arbitrary: d)
  case (Suc k)
  have "map (\<lambda>i. (nextDelay ^^ Suc i) d) [0..<Suc k] =
      nextDelay d # map (\<lambda>i. (nextDelay ^^ Suc i) (nextDelay d)) [0..<k]"
    by (simp add: upt_conv_Cons map_Suc_upt [symmetric] funpow_swap1 del: upt_Suc)
  with Suc show ?case by (simp add: case_prod_beta Let_def)
qed simp

text \<open>
  While accepts keep failing the listener waits 5 ms, then twice as long each time, up to
  one second; the doubling never overflows the 64-bit duration.
\<close>

theorem listen_backoff:
  assumes "\<not> tr_shutdownCh_closed t"
  shows "map sint (fst (listen t 0 (replicate k (AcceptFails False)))) =
    map (\<lambda>i. min (5000000 * 2 ^ i) 1000000000) [0..<k]"
  using nextDelay_iterate by (simp add: listen_delays [OF assms] del: funpow.simps)

theorem listen_backoff_witness:
  "map sint (fst (listen (NewNetworkTransport \<lparr>sl_Addr = ''h'', sl_Open = True\<rparr> 0 5) 0 (replicate 9 (AcceptFails False)))) =
    [5000000, 10000000, 20000000, 40000000, 80000000, 160000000, 320000000, 640000000, 1000000000]"
  using listen_backoff [of "NewNetworkTransport \<lparr>sl_Addr = ''h'', sl_Open = True\<rparr> 0 5" 9]
  by (simp add: NewNetworkTransport_def NewNetworkTransportWithConfig_def setupStreamContext_def upt_rec)

text \<open>
  Closing is idempotent; once closed nothing is accepted any more, so the listener's next turn
  is a failing accept and ends it.
\<close>

lemma Close_idempotent: "Close t = Ret t' \<Longrightarrow> tr_shutdown t' \<and> Close t' = Ret t'"
  by (auto simp: Close_def split: if_splits)

lemma Close_stops_listen:
  "NewTCPTransport True addr to pool = Some t \<Longrightarrow> Close t = Ret t' \<Longrightarrow>
   IsShutdown t' \<and> stream_Accept (tr_stream t') a = None \<and> getStreamContext t' = Some False \<and>
   LocalAddr t' = addr \<and> listen t' d (AcceptFails b # as) = ([], [], True)"
  by (auto simp: NewTCPTransport_def newTCPTransport_def NewNetworkTransport_def NewNetworkTransportWithConfig_def
      setupStreamContext_def getStreamContext_def LocalAddr_def stream_Accept_def stream_Close_def stream_Addr_def
      Close_def IsShutdown_def Let_def)

end
