(* ===== verification/JsonParse.thy ===== *)
theory JsonParse
  imports Json
begin

text \<open>
  What the program uses of \<open>json.Decoder\<close> (\<open>decode\<close> in core/utils.go and sign/tools.go): parsing
  one JSON value off the front of a text, unquoting its strings, and storing values into
  integer and byte-slice fields of a struct. What follows the value is not looked at. The
  parser recurses with fuel; the length of the text is enough, since every call consumes a
  byte. The main lemma is that the parser reads back what \<open>render\<close> prints.
\<close>

section \<open>Parsed values\<close>

text \<open>Numbers keep their text, since what it means depends on the field they are stored in.\<close>

datatype jval =
    VNull
  | VBool bool
  | VNum string
  | VStr string
  | VArr "jval list"
  | VObj "(string \<times> jval) list"

definition is_ws :: "char \<Rightarrow> bool" where
  "is_ws c \<longleftrightarrow> byte_of c \<in> {32, 9, 10, 13}"

definition skip_ws :: "string \<Rightarrow> string" where
  "skip_ws s = dropWhile is_ws s"

section \<open>Strings\<close>

fun hex4 :: "string \<Rightarrow> (nat \<times> string) option" where
  "hex4 (a # b # c # d # r) =
     (case (unhex a, unhex b, unhex c, unhex d) of
        (Some a, Some b, Some c, Some d) \<Rightarrow> Some (4096 * a + 256 * b + 16 * c + d, r)
      | _ \<Rightarrow> None)"
| "hex4 _ = None"

definition utf8_of_rune :: "nat \<Rightarrow> string" where
  "utf8_of_rune u =
     (if u < 128 then [chr u]
      else if u < 2048 then [chr (192 + u div 64), chr (128 + u mod 64)]
      else if 55296 \<le> u \<and> u \<le> 57343 \<or> u > 1114111 then [chr 239, chr 191, chr 189]
      else if u < 65536 then [chr (224 + u div 4096), chr (128 + u div 64 mod 64), chr (128 + u mod 64)]
      else [chr (240 + u div 262144), chr (128 + u div 4096 mod 64), chr (128 + u div 64 mod 64),
            chr (128 + u mod 64)])"

text \<open>
  The rest of an escape \<open>\u\<close>: a high surrogate takes the low surrogate that follows it, any
  other surrogate becomes the replacement character.
\<close>

definition unquote_u :: "string \<Rightarrow> (string \<times> string) option" where
  "unquote_u r =
     (case hex4 r of
        None \<Rightarrow> None
      | Some (u, r') \<Rightarrow>
          (if 55296 \<le> u \<and> u < 56320
           then (case r' of
                   b # e # r'' \<Rightarrow>
                     (case (if b = chr 92 \<and> e = CHR ''u'' then hex4 r'' else None) of
                        Some (v, r3) \<Rightarrow>
                          (if 56320 \<le> v \<and> v < 57344
                           then Some (utf8_of_rune (65536 + (u - 55296) * 1024 + (v - 56320)), r3)
                           else Some (utf8_of_rune 65533, r'))
                      | None \<Rightarrow> Some (utf8_of_rune 65533, r'))
                 | _ \<Rightarrow> Some (utf8_of_rune 65533, r'))
           else Some (utf8_of_rune u, r')))"

definition simple_escape :: "char \<Rightarrow> char option" where
  "simple_escape c =
     (if c = CHR 0x22 \<or> c = chr 92 \<or> c = CHR ''/'' then Some c
      else if c = CHR ''b'' then Some (chr 8) else if c = CHR ''f'' then Some (chr 12)
      else if c = CHR ''n'' then Some (chr 10) else if c = CHR ''r'' then Some (chr 13)
      else if c = CHR ''t'' then Some (chr 9) else None)"

text \<open>The text after the opening quote: the string's bytes and what follows the closing quote.\<close>

fun parse_string :: "nat \<Rightarrow> string \<Rightarrow> (string \<times> string) option" where
  "parse_string 0 s = None"
| "parse_string (Suc k) [] = None"
| "parse_string (Suc k) (c # r) =
     (if c = CHR 0x22 then Some ([], r)
      else if byte_of c < 32 then None
      else if c = chr 92 then
        (case r of
           [] \<Rightarrow> None
         | e # r' \<Rightarrow>
             (case (if e = CHR ''u'' then unquote_u r' else map_option (\<lambda>x. ([x], r')) (simple_escape e)) of
                None \<Rightarrow> None
              | Some (s, r'') \<Rightarrow> map_option (map_prod ((@) s) id) (parse_string k r'')))
      else if byte_of c < 128 then map_option (map_prod (Cons c) id) (parse_string k r)
      else (let j = utf8_size (c # r) in
        if j = 0 then map_option (map_prod ((@) (utf8_of_rune 65533)) id) (parse_string k r)
        else map_option (map_prod ((@) (take j (c # r))) id) (parse_string k (drop j (c # r)))))"

section \<open>Numbers\<close>

definition digits_of :: "string \<Rightarrow> string \<times> string" where
  "digits_of s = (takeWhile is_digit s, dropWhile is_digit s)"

text \<open>The three parts of a number: integer, fraction, exponent.\<close>

definition int_part :: "string \<Rightarrow> (string \<times> string) option" where
  "int_part s =
     (case s of
        [] \<Rightarrow> None
      | c # r \<Rightarrow> if c = CHR ''0'' then Some ([c], r)
                else if is_digit c then Some (digits_of s) else None)"

definition frac_part :: "string \<Rightarrow> (string \<times> string) option" where
  "frac_part s =
     (case s of
        [] \<Rightarrow> Some ([], s)
      | c # r \<Rightarrow> if c = CHR ''.''
                then (let (ds, r') = digits_of r in if ds = [] then None else Some (c # ds, r'))
                else Some ([], s))"

definition exp_part :: "string \<Rightarrow> (string \<times> string) option" where
  "exp_part s =
     (case s of
        [] \<Rightarrow> Some ([], s)
      | c # r \<Rightarrow> if c = CHR ''e'' \<or> c = CHR ''E''
                then (let (sg, r) = (case r of d # r' \<Rightarrow> if d = CHR ''+'' \<or> d = CHR ''-'' then ([d], r') else ([], r)
                                       | [] \<Rightarrow> ([], r));
                          (ds, r') = digits_of r
                      in if ds = [] then None else Some (c # sg @ ds, r'))
                else Some ([], s))"

definition parse_number :: "string \<Rightarrow> (string \<times> string) option" where
  "parse_number s =
     (let (sg, s) = (case s of c # r \<Rightarrow> if c = CHR ''-'' then ([c], r) else ([], s) | [] \<Rightarrow> ([], s)) in
      case int_part s of None \<Rightarrow> None
      | Some (i, s) \<Rightarrow> (case frac_part s of None \<Rightarrow> None
      | Some (f, s) \<Rightarrow> (case exp_part s of None \<Rightarrow> None
      | Some (e, s) \<Rightarrow> Some (sg @ i @ f @ e, s))))"

section \<open>Values\<close>

definition expect :: "string \<Rightarrow> string \<Rightarrow> string option" where
  "expect w s = (if take (length w) s = w then Some (drop (length w) s) else None)"

text \<open>
  \<open>parse_elems\<close> and \<open>parse_members\<close> read what follows the opening bracket of a non-empty array
  or object; the empty ones are recognised by \<open>parse_value\<close>.
\<close>

fun parse_value :: "nat \<Rightarrow> string \<Rightarrow> (jval \<times> string) option"
  and parse_elems :: "nat \<Rightarrow> string \<Rightarrow> (jval list \<times> string) option"
  and parse_members :: "nat \<Rightarrow> string \<Rightarrow> ((string \<times> jval) list \<times> string) option" where
  "parse_value 0 s = None"
| "parse_value (Suc k) s =
     (case skip_ws s of
        [] \<Rightarrow> None
      | c # r \<Rightarrow>
          if c = CHR 0x22 then map_option (map_prod VStr id) (parse_string (length r) r)
          else if c = CHR ''['' then
            (case expect '']'' (skip_ws r) of
               Some r' \<Rightarrow> Some (VArr [], r')
             | None \<Rightarrow> map_option (map_prod VArr id) (parse_elems k r))
          else if c = CHR ''{'' then
            (case expect ''}'' (skip_ws r) of
               Some r' \<Rightarrow> Some (VObj [], r')
             | None \<Rightarrow> map_option (map_prod VObj id) (parse_members k r))
          else if c = CHR ''n'' then map_option (\<lambda>r'. (VNull, r')) (expect ''ull'' r)
          else if c = CHR ''t'' then map_option (\<lambda>r'. (VBool True, r')) (expect ''rue'' r)
          else if c = CHR ''f'' then map_option (\<lambda>r'. (VBool False, r')) (expect ''alse'' r)
          else map_option (map_prod VNum id) (parse_number (c # r)))"
| "parse_elems 0 s = None"
| "parse_elems (Suc k) s =
     (case parse_value k s of
        None \<Rightarrow> None
      | Some (v, r) \<Rightarrow>
          (case skip_ws r of
             [] \<Rightarrow> None
           | c # r' \<Rightarrow>
               if c = CHR '']'' then Some ([v], r')
               else if c = CHR '','' then map_option (map_prod (Cons v) id) (parse_elems k r')
               else None))"
| "parse_members 0 s = None"
| "parse_members (Suc k) s =
     (case skip_ws s of
        [] \<Rightarrow> None
      | q # r0 \<Rightarrow>
          if q \<noteq> CHR 0x22 then None else
          (case parse_string (length r0) r0 of
             None \<Rightarrow> None
           | Some (key, r1) \<Rightarrow>
               (case expect '':'' (skip_ws r1) of
                  None \<Rightarrow> None
                | Some r2 \<Rightarrow>
                    (case parse_value k r2 of
                       None \<Rightarrow> None
                     | Some (v, r) \<Rightarrow>
                         (case skip_ws r of
                            [] \<Rightarrow> None
                          | c # r' \<Rightarrow>
                              if c = CHR ''}'' then Some ([(key, v)], r')
                              else if c = CHR '','' then map_option (map_prod (Cons (key, v)) id) (parse_members k r')
                              else None)))))"

definition parse_json :: "string \<Rightarrow> jval option" where
  "parse_json s = map_option fst (parse_value (Suc (length s)) s)"

section \<open>Storing a value into a field\<close>

text \<open>
  Each gives the new value of the field, or an error. \<open>null\<close> leaves an integer alone and
  makes a slice nil. An array of numbers can also be stored into a byte slice.
\<close>

definition all_digits :: "string \<Rightarrow> bool" where
  "all_digits s \<longleftrightarrow> s \<noteq> [] \<and> list_all is_digit s"

definition parse_int :: "string \<Rightarrow> int option" where
  "parse_int s =
     (case s of
        c # r \<Rightarrow> if c = CHR ''-'' then (if all_digits r then Some (- int (undec r 0)) else None)
                 else if all_digits s then Some (int (undec s 0)) else None
      | [] \<Rightarrow> None)"

definition store_int :: "int \<Rightarrow> jval \<Rightarrow> int option" where
  "store_int old v =
     (case v of
        VNull \<Rightarrow> Some old
      | VNum s \<Rightarrow> (case parse_int s of
                    None \<Rightarrow> None
                  | Some i \<Rightarrow> if - (2 ^ 63) \<le> i \<and> i < 2 ^ 63 then Some i else None)
      | _ \<Rightarrow> None)"

definition store_byte :: "jval \<Rightarrow> char option" where
  "store_byte v =
     (case v of
        VNull \<Rightarrow> Some (chr 0)
      | VNum s \<Rightarrow> (case parse_int s of
                    None \<Rightarrow> None
                  | Some i \<Rightarrow> if 0 \<le> i \<and> i < 256 \<and> all_digits s then Some (chr (nat i)) else None)
      | _ \<Rightarrow> None)"

fun collect :: "('a \<Rightarrow> 'b option) \<Rightarrow> 'a list \<Rightarrow> 'b list option" where
  "collect f [] = Some []"
| "collect f (x # xs) = (case f x of None \<Rightarrow> None | Some y \<Rightarrow> map_option (Cons y) (collect f xs))"

definition store_bytes :: "jval \<Rightarrow> gobytes option" where
  "store_bytes v =
     (case v of
        VNull \<Rightarrow> Some None
      | VStr s \<Rightarrow> map_option Some (b64_decode (filter (\<lambda>c. c \<noteq> chr 10 \<and> c \<noteq> chr 13) s))
      | VArr vs \<Rightarrow> map_option Some (collect store_byte vs)
      | _ \<Rightarrow> None)"

definition store_slices :: "jval \<Rightarrow> gobytes list option option" where
  "store_slices v =
     (case v of
        VNull \<Rightarrow> Some None
      | VArr vs \<Rightarrow> map_option Some (collect store_bytes vs)
      | _ \<Rightarrow> None)"

text \<open>
  A key is matched with a field name up to case, where \<open>encoding/json\<close> also takes the long s
  for an S and the Kelvin sign for a K.
\<close>

fun fold_key :: "string \<Rightarrow> string" where
  "fold_key [] = []"
| "fold_key (c # cs) =
     (if map byte_of (take 2 (c # cs)) = [197, 191] then CHR ''S'' # fold_key (drop 1 cs)
      else if map byte_of (take 3 (c # cs)) = [226, 132, 170] then CHR ''K'' # fold_key (drop 2 cs)
      else (if 97 \<le> byte_of c \<and> byte_of c \<le> 122 then chr (byte_of c - 32) else c) # fold_key cs)"

declare fold_key.simps [simp del]

text \<open>
  The members of an object are stored in order, and unknown ones skipped; \<open>st\<close> stores one
  member. A value that does not fit is an error in the end.
\<close>

primrec store_members :: "('a \<Rightarrow> string \<Rightarrow> jval \<Rightarrow> 'a option) \<Rightarrow> (string \<times> jval) list \<Rightarrow> 'a \<Rightarrow> 'a option" where
  "store_members st [] x = Some x"
| "store_members st (kv # kvs) x =
     (case st x (fold_key (fst kv)) (snd kv) of None \<Rightarrow> None | Some y \<Rightarrow> store_members st kvs y)"

definition decode_struct :: "('a \<Rightarrow> string \<Rightarrow> jval \<Rightarrow> 'a option) \<Rightarrow> 'a \<Rightarrow> string \<Rightarrow> 'a option" where
  "decode_struct st zero s =
     (case parse_json s of
        None \<Rightarrow> None
      | Some VNull \<Rightarrow> Some zero
      | Some (VObj kvs) \<Rightarrow> store_members st kvs zero
      | Some _ \<Rightarrow> None)"

section \<open>Reading back what is printed\<close>

primrec val_of :: "json \<Rightarrow> jval" where
  "val_of JNull = VNull"
| "val_of (JNum i) = VNum (itoa i)"
| "val_of (JText s) = VStr s"
| "val_of (JArr vs) = VArr (map val_of vs)"
| "val_of (JObj kvs) = VObj (map (map_prod id val_of) kvs)"

text \<open>The bytes that follow a value inside a larger one, or at the end of a text.\<close>

definition ends_value :: "string \<Rightarrow> bool" where
  "ends_value r \<longleftrightarrow> r = [] \<or> byte_of (hd r) \<in> {byte_of (CHR '',''), byte_of (CHR '']''), byte_of (CHR ''}''), 10}"

lemma char_facts [simp]:
  "byte_of (CHR 0x22) = 34" "byte_of (CHR '','') = 44" "byte_of (CHR '']'') = 93" "byte_of (CHR ''}'') = 125"
  "byte_of (CHR ''-'') = 45" "byte_of (CHR ''['') = 91" "byte_of (CHR ''{'') = 123" "byte_of (CHR '':'') = 58"
  "byte_of (CHR ''n'') = 110" "byte_of (CHR ''0'') = 48" "byte_of (CHR ''.'') = 46" "byte_of (CHR ''e'') = 101"
  "byte_of (CHR ''E'') = 69"
  by (simp_all add: byte_of_def)

lemma not_ws [simp]:
  "\<not> is_ws (CHR 0x22)" "\<not> is_ws (CHR '','')" "\<not> is_ws (CHR '']'')" "\<not> is_ws (CHR ''}'')"
  "\<not> is_ws (CHR ''['')" "\<not> is_ws (CHR ''{'')" "\<not> is_ws (CHR '':'')" "\<not> is_ws (CHR ''n'')" "\<not> is_ws (CHR ''-'')"
  by (simp_all add: is_ws_def)

lemma skip_ws_id [simp]: "\<not> is_ws c \<Longrightarrow> skip_ws (c # r) = c # r"
  by (simp add: skip_ws_def)

lemma digit_not_ws: "is_digit c \<Longrightarrow> \<not> is_ws c"
  by (auto simp: is_digit_def is_ws_def)

lemma parse_string_safe:
  "safe_text s \<Longrightarrow> length s < k \<Longrightarrow> parse_string k (s @ CHR 0x22 # r) = Some (s, r)"
proof (induction s arbitrary: k)
  case Nil
  then show ?case by (cases k) auto
next
  case (Cons c s)
  then obtain j where k: "k = Suc j" "length s < j" by (cases k) auto
  from Cons.prems(1) have c: "html_safe c" "safe_text s" by (simp_all add: safe_text.simps)
  then have "c \<noteq> CHR 0x22" "c \<noteq> chr 92" "32 \<le> byte_of c" "byte_of c < 128"
    by (auto simp: html_safe_def Let_def)
  with Cons.IH [OF c(2) k(2)] k show ?case by simp
qed

lemma dec_leading: "is_digit (hd (dec n)) \<and> (hd (dec n) = CHR ''0'' \<longrightarrow> dec n = ''0'')"
proof (induction n rule: dec.induct)
  case (1 n)
  show ?case
  proof (cases "n < 10")
    case True
    then show ?thesis by (subst (1 2 3) dec.simps) (auto simp: is_digit_def)
  next
    case False
    with 1 have IH: "is_digit (hd (dec (n div 10)))" "hd (dec (n div 10)) = CHR ''0'' \<longrightarrow> dec (n div 10) = ''0''"
      by simp_all
    have "dec (n div 10) \<noteq> ''0''"
    proof
      assume "dec (n div 10) = ''0''"
      then have "n div 10 = undec ''0'' 0" by (metis undec_dec)
      then have "n div 10 = 0" by (simp add: byte_of_def)
      with False show False by simp
    qed
    with IH False show ?thesis by (subst (1 2 3) dec.simps) simp
  qed
qed

lemma ends_value_parts:
  assumes "ends_value r"
  shows "takeWhile is_digit r = []" "dropWhile is_digit r = r" "frac_part r = Some ([], r)" "exp_part r = Some ([], r)"
proof -
  have "r = [] \<or> (\<exists>c cs. r = c # cs \<and> \<not> is_digit c \<and> c \<noteq> CHR ''.'' \<and> c \<noteq> CHR ''e'' \<and> c \<noteq> CHR ''E'')"
    using assms by (cases r) (auto simp: ends_value_def is_digit_def)
  then show "takeWhile is_digit r = []" "dropWhile is_digit r = r" "frac_part r = Some ([], r)" "exp_part r = Some ([], r)"
    by (auto simp: frac_part_def exp_part_def)
qed

lemma int_part_dec: "ends_value r \<Longrightarrow> int_part (dec n @ r) = Some (dec n, r)"
proof -
  assume r: "ends_value r"
  obtain c cs where d: "dec n = c # cs" by (cases "dec n") auto
  have all: "\<forall>x \<in> set (dec n). is_digit x" by (blast intro: dec_digits)
  show ?thesis
  proof (cases "c = CHR ''0''")
    case True
    with dec_leading [of n] d have "cs = []" by simp
    with True d show ?thesis by (simp add: int_part_def)
  next
    case False
    with all d ends_value_parts [OF r] show ?thesis
      by (simp add: int_part_def digits_of_def takeWhile_append2 dropWhile_append2)
  qed
qed

lemma parse_number_itoa:
  assumes "ends_value r"
  shows "parse_number (itoa i @ r) = Some (itoa i, r)"
proof (cases "i < 0")
  case True
  then show ?thesis
    by (simp add: parse_number_def itoa_def int_part_dec [OF assms] ends_value_parts [OF assms])
next
  case False
  obtain c cs where d: "dec (nat i) = c # cs" by (cases "dec (nat i)") auto
  with dec_leading [of "nat i"] have "c \<noteq> CHR ''-''" by (auto simp: is_digit_def)
  with False d show ?thesis
    using int_part_dec [OF assms, of "nat i"]
    by (simp add: parse_number_def itoa_def ends_value_parts [OF assms])
qed

lemma itoa_head:
  obtains c cs where "itoa i = c # cs" and "c = CHR ''-'' \<or> is_digit c"
  using dec_leading [of "nat i"] dec_leading [of "nat (- i)"]
  by (cases "itoa i") (auto simp: itoa_def split: if_splits)

lemma expect_head: "expect [a] (c # r) = (if c = a then Some r else None)"
  by (simp add: expect_def)

lemma render_head: "\<exists>c cs. render v = c # cs \<and> \<not> is_ws c \<and> c \<noteq> CHR '']'' \<and> c \<noteq> CHR ''}''"
proof (cases v)
  case (JNum i)
  obtain c cs where "itoa i = c # cs" "c = CHR ''-'' \<or> is_digit c" by (rule itoa_head)
  then show ?thesis using JNum digit_not_ws by (auto simp: is_digit_def)
qed (simp_all add: json_quote_def)

lemma ends_value_simps [simp]:
  "ends_value (CHR '','' # r)" "ends_value (CHR '']'' # r)" "ends_value (CHR ''}'' # r)" "ends_value [chr 10]"
  by (simp_all add: ends_value_def)

lemma expect_neq: "c \<noteq> a \<Longrightarrow> expect [a] (c # r) = None"
  by (simp add: expect_def)

lemma render_length: "render v \<noteq> []"
  using render_head [of v] by auto

text \<open>Items of an array, given that each of them is read back.\<close>

lemma parse_elems_joinc:
  assumes "\<And>x k r. x \<in> set xs \<Longrightarrow> ends_value r \<Longrightarrow> length (render x) \<le> k \<Longrightarrow>
      parse_value k (render x @ r) = Some (val_of x, r)"
    and "xs \<noteq> []" and "length (joinc (map render xs)) < k"
  shows "parse_elems k (joinc (map render xs) @ CHR '']'' # r) = Some (map val_of xs, r)"
  using assms
proof (induction xs arbitrary: k)
  case (Cons x xs)
  from Cons.prems(3) obtain j where k: "k = Suc j" by (cases k) auto
  show ?case
  proof (cases xs)
    case Nil
    with Cons.prems(3) k have "parse_value j (render x @ CHR '']'' # r) = Some (val_of x, CHR '']'' # r)"
      by (intro Cons.prems(1)) auto
    with Nil k show ?thesis by simp
  next
    case (Cons y ys)
    let ?t = "joinc (map render xs) @ CHR '']'' # r"
    have len: "length (render x) \<le> j" "length (joinc (map render xs)) < j"
      using Cons Cons.prems(3) k by simp_all
    have "parse_value j (render x @ CHR '','' # ?t) = Some (val_of x, CHR '','' # ?t)"
      by (rule Cons.prems(1)) (use len in auto)
    moreover have "parse_elems j ?t = Some (map val_of xs, r)"
      by (rule Cons.IH) (use Cons.prems(1) Cons len in auto)
    ultimately show ?thesis using Cons k by simp
  qed
qed simp

lemma parse_members_joinc:
  assumes "\<And>key x k r. (key, x) \<in> set xs \<Longrightarrow> ends_value r \<Longrightarrow> length (render x) \<le> k \<Longrightarrow>
      parse_value k (render x @ r) = Some (val_of x, r)"
    and "\<forall>p \<in> set xs. safe_text (fst p)"
    and "xs \<noteq> []" and "length (joinc (map member_text (map (map_prod id render) xs))) < k"
  shows "parse_members k (joinc (map member_text (map (map_prod id render) xs)) @ CHR ''}'' # r) =
    Some (map (map_prod id val_of) xs, r)"
  using assms
proof (induction xs arbitrary: k)
  case (Cons p xs)
  obtain key x where p: "p = (key, x)" by fastforce
  from Cons.prems(4) obtain j where k: "k = Suc j" by (cases k) auto
  have safe: "safe_text key" using Cons.prems(2) p by simp
  have str: "parse_string (length (key @ CHR 0x22 # t)) (key @ CHR 0x22 # t) = Some (key, t)" for t
    by (rule parse_string_safe [OF safe]) simp
  have colon: "expect '':'' (skip_ws (CHR '':'' # t)) = Some t" for t by (simp add: expect_head)
  have mt: "member_text (key, render x) = CHR 0x22 # key @ CHR 0x22 # CHR '':'' # render x"
    by (simp add: member_text_def json_quote_def json_escape_safe [OF safe])
  have val: "parse_value j (render x @ t) = Some (val_of x, t)" if "ends_value t" for t
  proof (rule Cons.prems(1))
    show "length (render x) \<le> j" using Cons.prems(4) k mt p by (cases xs) auto
  qed (use p that in auto)
  show ?case
  proof (cases xs)
    case Nil
    then show ?thesis using k p mt str [of "CHR '':'' # render x @ CHR ''}'' # r"] colon val by simp
  next
    case (Cons y ys)
    let ?t = "joinc (map member_text (map (map_prod id render) xs)) @ CHR ''}'' # r"
    have "parse_members j ?t = Some (map (map_prod id val_of) xs, r)"
      by (rule Cons.IH) (use Cons.prems(1,2,4) Cons p k in auto)
    moreover have "joinc (map member_text (map (map_prod id render) (p # xs))) @ CHR ''}'' # r =
        CHR 0x22 # key @ CHR 0x22 # CHR '':'' # render x @ CHR '','' # ?t"
      by (simp add: Cons p mt)
    ultimately obtain t where t: "parse_members j t = Some (map (map_prod id val_of) xs, r)"
      and eq: "joinc (map member_text (map (map_prod id render) (p # xs))) @ CHR ''}'' # r =
        CHR 0x22 # key @ CHR 0x22 # CHR '':'' # render x @ CHR '','' # t" by blast
    show ?thesis
      using t str [of "CHR '':'' # render x @ CHR '','' # t"] colon val [of "CHR '','' # t"]
      unfolding eq k by (simp add: p id_def)
  qed
qed simp

lemma parse_value_render:
  assumes "json_plain v" and "ends_value r" and "length (render v) \<le> k"
  shows "parse_value k (render v @ r) = Some (val_of v, r)"
  using assms
proof (induction v arbitrary: k r)
  case JNull
  then obtain j where "k = Suc j" by (cases k) auto
  then show ?case by (simp add: expect_def)
next
  case (JNum i)
  obtain c cs where c: "itoa i = c # cs" "c = CHR ''-'' \<or> is_digit c" by (rule itoa_head)
  from JNum c obtain j where k: "k = Suc j" by (cases k) auto
  from c(2) have "\<not> is_ws c" "byte_of c < 58" using digit_not_ws by (auto simp: is_digit_def)
  then have "skip_ws (c # cs @ r) = c # cs @ r" "c \<noteq> CHR 0x22" "c \<noteq> CHR ''[''" "c \<noteq> CHR ''{''"
    "c \<noteq> CHR ''n''" "c \<noteq> CHR ''t''" "c \<noteq> CHR ''f''" 
    using c(2) by (auto simp: is_digit_def byte_of_def)
  with parse_number_itoa [OF JNum.prems(2), of i] c k show ?case by simp
next
  case (JText s)
  then obtain j where "k = Suc j" by (cases k) (auto simp: json_quote_def)
  with JText show ?case
    by (simp add: json_quote_def json_escape_safe parse_string_safe)
next
  case (JArr vs)
  then obtain j where k: "k = Suc j" by (cases k) auto
  have pl: "\<forall>x \<in> set vs. json_plain x" using JArr.prems(1) by (simp add: list_all_iff)
  show ?case
  proof (cases vs)
    case Nil
    then show ?thesis by (simp add: k expect_head)
  next
    case (Cons x xs)
    obtain c cs where c: "render x = c # cs" "\<not> is_ws c" "c \<noteq> CHR '']''" using render_head [of x] by blast
    have "joinc (map render vs) = c # tl (joinc (map render vs))"
      using c by (cases xs) (simp_all add: Cons)
    then have "expect '']'' (skip_ws (joinc (map render vs) @ CHR '']'' # r)) = None"
      using c by (metis append_Cons expect_neq skip_ws_id)
    moreover have "parse_elems j (joinc (map render vs) @ CHR '']'' # r) = Some (map val_of vs, r)"
      by (rule parse_elems_joinc) (use JArr.IH JArr.prems pl k Cons in auto)
    ultimately show ?thesis by (simp add: k)
  qed
next
  case (JObj kvs)
  then obtain j where k: "k = Suc j" by (cases k) auto
  have pl: "\<forall>(key, x) \<in> set kvs. safe_text key \<and> json_plain x"
    using JObj.prems(1) by (auto simp: list_all_iff)
  show ?case
  proof (cases kvs)
    case Nil
    then show ?thesis by (simp add: k expect_head)
  next
    case (Cons x xs)
    let ?t = "joinc (map member_text (map (map_prod id render) kvs))"
    have "\<exists>t. ?t = CHR 0x22 # t"
      by (cases xs) (simp_all add: Cons member_text_def json_quote_def)
    then have "expect ''}'' (skip_ws (?t @ CHR ''}'' # r)) = None"
      by (elim exE) (simp add: expect_neq)
    moreover have "parse_members j (?t @ CHR ''}'' # r) = Some (map (map_prod id val_of) kvs, r)"
    proof (rule parse_members_joinc)
      show "parse_value i (render x @ s) = Some (val_of x, s)"
        if "(key, x) \<in> set kvs" "ends_value s" "length (render x) \<le> i" for key x i s
        using that JObj.IH [of "(key, x)" x s i] pl by auto
      show "\<forall>p \<in> set kvs. safe_text (fst p)" using pl by auto
    qed (use JObj.prems k Cons in simp_all)
    ultimately show ?thesis by (simp add: k)
  qed
qed

text \<open>\<open>decode\<close> sees the value \<open>encode\<close> was given.\<close>

lemma parse_encode: "json_plain v \<Longrightarrow> parse_json (bytes_of (encode v)) = Some (val_of v)"
  by (simp add: parse_json_def encode_def parse_value_render del: parse_value.simps)

end
