(* ===== verification/Keys.thy ===== *)
theory Keys
  imports Sign JsonParse
begin

text \<open>
  The byte form of threshold keys (sign/tools.go): the marshalled structs rendered as JSON, and
  read back. What kyber's own marshalling has to satisfy is \<open>kyber_marshal_ok\<close> of theory Sign.
\<close>

section \<open>Encoding\<close>

definition j_TSPartialMarshalled :: "TSPartialMarshalled \<Rightarrow> json" where
  "j_TSPartialMarshalled m = JObj [(''I'', JNum (tsp_I m)), (''Binary'', j_bytes (tsp_Binary m))]"

definition j_TSPublicMarshalled :: "TSPublicMarshalled \<Rightarrow> json" where
  "j_TSPublicMarshalled m = JObj
     [(''BaseBytes'', j_bytes (tsq_BaseBytes m)), (''CommitBytes'', JArr (map j_bytes (tsq_CommitBytes m)))]"

text \<open>\<open>None\<close> is an error result.\<close>

definition EncodeTSPartialKey :: "crypto \<Rightarrow> PriShare \<Rightarrow> gobytes option" where
  "EncodeTSPartialKey C priShare =
     (case MarshallTSPartialKey C priShare of
        None \<Rightarrow> None
      | Some mtspk \<Rightarrow> Some (encode (j_TSPartialMarshalled mtspk)))"

definition EncodeTSPublicKey :: "crypto \<Rightarrow> PubPoly \<Rightarrow> gobytes option" where
  "EncodeTSPublicKey C pubkey =
     (case MarshallTSPublicKey C pubkey of
        None \<Rightarrow> None
      | Some tspm \<Rightarrow> Some (encode (j_TSPublicMarshalled tspm)))"

section \<open>Decoding\<close>

definition set_TSPartial :: "TSPartialMarshalled \<Rightarrow> string \<Rightarrow> jval \<Rightarrow> TSPartialMarshalled option" where
  "set_TSPartial m key v =
     (if key = ''I'' then map_option (\<lambda>i. m\<lparr>tsp_I := i\<rparr>) (store_int (tsp_I m) v)
      else if key = ''BINARY'' then map_option (\<lambda>b. m\<lparr>tsp_Binary := b\<rparr>) (store_bytes v)
      else Some m)"

definition set_TSPublic :: "TSPublicMarshalled \<Rightarrow> string \<Rightarrow> jval \<Rightarrow> TSPublicMarshalled option" where
  "set_TSPublic m key v =
     (if key = ''BASEBYTES'' then map_option (\<lambda>b. m\<lparr>tsq_BaseBytes := b\<rparr>) (store_bytes v)
      else if key = ''COMMITBYTES'' then map_option (\<lambda>bs. m\<lparr>tsq_CommitBytes := slice_of bs\<rparr>) (store_slices v)
      else Some m)"

definition DecodeTSPartialKey :: "crypto \<Rightarrow> gobytes \<Rightarrow> PriShare option" where
  "DecodeTSPartialKey C data =
     (case decode_struct set_TSPartial \<lparr>tsp_I = 0, tsp_Binary = None\<rparr> (bytes_of data) of
        None \<Rightarrow> None
      | Some par \<Rightarrow> UnMarshallTSPartialKey C par)"

definition DecodeTSPublicKey :: "crypto \<Rightarrow> gobytes \<Rightarrow> PubPoly option" where
  "DecodeTSPublicKey C data =
     (case decode_struct set_TSPublic \<lparr>tsq_BaseBytes = None, tsq_CommitBytes = []\<rparr> (bytes_of data) of
        None \<Rightarrow> None
      | Some tspm \<Rightarrow> UnMarshallTSPublicKey C tspm)"

text \<open>\<open>share_Hash\<close> is kyber's hash of a share.\<close>

definition EqualTSPartialKey :: "(PriShare \<Rightarrow> gobytes) \<Rightarrow> PriShare \<Rightarrow> PriShare \<Rightarrow> bool" where
  "EqualTSPartialKey share_Hash p1 p2 \<longleftrightarrow> share_I p1 = share_I p2 \<and> bytes_Equal (share_Hash p1) (share_Hash p2)"

section \<open>Round trips\<close>

lemma parse_int_itoa: "parse_int (itoa i) = Some i"
proof -
  have digits: "all_digits (dec n)" for n by (auto simp: all_digits_def list_all_iff dest: dec_digits)
  show ?thesis
  proof (cases "i < 0")
    case True
    then show ?thesis by (simp add: parse_int_def itoa_def digits undec_dec)
  next
    case False
    obtain c cs where d: "dec (nat i) = c # cs" by (cases "dec (nat i)") auto
    with dec_digits [of c "nat i"] have "c \<noteq> CHR ''-''" by (auto simp: is_digit_def)
    with False d digits [of "nat i"] undec_dec [of "nat i"] show ?thesis
      by (simp add: parse_int_def itoa_def)
  qed
qed

lemma store_int_itoa: "- (2 ^ 63) \<le> i \<Longrightarrow> i < 2 ^ 63 \<Longrightarrow> store_int old (VNum (itoa i)) = Some i"
  by (simp add: store_int_def parse_int_itoa)

lemma b64_no_breaks: "filter (\<lambda>c. c \<noteq> chr 10 \<and> c \<noteq> chr 13) (b64_encode s) = b64_encode s"
proof (rule filter_True, intro ballI)
  fix c assume "c \<in> set (b64_encode s)"
  with b64_safe [of s] have "32 \<le> byte_of c" by (auto simp: safe_text.simps html_safe_def Let_def)
  then show "c \<noteq> chr 10 \<and> c \<noteq> chr 13" by auto
qed

lemma store_bytes_j: "store_bytes (val_of (j_bytes b)) = Some b"
  by (cases b) (simp_all add: store_bytes_def j_bytes_def b64_no_breaks b64_decode_encode)

lemma collect_store_bytes: "collect store_bytes (map (\<lambda>b. val_of (j_bytes b)) bs) = Some bs"
  by (induction bs) (simp_all add: store_bytes_j)

lemma j_bytes_plain [simp]: "json_plain (j_bytes b)"
  by (simp add: j_bytes_def b64_safe split: option.split)

lemma key_names [simp]:
  "safe_text ''I''" "safe_text ''Binary''" "safe_text ''BaseBytes''" "safe_text ''CommitBytes''"
  by (simp_all add: safe_text.simps html_safe_def byte_of_def Let_def)

lemma fold_names [simp]:
  "fold_key ''I'' = ''I''" "fold_key ''Binary'' = ''BINARY''"
  "fold_key ''BaseBytes'' = ''BASEBYTES''" "fold_key ''CommitBytes'' = ''COMMITBYTES''"
  by code_simp+

lemma partial_struct_roundtrip:
  assumes "- (2 ^ 63) \<le> tsp_I m" and "tsp_I m < 2 ^ 63"
  shows "decode_struct set_TSPartial z (bytes_of (encode (j_TSPartialMarshalled m))) = Some m"
  using assms
  by (cases m; cases z) (simp add: decode_struct_def parse_encode j_TSPartialMarshalled_def set_TSPartial_def store_int_itoa
      store_bytes_j)

lemma public_struct_roundtrip:
  "decode_struct set_TSPublic z (bytes_of (encode (j_TSPublicMarshalled m))) = Some m"
  by (cases m; cases z) (simp add: decode_struct_def parse_encode j_TSPublicMarshalled_def set_TSPublic_def store_bytes_j
      store_slices_def collect_store_bytes list_all_iff comp_def)

lemma partial_key_bytes:
  assumes "kyber_marshal_ok C" and "EncodeTSPartialKey C k = Some data"
    and "- (2 ^ 63) \<le> share_I k" and "share_I k < 2 ^ 63"
  shows "DecodeTSPartialKey C data = Some k"
proof -
  from assms(2) obtain m where m: "MarshallTSPartialKey C k = Some m" "data = encode (j_TSPartialMarshalled m)"
    by (auto simp: EncodeTSPartialKey_def split: option.splits)
  then have "tsp_I m = share_I k" by (auto simp: MarshallTSPartialKey_def split: option.splits)
  with assms m show ?thesis
    using partial_key_roundtrip [OF assms(1) m(1)]
    by (simp add: DecodeTSPartialKey_def partial_struct_roundtrip)
qed

lemma public_key_bytes:
  assumes "kyber_marshal_ok C" and "EncodeTSPublicKey C q = Some data"
  shows "DecodeTSPublicKey C data = Some q"
proof -
  from assms(2) obtain m where m: "MarshallTSPublicKey C q = Some m" "data = encode (j_TSPublicMarshalled m)"
    by (auto simp: EncodeTSPublicKey_def split: option.splits)
  with public_key_roundtrip [OF assms(1) m(1)] show ?thesis
    by (simp add: DecodeTSPublicKey_def public_struct_roundtrip)
qed

end
