(* ===== verification/LoadConfig.thy ===== *)
theory LoadConfig
  imports Config Keys
begin

text \<open>
  Reading a node's configuration (\<open>LoadConfig\<close> in config/config.go). Viper, the library that
  reads the file, is a parameter: its lookup functions, as the code calls them. The values
  of the maps it returns are of unknown type until they are asserted.
\<close>

section \<open>Viper\<close>

datatype iface = IInt int | IStr string | IMap "(string \<times> iface) list"

record viper =
  v_ReadInConfig :: bool
  v_GetString :: "string \<Rightarrow> string"
  v_GetInt :: "string \<Rightarrow> int"
  v_GetStringMap :: "string \<Rightarrow> (string, iface) gomap"

section \<open>Node names\<close>

text \<open>
  \<open>[]rune(name)[4:]\<close>: a byte that starts no UTF-8 sequence is a rune of its own. A name of
  fewer than four runes makes the slice expression panic.
\<close>

fun drop_runes :: "nat \<Rightarrow> string \<Rightarrow> string option" where
  "drop_runes 0 s = Some s"
| "drop_runes (Suc k) [] = None"
| "drop_runes (Suc k) (c # cs) = drop_runes k (drop (max 1 (utf8_size (c # cs))) (c # cs))"

text \<open>
  \<open>strconv.Atoi\<close>: the value, and whether there was no error. A syntax error gives 0, a number
  out of range the nearest 64-bit one.
\<close>

definition Atoi :: "string \<Rightarrow> int \<times> bool" where
  "Atoi s =
     (let (neg, d) = (case s of c # r \<Rightarrow> if c = CHR ''-'' then (True, r) else if c = CHR ''+'' then (False, r) else (False, s)
                        | [] \<Rightarrow> (False, s))
      in if \<not> all_digits d then (0, False)
         else (let v = (if neg then - int (undec d 0) else int (undec d 0))
               in if v < - (2 ^ 63) then (- (2 ^ 63), False)
                  else if v \<ge> 2 ^ 63 then (2 ^ 63 - 1, False) else (v, True)))"

definition node_index :: "string \<Rightarrow> ('s, int \<times> bool) go" where
  "node_index name = (case drop_runes 4 name of None \<Rightarrow> Panic SliceOutOfRange | Some r \<Rightarrow> Ret (Atoi r))"

section \<open>Loading\<close>

datatype load_error = ReadConfigErr | HexErr | KeyErr | PublicKeyErr

text \<open>\<open>if err != nil { return nil, err }\<close>\<close>

definition or_return :: "load_error \<Rightarrow> 'a option \<Rightarrow> ('a \<Rightarrow> ('s, load_error + 'b) go) \<Rightarrow> ('s, load_error + 'b) go" where
  "or_return e x k = (case x of None \<Rightarrow> Ret (Inl e) | Some y \<Rightarrow> k y)"

definition hex_DecodeString :: "string \<Rightarrow> gobytes option" where
  "hex_DecodeString s = (let (b, ok) = hex_decode s in if ok then Some (Some b) else None)"

text \<open>The maps of the peers: public keys, addresses and ports.\<close>

type_synonym peer_maps = "(u32, gobytes) gomap \<times> (u32, string) gomap \<times> (u32, int) gomap"

text \<open>
  One turn of the loop over the public keys: the port and the address are asserted to have
  their types and must be there; the public key's type is checked.
\<close>

definition load_peer ::
  "viper \<Rightarrow> string \<times> iface \<Rightarrow> peer_maps \<Rightarrow> ('s, load_error + peer_maps) go" where
  "load_peer V e maps =
     (let (name, pkAsInterface) = e; (pubKeyMap, clusterAddr, clusterPort) = maps in
      go_bind (node_index name) (\<lambda>(i, _).
      let id = (of_int i :: u32) in
      case gm_get (v_GetStringMap V ''peers_p2p_port'') name of
        Some (IInt port) \<Rightarrow>
          (let clusterPort = gm_put id port clusterPort in
           case gm_get (v_GetStringMap V ''cluster_ips'') name of
             Some (IStr addr) \<Rightarrow>
               (let clusterAddr = gm_put id addr clusterAddr in
                case pkAsInterface of
                  IStr pkAsString \<Rightarrow>
                    or_return HexErr (hex_DecodeString pkAsString) (\<lambda>pubKey.
                      Ret (Inr (gm_put id pubKey pubKeyMap, clusterAddr, clusterPort)))
                | _ \<Rightarrow> Ret (Inl PublicKeyErr))
           | _ \<Rightarrow> Panic BadTypeAssertion)
      | _ \<Rightarrow> Panic BadTypeAssertion))"

fun load_peers ::
  "viper \<Rightarrow> (string \<times> iface) list \<Rightarrow> peer_maps \<Rightarrow> ('s, load_error + peer_maps) go" where
  "load_peers V [] maps = Ret (Inr maps)"
| "load_peers V (e # es) maps =
     go_bind (load_peer V e maps) (\<lambda>r. case r of Inl x \<Rightarrow> Ret (Inl x) | Inr maps' \<Rightarrow> load_peers V es maps')"

definition LoadConfig :: "crypto \<Rightarrow> nat \<Rightarrow> viper \<Rightarrow> ('s, load_error + Config) go" where
  "LoadConfig C s V =
     (if \<not> v_ReadInConfig V then Ret (Inl ReadConfigErr) else
      or_return HexErr (hex_DecodeString (v_GetString V ''ed_prikey'')) (\<lambda>privKeyED.
      or_return HexErr (hex_DecodeString (v_GetString V ''tspubkey'')) (\<lambda>tsPubKeyAsBytes.
      or_return KeyErr (DecodeTSPublicKey C tsPubKeyAsBytes) (\<lambda>tsPub.
      or_return HexErr (hex_DecodeString (v_GetString V ''tsshare'')) (\<lambda>tsShareAsBytes.
      or_return KeyErr (DecodeTSPartialKey C tsShareAsBytes) (\<lambda>tsShareKey.
      or_return HexErr (hex_DecodeString (v_GetString V ''fasttspubkey'')) (\<lambda>fastPubKeyAsBytes.
      or_return KeyErr (DecodeTSPublicKey C fastPubKeyAsBytes) (\<lambda>fastPub.
      or_return HexErr (hex_DecodeString (v_GetString V ''fasttsshare'')) (\<lambda>fastShareAsBytes.
      or_return KeyErr (DecodeTSPartialKey C fastShareAsBytes) (\<lambda>fastShareKey.
      go_bind (load_peers V (range_order s (v_GetStringMap V ''cluster_ed_pubkey'')) ([], [], [])) (\<lambda>r.
      case r of Inl e \<Rightarrow> Ret (Inl e)
      | Inr (pubKeyMap, addrs, ports) \<Rightarrow>
          Ret (Inr \<lparr>c_AddrStr = v_GetString V ''address'', c_ClusterAddr = addrs, c_ClusterPort = ports,
            c_ReplicaId = of_int (v_GetInt V ''replicaid''), c_MyPrivateKey = privKeyED,
            c_PublicKeyMap = pubKeyMap, c_TsPriKey = tsShareKey, c_TsPubKey = tsPub,
            c_FastPriKey = fastShareKey, c_FastPubKey = fastPub,
            c_P2PListenPort = v_GetInt V ''p2p_listen_port'', c_RPCListenPort = v_GetInt V ''rpc_listen_port'',
            c_BatchTimeout = v_GetInt V ''batchtimeout'', c_BatchSize = v_GetInt V ''batchsize'',
            c_CheckPointT = of_int (v_GetInt V ''checkpoint_t''), c_LogK = of_int (v_GetInt V ''log_k''),
            c_MaxPool = v_GetInt V ''maxpool'', c_NodeType = v_GetInt V ''nodetype'',
            c_EvilPR = v_GetInt V ''evilpr'', c_FastTimeout = v_GetInt V ''fastpathtimeout'',
            c_FastQcQuorum = v_GetInt V ''fastqcquorum'',
            c_ViewChangeQuorum = v_GetInt V ''viewChangeQuorum'',
            c_PrePrepareSubsetCount = v_GetInt V ''prePrepareSubsetCount'',
            c_SameIpTimeout = v_GetInt V ''sameiptimeout'',
            c_ViewChangeTimeout = v_GetInt V ''viewchangetimeout'',
            c_LastNewVewTimeout = v_GetInt V ''lastnewvewtimeout'',
            c_AutoViewChange = v_GetInt V ''autoviewchange''\<rparr>))))))))))))"

end
