(* ===== verification/Generate.thy ===== *)
theory Generate
  imports LoadConfig ConfigGen
begin

text \<open>
  The generator's \<open>main\<close> (config\_gen/main.go): from a template with the addresses, ports and
  numbers of faulty nodes it computes one file of settings per process. Key generation
  (\<open>sign.GenKeys\<close>, \<open>sign.GenTSKeys\<close>), the random draws and the success of writing a file are
  parameters. The constant \<open>ProcessCount\<close> is 1 in the code; the definitions have it as an
  argument, so that what they say of the numbering does not depend on it.
\<close>

definition ProcessCount :: int where
  "ProcessCount = 1"

definition node_name :: "int \<Rightarrow> string" where
  "node_name i = ''node'' @ itoa i"

text \<open>\<open>for j := 0; j < ProcessCount; j++\<close> with a \<open>break\<close> after the first turn on machine 0.\<close>

definition process_range :: "int \<Rightarrow> int \<Rightarrow> int list" where
  "process_range c ipIndex = (if ipIndex = 0 then (if 0 < c then [0] else []) else [0..c - 1])"

definition put_processes :: "int \<Rightarrow> int \<Rightarrow> (int \<Rightarrow> 'v) \<Rightarrow> (string, 'v) gomap \<Rightarrow> (string, 'v) gomap" where
  "put_processes c ipIndex f m =
     fold (\<lambda>j. gm_put (node_name (gen_replicaId c ipIndex j)) (f j)) (process_range c ipIndex) m"

section \<open>The maps every node gets\<close>

text \<open>Addresses of all processes.\<close>

fun gen_ips :: "int \<Rightarrow> (string \<times> iface) list \<Rightarrow> (string, string) gomap \<Rightarrow> (unit, (string, string) gomap) go" where
  "gen_ips c [] m = Ret m"
| "gen_ips c ((name, addr) # es) m =
     go_bind (node_index name) (\<lambda>(ipIndex, _).
       case addr of
         IStr a \<Rightarrow> gen_ips c es (put_processes c ipIndex (\<lambda>j. a) m)
       | _ \<Rightarrow> Panic ExplicitPanic)"

text \<open>
  Addresses by machine name, with the names in the order of the loop. (Sorting the slice of
  names before it is filled has no effect.)
\<close>

fun gen_names :: "(string \<times> iface) list \<Rightarrow> (string, string) gomap \<Rightarrow> string list \<Rightarrow>
    (unit, (string, string) gomap \<times> string list) go" where
  "gen_names [] m names = Ret (m, names)"
| "gen_names ((name, addr) # es) m names =
     (case addr of
        IStr a \<Rightarrow> gen_names es (gm_put name a m) (names @ [name])
      | _ \<Rightarrow> Panic ExplicitPanic)"

text \<open>Ports by machine name and of all processes.\<close>

type_synonym port_maps = "(string, int) gomap \<times> (string, int) gomap"

fun gen_ports :: "int \<Rightarrow> (string, iface) gomap \<Rightarrow> string list \<Rightarrow> port_maps \<Rightarrow> (unit, port_maps) go" where
  "gen_ports c ports [] m = Ret m"
| "gen_ports c ports (name # names) (byName, all) =
     (case gm_get ports name of
        Some (IInt p) \<Rightarrow>
          go_bind (node_index name) (\<lambda>(ipIndex, _).
            gen_ports c ports names
              (gm_put name p byName, put_processes c ipIndex (\<lambda>j. p + j * 10) all))
      | _ \<Rightarrow> Panic ExplicitPanic)"

text \<open>The replica numbers in the order their keys are drawn.\<close>

definition key_slots :: "int \<Rightarrow> nat \<Rightarrow> int list" where
  "key_slots c nodeNumber =
     concat (map (\<lambda>i. map (gen_replicaId c (int i)) (process_range c (int i))) [0..<nodeNumber])"

definition gen_keys :: "(nat \<Rightarrow> string) \<Rightarrow> int list \<Rightarrow> (string, string) gomap" where
  "gen_keys key slots =
     fold (\<lambda>(k, r). gm_put (node_name r) (hex_encode (key k))) (enumerate 0 slots) []"

section \<open>The settings of a process\<close>

text \<open>What \<open>main\<close> has computed when it starts to write files.\<close>

record gen_state =
  g_ips :: "(string, string) gomap"
  g_addr :: "(string, string) gomap"
  g_port :: "(string, int) gomap"
  g_ports :: "(string, int) gomap"
  g_pri :: "(string, string) gomap"
  g_pub :: "(string, string) gomap"
  g_total :: int
  g_bg :: int
  g_abm :: int
  g_pbm :: int
  g_evil :: "int list"
  g_shares :: "PriShare list"
  g_pubPoly :: PubPoly
  g_fastShares :: "PriShare list"
  g_fastPubPoly :: PubPoly

abbreviation str_map :: "(string, string) gomap \<Rightarrow> iface" where
  "str_map m \<equiv> IMap (map (map_prod id IStr) m)"

abbreviation int_map :: "(string, int) gomap \<Rightarrow> iface" where
  "int_map m \<equiv> IMap (map (map_prod id IInt) m)"

definition or_panic :: "'a option \<Rightarrow> ('a \<Rightarrow> (unit, 'b) go) \<Rightarrow> (unit, 'b) go" where
  "or_panic x k = (case x of None \<Rightarrow> Panic ExplicitPanic | Some y \<Rightarrow> k y)"

text \<open>The arguments of \<open>viperWrite.Set\<close>. A missing map entry reads as the zero value.\<close>

definition gen_settings ::
  "viper \<Rightarrow> gen_state \<Rightarrow> string \<Rightarrow> int \<Rightarrow> int \<Rightarrow> gobytes \<Rightarrow> gobytes \<Rightarrow> gobytes \<Rightarrow> gobytes \<Rightarrow> (string, iface) gomap" where
  "gen_settings V g name j rid share tsPub fastShare fastTsPub =
     (let n = g_total g in
     [(''name'', IStr (node_name rid)), (''replicaId'', IInt rid),
      (''address'', IStr (gm_get0 [] (g_addr g) name)),
      (''p2p_listen_port'', IInt (gm_get0 0 (g_port g) name + j * 10)),
      (''peers_p2p_port'', int_map (g_ports g)),
      (''rpc_listen_port'', IInt (v_GetInt V ''rpc_listen_port'' + j)),
      (''cluster_ips'', str_map (g_ips g)),
      (''ed_prikey'', IStr (gm_get0 [] (g_pri g) (node_name rid))),
      (''cluster_ed_pubkey'', str_map (g_pub g)),
      (''tsShare'', IStr (hex_encode (bytes_of share))), (''tsPubKey'', IStr (hex_encode (bytes_of tsPub))),
      (''fasttsShare'', IStr (hex_encode (bytes_of fastShare))),
      (''fasttsPubKey'', IStr (hex_encode (bytes_of fastTsPub))),
      (''batchtimeout'', IInt (v_GetInt V ''batchtimeout'')),
      (''viewchangetimeout'', IInt (v_GetInt V ''viewchangetimeout'')),
      (''batchsize'', IInt (v_GetInt V ''batchsize'')),
      (''checkPoint_t'', IInt (v_GetInt V ''checkPoint_t'')), (''log_k'', IInt (v_GetInt V ''log_k'')),
      (''maxpool'', IInt (v_GetInt V ''maxpool'')), (''autoviewchange'', IInt (v_GetInt V ''autoviewchange'')),
      (''fastpathtimeout'', IInt (v_GetInt V ''fast_path_timeout'')), (''evilpr'', IInt (v_GetInt V ''evilpr'')),
      (''fastqcquorum'', IInt (fastNum n (g_abm g) (g_pbm g))),
      (''viewChangeQuorum'', IInt (gen_viewChangeQuorum n (g_abm g) (g_pbm g))),
      (''prePrepareSubsetCount'', IInt (gen_prePrepareSubsetCount n (g_pbm g))),
      (''nodetype'', IInt (gen_nodetype (g_evil g) (nat (g_bg g)) (nat (g_abm g)) rid))])"

text \<open>One process: an index outside the slice of shares panics.\<close>

definition gen_process ::
  "crypto \<Rightarrow> viper \<Rightarrow> int \<Rightarrow> gen_state \<Rightarrow> string \<Rightarrow> int \<Rightarrow> (unit, string \<times> (string, iface) gomap) go" where
  "gen_process C V c g name j =
     go_bind (node_index name) (\<lambda>(ipIndex, ok).
     if \<not> ok then Panic ExplicitPanic else
     let rid = gen_replicaId c ipIndex j in
     if rid < 0 \<or> rid \<ge> int (length (g_shares g)) then Panic SliceOutOfRange else
     or_panic (EncodeTSPartialKey C (g_shares g ! nat rid)) (\<lambda>share.
     or_panic (EncodeTSPublicKey C (g_pubPoly g)) (\<lambda>tsPub.
     if rid \<ge> int (length (g_fastShares g)) then Panic SliceOutOfRange else
     or_panic (EncodeTSPartialKey C (g_fastShares g ! nat rid)) (\<lambda>fastShare.
     or_panic (EncodeTSPublicKey C (g_fastPubPoly g)) (\<lambda>fastTsPub.
     Ret (name @ ''_'' @ itoa j @ ''.yaml'', gen_settings V g name j rid share tsPub fastShare fastTsPub))))))"

text \<open>
  The files written, in order; \<open>main\<close> returns at the first one that cannot be written. The
  inner loop leaves after the process of machine 0.
\<close>

fun gen_files ::
  "crypto \<Rightarrow> viper \<Rightarrow> (string \<Rightarrow> bool) \<Rightarrow> int \<Rightarrow> gen_state \<Rightarrow> (string \<times> int) list \<Rightarrow>
   (unit, (string \<times> (string, iface) gomap) list) go" where
  "gen_files C V wr c g [] = Ret []"
| "gen_files C V wr c g ((name, j) # ps) =
     go_bind (gen_process C V c g name j) (\<lambda>file.
       if \<not> wr (fst file) then Ret []
       else go_bind (gen_files C V wr c g ps) (\<lambda>files. Ret (file # files)))"

definition gen_jobs :: "int \<Rightarrow> string list \<Rightarrow> (string \<times> int) list" where
  "gen_jobs c names =
     concat (map (\<lambda>name. case drop_runes 4 name of
         None \<Rightarrow> [(name, 0)]
       | Some r \<Rightarrow> map (Pair name) (process_range c (fst (Atoi r)))) names)"

text \<open>
  \<open>main\<close> up to the loop that writes the files, and whole. \<open>ord\<close> numbers the iteration orders of
  its three map loops, \<open>prv\<close> and \<open>pub\<close> are the keys of successive calls of \<open>GenKeys\<close>, \<open>ts\<close> the
  two results of \<open>GenTSKeys\<close>. \<open>Block\<close> is the random draw that never ends.
\<close>

type_synonym ts_keygen = "int \<Rightarrow> int \<Rightarrow> PriShare list \<times> PubPoly"

definition gen_prepare ::
  "viper \<Rightarrow> (nat \<Rightarrow> nat) \<Rightarrow> (nat \<Rightarrow> string) \<Rightarrow> (nat \<Rightarrow> string) \<Rightarrow> ts_keygen \<times> ts_keygen \<Rightarrow>
   (nat \<Rightarrow> nat) \<Rightarrow> int \<Rightarrow> (unit, gen_state \<times> string list) go" where
  "gen_prepare V ord prv pub ts rnd c =
     (if \<not> v_ReadInConfig V then Panic ExplicitPanic else
      let ips = v_GetStringMap V ''ips'' in
      go_bind (gen_ips c (range_order (ord 0) ips) []) (\<lambda>clusterIps.
      go_bind (gen_names (range_order (ord 1) ips) [] []) (\<lambda>(clusterMapString, clusterName).
      let ports = v_GetStringMap V ''peers_p2p_port''; nodeNumber = length ips in
      if nodeNumber \<noteq> length ports then Panic ExplicitPanic else
      go_bind (gen_ports c ports (map fst (range_order (ord 2) clusterMapString)) ([], [])) (\<lambda>(byName, allPorts).
      let slots = key_slots c nodeNumber;
          tot = TotalNodeNum (int nodeNumber) c;
          bg = v_GetInt V ''bgnum''; abm = v_GetInt V ''abmnum''; pbm = v_GetInt V ''pbmnum''
      in if \<not> faults_allowed tot bg abm pbm then Panic ExplicitPanic else
      case generateRandomNumber rnd 1 tot (bg + abm + pbm) of
        None \<Rightarrow> Block ()
      | Some drawn \<Rightarrow>
          (let evil = slice_of drawn;
               slow = fst ts (numT tot) tot;
               fast = snd ts (fastNum tot abm pbm) tot in
           if bg < 0 \<or> abm < 0 \<or> bg + abm > int (length evil) then Panic SliceOutOfRange else
           Ret (\<lparr>g_ips = clusterIps, g_addr = clusterMapString, g_port = byName, g_ports = allPorts,
              g_pri = gen_keys prv slots, g_pub = gen_keys pub slots, g_total = tot,
              g_bg = bg, g_abm = abm, g_pbm = pbm, g_evil = evil,
              g_shares = fst slow, g_pubPoly = snd slow,
              g_fastShares = fst fast, g_fastPubPoly = snd fast\<rparr>, clusterName))))))"

definition gen_main ::
  "crypto \<Rightarrow> viper \<Rightarrow> (nat \<Rightarrow> nat) \<Rightarrow> (nat \<Rightarrow> string) \<Rightarrow> (nat \<Rightarrow> string) \<Rightarrow> ts_keygen \<times> ts_keygen \<Rightarrow>
   (nat \<Rightarrow> nat) \<Rightarrow> (string \<Rightarrow> bool) \<Rightarrow> int \<Rightarrow> (unit, (string \<times> (string, iface) gomap) list) go" where
  "gen_main C V ord prv pub ts rnd wr c =
     go_bind (gen_prepare V ord prv pub ts rnd c) (\<lambda>(g, clusterName).
       gen_files C V wr c g (gen_jobs c clusterName))"

end
