(* ===== verification/Deploy.thy ===== *)
theory Deploy
  imports Generate Runs
begin

text \<open>
  From the generator to the node: every file \<open>gen_main\<close> writes, read back through viper, loads
  as the configuration of its process, with the keys that were drawn for it and the quorums
  of the cluster.
\<close>

section \<open>What viper does\<close>

definition lower :: "string \<Rightarrow> string" where
  "lower s = map (\<lambda>c. if 65 \<le> byte_of c \<and> byte_of c \<le> 90 then chr (byte_of c + 32) else c) s"

text \<open>
  A reader \<open>W\<close> of a written file: keys are case-insensitive, a setting reads as it was
  written, a map as a map with the same entries, and a number that is not there as 0.
\<close>

definition reads_back :: "viper \<Rightarrow> (string, iface) gomap \<Rightarrow> bool" where
  "reads_back W s \<longleftrightarrow> v_ReadInConfig W \<and>
     (\<forall>(k, v) \<in> set s. \<forall>k'. lower k' = lower k \<longrightarrow>
        (case v of
           IInt i \<Rightarrow> v_GetInt W k' = i
         | IStr t \<Rightarrow> v_GetString W k' = t
         | IMap m \<Rightarrow> gm_wf (v_GetStringMap W k') \<and> (\<forall>x. gm_get (v_GetStringMap W k') x = gm_get m x))) \<and>
     (\<forall>k'. lower k' \<notin> lower ` fst ` set s \<longrightarrow> v_GetInt W k' = 0)"

text \<open>Such a reader.\<close>

definition viper_look :: "(string, iface) gomap \<Rightarrow> string \<Rightarrow> iface option" where
  "viper_look s k = gm_get (map (\<lambda>(k, v). (lower k, v)) s) (lower k)"

definition viper_of :: "(string, iface) gomap \<Rightarrow> viper" where
  "viper_of s = \<lparr>v_ReadInConfig = True,
     v_GetString = (\<lambda>k. case viper_look s k of Some (IStr t) \<Rightarrow> t | _ \<Rightarrow> []),
     v_GetInt = (\<lambda>k. case viper_look s k of Some (IInt i) \<Rightarrow> i | _ \<Rightarrow> 0),
     v_GetStringMap = (\<lambda>k. case viper_look s k of Some (IMap m) \<Rightarrow> m | _ \<Rightarrow> [])\<rparr>"

lemma viper_of_reads_back:
  assumes "distinct (map (lower \<circ> fst) s)" and "\<And>k m. (k, IMap m) \<in> set s \<Longrightarrow> gm_wf m"
  shows "reads_back (viper_of s) s"
proof -
  let ?s = "map (\<lambda>(k, v). (lower k, v)) s"
  have wf: "gm_wf ?s" using assms(1) by (simp add: gm_wf_def comp_def case_prod_unfold)
  have look: "viper_look s k' = Some v" if "(k, v) \<in> set s" "lower k' = lower k" for k k' v
    using gm_mem_iff [OF wf, of "lower k" v] that by (force simp: viper_look_def)
  have none: "viper_look s k' = None" if "lower k' \<notin> lower ` fst ` set s" for k'
    using that by (force simp: viper_look_def gm_get_def map_of_eq_None_iff)
  show ?thesis
    unfolding reads_back_def
    by (auto simp: viper_of_def look none split: iface.split intro: assms(2))
qed

section \<open>Names\<close>

lemma digit_ascii: "is_digit c \<Longrightarrow> byte_of c < 128"
  by (simp add: is_digit_def)

lemma drop_runes_node: "drop_runes 4 (node_name i) = Some (itoa i)"
  by (simp add: node_name_def numeral_eq_Suc byte_of_def)

lemma Atoi_itoa: "0 \<le> i \<Longrightarrow> i < 2 ^ 63 \<Longrightarrow> Atoi (itoa i) = (i, True)"
proof -
  assume i: "0 \<le> i" "i < 2 ^ 63"
  obtain c cs where d: "dec (nat i) = c # cs" by (cases "dec (nat i)") auto
  with dec_digits [of c "nat i"] have "c \<noteq> CHR ''-''" "c \<noteq> CHR ''+''" by (auto simp: is_digit_def byte_of_def)
  moreover have "all_digits (c # cs)" using dec_digits [of _ "nat i"] d by (auto simp: all_digits_def list_all_iff)
  ultimately show ?thesis using i d undec_dec [of "nat i"] by (simp add: Atoi_def itoa_def)
qed

lemma node_index_name: "0 \<le> i \<Longrightarrow> i < 2 ^ 63 \<Longrightarrow> node_index (node_name i) = Ret (i, True)"
  by (simp add: node_index_def drop_runes_node Atoi_itoa)

lemma node_name_inj: "node_name i = node_name j \<longleftrightarrow> i = j"
  by (auto simp: node_name_def dest: itoa_inj)

lemma put_one: "put_processes 1 i f m = gm_put (node_name i) (f 0) m"
  by (simp add: put_processes_def process_range_def gen_replicaId_def)

text \<open>A name of one of the first \<open>N\<close> nodes.\<close>

definition node_of :: "nat \<Rightarrow> string \<Rightarrow> bool" where
  "node_of N name \<longleftrightarrow> (\<exists>i < N. name = node_name (int i))"

lemma node_of_index:
  "node_of N name \<Longrightarrow> N < 2 ^ 32 \<Longrightarrow> \<exists>i < N. name = node_name (int i) \<and> int i < 2 ^ 63"
  by (fastforce simp: node_of_def)

section \<open>Filling a map\<close>

definition put_all :: "('k \<times> 'v) list \<Rightarrow> ('k, 'v) gomap \<Rightarrow> ('k, 'v) gomap" where
  "put_all kvs m = fold (\<lambda>(k, v). gm_put k v) kvs m"

lemma put_all_simps [simp]: "put_all [] m = m" "put_all ((k, v) # kvs) m = put_all kvs (gm_put k v m)"
  by (simp_all add: put_all_def)

lemma put_all_get:
  "distinct (map fst kvs) \<Longrightarrow>
   gm_get (put_all kvs m) x = (case map_of kvs x of Some v \<Rightarrow> Some v | None \<Rightarrow> gm_get m x)"
proof (induction kvs arbitrary: m)
  case (Cons e kvs)
  then have "map_of kvs (fst e) = None" by (simp add: map_of_eq_None_iff)
  with Cons show ?case by (cases e) (auto simp: gm_get_put split: option.split)
qed simp

lemma put_all_wf: "gm_wf m \<Longrightarrow> gm_wf (put_all kvs m)"
  by (induction kvs arbitrary: m) auto

lemma put_all_keys:
  assumes "distinct (map fst kvs)"
  shows "set (gm_keys (put_all kvs [])) = fst ` set kvs"
proof (rule set_eqI)
  fix x
  have "x \<in> set (gm_keys (put_all kvs [])) \<longleftrightarrow> map_of kvs x \<noteq> None"
    by (simp only: gm.keys_get put_all_get [OF assms]) (simp split: option.split)
  then show "x \<in> set (gm_keys (put_all kvs [])) \<longleftrightarrow> x \<in> fst ` set kvs"
    by (simp only: map_of_eq_None_iff not_not)
qed

lemma put_all_length: "distinct (map fst kvs) \<Longrightarrow> length (put_all kvs []) = length kvs"
proof -
  assume d: "distinct (map fst kvs)"
  have "gm_wf (put_all kvs [])" by (simp add: put_all_wf)
  then have "length (put_all kvs []) = card (set (gm_keys (put_all kvs [])))"
    by (metis distinct_card gm.wf_distinct gm_keys_def length_map)
  also have "\<dots> = length kvs"
    unfolding put_all_keys [OF d] using d by (metis distinct_card length_map list.set_map)
  finally show ?thesis .
qed

section \<open>The maps of the generator\<close>

definition str_of :: "iface \<Rightarrow> string" where
  "str_of v = (case v of IStr a \<Rightarrow> a | _ \<Rightarrow> [])"

definition int_of :: "iface \<Rightarrow> int" where
  "int_of v = (case v of IInt i \<Rightarrow> i | _ \<Rightarrow> 0)"

lemma gen_ips_result:
  assumes "gen_ips 1 es m = Ret m'" and "\<forall>e \<in> set es. node_of N (fst e)" and "N < 2 ^ 32"
  shows "m' = put_all (map (map_prod id str_of) es) m \<and> (\<forall>e \<in> set es. snd e = IStr (str_of (snd e)))"
  using assms
proof (induction es arbitrary: m)
  case (Cons e es)
  obtain name addr where e: "e = (name, addr)" by fastforce
  from Cons.prems(2,3) e have "node_of N name" "N < 2 ^ 32" by simp_all
  from node_of_index [OF this] obtain i where i: "name = node_name (int i)" "int i < 2 ^ 63" by blast
  from Cons.prems(1) obtain a where a: "addr = IStr a" "gen_ips 1 es (gm_put name a m) = Ret m'"
    by (cases addr) (simp_all add: e i(1) node_index_name [OF _ i(2)] put_one)
  from Cons.IH [OF a(2)] Cons.prems(2,3) show ?case by (simp add: e a str_of_def)
qed simp

lemma gen_names_result:
  "gen_names es m names = Ret (m', names') \<Longrightarrow>
   m' = put_all (map (map_prod id str_of) es) m \<and> names' = names @ map fst es"
  by (induction es m names rule: gen_names.induct) (auto simp: str_of_def split: iface.splits)

lemma gen_ports_result:
  assumes "gen_ports 1 ports names (b, a) = Ret r" and "\<forall>n \<in> set names. node_of N n" and "N < 2 ^ 32"
  shows "r = (put_all (map (\<lambda>n. (n, int_of (the (gm_get ports n)))) names) b,
              put_all (map (\<lambda>n. (n, int_of (the (gm_get ports n)))) names) a)"
  using assms
proof (induction names arbitrary: b a)
  case (Cons name names)
  from Cons.prems(2,3) have "node_of N name" "N < 2 ^ 32" by simp_all
  from node_of_index [OF this] obtain i where i: "name = node_name (int i)" "int i < 2 ^ 63" by blast
  from Cons.prems(1) obtain p where p: "gm_get ports name = Some (IInt p)"
    "gen_ports 1 ports names (gm_put name p b, gm_put name p a) = Ret r"
    by (auto simp: i(1) node_index_name [OF _ i(2)] put_one split: option.splits iface.splits)
  from Cons.IH [OF p(2)] Cons.prems(2,3) show ?case by (simp add: p int_of_def)
qed simp

lemma key_slots_one: "key_slots 1 N = map int [0..<N]"
proof -
  have "map (gen_replicaId 1 (int i)) (process_range 1 (int i)) = [int i]" for i
    by (simp add: process_range_def gen_replicaId_def)
  then show ?thesis by (simp add: key_slots_def concat_map_singleton)
qed

lemma gen_keys_one:
  "gen_keys key (map int [0..<N]) = put_all (map (\<lambda>i. (node_name (int i), hex_encode (key i))) [0..<N]) []"
proof -
  have "enumerate 0 (map int [0..<N]) = map (\<lambda>i. (i, int i)) [0..<N]"
    by (simp add: enumerate_eq_zip zip_map2 zip_same_conv_map)
  then show ?thesis by (simp add: gen_keys_def put_all_def fold_map comp_def)
qed

text \<open>A map with an entry for every node.\<close>

lemma node_list_get:
  assumes "i < N"
  shows "gm_get (put_all (map (\<lambda>i. (node_name (int i), f i)) [0..<N]) []) (node_name (int i)) = Some (f i)"
proof -
  have d: "distinct (map fst (map (\<lambda>i. (node_name (int i), f i)) [0..<N]))"
    by (simp add: distinct_map comp_def inj_on_def node_name_inj)
  have "map_of (map (\<lambda>i. (node_name (int i), f i)) [0..<N]) (node_name (int i)) = Some (f i)"
    using d assms by (intro map_of_is_SomeI) auto
  then show ?thesis by (simp only: put_all_get [OF d]) simp
qed

section \<open>Files\<close>

lemma gen_jobs_one: "\<forall>n \<in> set names. node_of N n \<Longrightarrow> gen_jobs 1 names = map (\<lambda>n. (n, 0)) names"
proof (induction names)
  case (Cons n names)
  then obtain i where "n = node_name (int i)" by (auto simp: node_of_def)
  with Cons show ?case by (simp add: gen_jobs_def drop_runes_node process_range_def)
qed (simp add: gen_jobs_def)

lemma gen_files_sound:
  assumes "gen_files C V wr c g jobs = Ret files" and "file \<in> set files"
  shows "\<exists>(name, j) \<in> set jobs. gen_process C V c g name j = Ret file"
  using assms
proof (induction jobs arbitrary: files)
  case (Cons job jobs)
  obtain name j where job: "job = (name, j)" by fastforce
  from Cons.prems(1) obtain f where f: "gen_process C V c g name j = Ret f"
    by (auto simp: job go_bind_eq_Ret)
  show ?case
  proof (cases "file = f \<or> \<not> wr (fst f)")
    case True
    with Cons.prems f job show ?thesis by auto
  next
    case False
    with Cons.prems f obtain fs where "gen_files C V wr c g jobs = Ret fs" "file \<in> set fs"
      by (auto simp: job go_bind_eq_Ret)
    with Cons.IH show ?thesis by auto
  qed
qed simp

lemma gen_process_node:
  assumes "gen_process C V 1 g (node_name (int i)) 0 = Ret (f, s)" and "int i < 2 ^ 63"
  obtains share tsPub fastShare fastTsPub where
    "EncodeTSPartialKey C (g_shares g ! i) = Some share" and "EncodeTSPublicKey C (g_pubPoly g) = Some tsPub"
    and "EncodeTSPartialKey C (g_fastShares g ! i) = Some fastShare"
    and "EncodeTSPublicKey C (g_fastPubPoly g) = Some fastTsPub"
    and "f = node_name (int i) @ ''_0.yaml''"
    and "s = gen_settings V g (node_name (int i)) 0 (int i) share tsPub fastShare fastTsPub"
    and "i < length (g_shares g)" and "i < length (g_fastShares g)"
proof -
  have "node_index (node_name (int i)) = (Ret (int i, True) :: (unit, _) go)"
    using assms(2) by (simp add: node_index_name)
  moreover have "gen_replicaId 1 (int i) 0 = int i" by (simp add: gen_replicaId_def)
  moreover have "''_'' @ itoa 0 @ ''.yaml'' = ''_0.yaml''"
    by code_simp
  ultimately show ?thesis
    using assms(1) that by (auto simp: gen_process_def or_panic_def Let_def split: if_splits option.splits)
qed

section \<open>The generator as a whole\<close>

text \<open>A template with the addresses and ports of nodes 0 to \<open>N - 1\<close>.\<close>

definition template_ok :: "viper \<Rightarrow> nat \<Rightarrow> bool" where
  "template_ok V N \<longleftrightarrow> N < 2 ^ 32 \<and>
     gm_wf (v_GetStringMap V ''ips'') \<and> gm_wf (v_GetStringMap V ''peers_p2p_port'') \<and>
     set (gm_keys (v_GetStringMap V ''ips'')) = (\<lambda>i. node_name (int i)) ` {..<N}"

definition template_addr :: "viper \<Rightarrow> nat \<Rightarrow> string" where
  "template_addr V i = str_of (the (gm_get (v_GetStringMap V ''ips'') (node_name (int i))))"

definition template_port :: "viper \<Rightarrow> nat \<Rightarrow> int" where
  "template_port V i = int_of (the (gm_get (v_GetStringMap V ''peers_p2p_port'') (node_name (int i))))"

lemma template_facts:
  assumes "template_ok V N"
  defines "ips \<equiv> v_GetStringMap V ''ips''"
  shows "node_of N n \<longleftrightarrow> n \<in> set (map fst ips)" and "length ips = N"
    and "i < N \<Longrightarrow> gm_get ips (node_name (int i)) \<noteq> None"
proof -
  have keys: "set (map fst ips) = (\<lambda>i. node_name (int i)) ` {..<N}" and wf: "gm_wf ips"
    using assms by (simp_all add: template_ok_def gm_keys_def)
  then show "node_of N n \<longleftrightarrow> n \<in> set (map fst ips)" by (auto simp: node_of_def)
  have "length ips = card (set (map fst ips))" using wf by (metis distinct_card gm_wf_def length_map)
  also have "\<dots> = N" unfolding keys by (subst card_image) (auto simp: inj_on_def node_name_inj)
  finally show "length ips = N" .
  show "i < N \<Longrightarrow> gm_get ips (node_name (int i)) \<noteq> None"
    using keys by (metis gm.keys_get gm_keys_def imageI lessThan_iff)
qed

lemma put_all_perm_get:
  assumes "gm_wf m" and "gm_get m x = Some v"
  shows "gm_get (put_all (map (map_prod id f) (range_order s m)) []) x = Some (f v)"
proof -
  have "distinct (map fst (range_order s m))" using assms(1)
    by (metis gm_wf_def mset_eq_imp_distinct_iff mset_map mset_range_order)
  moreover have "(x, v) \<in> set m" using assms by (simp add: gm_mem_iff)
  ultimately have "map_of (map (map_prod id f) (range_order s m)) x = Some (f v)"
    by (intro map_of_is_SomeI) (auto simp: comp_def intro: image_eqI [of _ _ "(x, v)"])
  then show ?thesis using \<open>distinct _\<close> by (simp add: put_all_get comp_def)
qed

text \<open>What the state of \<open>gen_main\<close> is when it writes files.\<close>

definition gen_state_ok ::
  "viper \<Rightarrow> nat \<Rightarrow> (nat \<Rightarrow> string) \<Rightarrow> (nat \<Rightarrow> string) \<Rightarrow> gen_state \<Rightarrow> bool" where
  "gen_state_ok V N prv pub g \<longleftrightarrow>
     (\<forall>i < N. gm_get (g_ips g) (node_name (int i)) = Some (template_addr V i) \<and>
        gm_get (g_addr g) (node_name (int i)) = Some (template_addr V i) \<and>
        gm_get (g_ports g) (node_name (int i)) = Some (template_port V i)) \<and>
     g_pri g = put_all (map (\<lambda>i. (node_name (int i), hex_encode (prv i))) [0..<N]) [] \<and>
     g_pub g = put_all (map (\<lambda>i. (node_name (int i), hex_encode (pub i))) [0..<N]) [] \<and>
     g_total g = int N \<and> g_abm g = v_GetInt V ''abmnum'' \<and> g_pbm g = v_GetInt V ''pbmnum''"

text \<open>The names of the address map, and what the port loop makes of them.\<close>

lemma addr_names:
  assumes "gm_wf ips" and "addr = put_all (map (map_prod id str_of) (range_order o1 ips)) []"
  shows "distinct (map fst (range_order o2 addr))" and "set (map fst (range_order o2 addr)) = set (map fst ips)"
proof -
  have "gm_wf addr" by (simp add: assms(2) put_all_wf)
  then show "distinct (map fst (range_order o2 addr))"
    by (metis gm_wf_def mset_eq_imp_distinct_iff mset_map mset_range_order)
  have d: "distinct (map fst (map (map_prod id str_of) (range_order o1 ips)))" using assms(1)
    by (simp add: comp_def) (metis gm_wf_def mset_eq_imp_distinct_iff mset_map mset_range_order)
  have "set (map fst (range_order o2 addr)) = set (gm_keys addr)" by (simp add: gm_keys_def)
  also have "\<dots> = set (map fst (map (map_prod id str_of) (range_order o1 ips)))"
    unfolding assms(2) by (simp only: put_all_keys [OF d] set_map)
  finally show "set (map fst (range_order o2 addr)) = set (map fst ips)" by (simp add: image_image)
qed

lemma template_ports:
  assumes "template_ok V N" and "gen_ports 1 (v_GetStringMap V ''peers_p2p_port'') es ([], []) = Ret (byName, all)"
    and "distinct es" and "\<And>x. x \<in> set es \<longleftrightarrow> node_of N x" and "i < N"
  shows "gm_get all (node_name (int i)) = Some (template_port V i)"
proof -
  let ?kvs = "map (\<lambda>n. (n, int_of (the (gm_get (v_GetStringMap V ''peers_p2p_port'') n)))) es"
  have N: "N < 2 ^ 32" using assms(1) by (simp add: template_ok_def)
  have "node_name (int i) \<in> set es" unfolding assms(4) using assms(5) by (auto simp: node_of_def)
  then have "map_of ?kvs (node_name (int i)) = Some (template_port V i)"
    using assms(3) by (intro map_of_is_SomeI) (auto simp: comp_def template_port_def)
  moreover have "all = put_all ?kvs []"
    using gen_ports_result [OF assms(2) _ N] assms(4) by auto
  ultimately show ?thesis using assms(3) by (simp add: put_all_get comp_def)
qed

lemma gen_prepare_state:
  assumes "template_ok V N" and "gen_prepare V ord prv pub ts rnd 1 = Ret (g, names)"
  shows "gen_state_ok V N prv pub g \<and> (\<forall>n \<in> set names. node_of N n) \<and>
    (g_shares g, g_pubPoly g) = fst ts (numT (int N)) (int N) \<and>
    (g_fastShares g, g_fastPubPoly g) = snd ts (fastNum (int N) (g_abm g) (g_pbm g)) (int N)"
proof -
  let ?ips = "v_GetStringMap V ''ips''" and ?ports = "v_GetStringMap V ''peers_p2p_port''"
  note t = template_facts [OF assms(1)]
  have N: "N < 2 ^ 32" and wf: "gm_wf ?ips" "gm_wf ?ports" using assms(1) by (simp_all add: template_ok_def)
  have named: "\<forall>e \<in> set (range_order s ?ips). node_of N (fst e)" for s using t(1) by auto
  have tot: "TotalNodeNum (int N) 1 = int N" by (simp add: TotalNodeNum_def)
  from assms(2) have
    ips: "gen_ips 1 (range_order (ord 0) ?ips) [] = Ret (g_ips g)"
    and names: "gen_names (range_order (ord 1) ?ips) [] [] = Ret (g_addr g, names)"
    and ports: "gen_ports 1 ?ports (map fst (range_order (ord 2) (g_addr g))) ([], []) = Ret (g_port g, g_ports g)"
    and rest: "g_pri g = gen_keys prv (key_slots 1 N)" "g_pub g = gen_keys pub (key_slots 1 N)"
      "g_total g = int N" "g_abm g = v_GetInt V ''abmnum''" "g_pbm g = v_GetInt V ''pbmnum''"
    and shares: "(g_shares g, g_pubPoly g) = fst ts (numT (int N)) (int N)"
      "(g_fastShares g, g_fastPubPoly g) = snd ts (fastNum (int N) (g_abm g) (g_pbm g)) (int N)"
    unfolding gen_prepare_def Let_def t(2) tot
    by (auto simp: go_bind_eq_Ret split: if_splits option.splits)
  have ips': "g_ips g = put_all (map (map_prod id str_of) (range_order (ord 0) ?ips)) []"
    using gen_ips_result [OF ips named N] by blast
  have addr': "g_addr g = put_all (map (map_prod id str_of) (range_order (ord 1) ?ips)) []"
    and names': "names = map fst (range_order (ord 1) ?ips)"
    using gen_names_result [OF names] by simp_all
  have get: "gm_get (g_addr g) (node_name (int i)) = Some (template_addr V i)"
    "gm_get (g_ips g) (node_name (int i)) = Some (template_addr V i)" if "i < N" for i
  proof -
    from t(3) [OF that] obtain v where v: "gm_get ?ips (node_name (int i)) = Some v" by blast
    then show "gm_get (g_addr g) (node_name (int i)) = Some (template_addr V i)"
      "gm_get (g_ips g) (node_name (int i)) = Some (template_addr V i)"
      unfolding addr' ips' by (simp_all only: put_all_perm_get [OF wf(1) v]) (simp_all add: template_addr_def)
  qed
  note es = addr_names [OF wf(1) addr', of "ord 2"]
  have "gm_get (g_ports g) (node_name (int i)) = Some (template_port V i)" if "i < N" for i
    by (rule template_ports [OF assms(1) ports es(1) _ that]) (simp only: es(2) t(1))
  moreover have "\<forall>n \<in> set names. node_of N n" using names' t(1) by auto
  ultimately show ?thesis
    using get rest shares by (simp add: gen_state_ok_def key_slots_one gen_keys_one)
qed

lemma gen_main_files:
  assumes "template_ok V N" and "gen_main C V ord prv pub ts rnd wr 1 = Ret files"
  shows "\<exists>g. gen_state_ok V N prv pub g \<and> (g_shares g, g_pubPoly g) = fst ts (numT (int N)) (int N) \<and>
    (g_fastShares g, g_fastPubPoly g) = snd ts (fastNum (int N) (g_abm g) (g_pbm g)) (int N) \<and>
    (\<forall>fi \<in> set files. \<exists>i < N. gen_process C V 1 g (node_name (int i)) 0 = Ret fi)"
proof -
  from assms(2) obtain g names where p: "gen_prepare V ord prv pub ts rnd 1 = Ret (g, names)"
    and files: "gen_files C V wr 1 g (gen_jobs 1 names) = Ret files"
    by (auto simp: gen_main_def go_bind_eq_Ret)
  note st = gen_prepare_state [OF assms(1) p]
  then have jobs: "gen_jobs 1 names = map (\<lambda>n. (n, 0)) names" by (intro gen_jobs_one [where N = N]) simp
  have "\<exists>i < N. gen_process C V 1 g (node_name (int i)) 0 = Ret fi" if "fi \<in> set files" for fi
  proof -
    from gen_files_sound [OF files that] jobs obtain n where
      n: "n \<in> set names" "gen_process C V 1 g n 0 = Ret fi" by auto
    with st have "node_of N n" by blast
    with n(2) show ?thesis by (auto simp: node_of_def)
  qed
  with st show ?thesis by blast
qed

section \<open>Loading a generated file\<close>

definition peer_entry :: "(nat \<Rightarrow> string) \<Rightarrow> nat \<Rightarrow> string \<times> iface" where
  "peer_entry pub i = (node_name (int i), IStr (hex_encode (pub i)))"

lemma entries_indexed:
  "\<forall>e \<in> set es. \<exists>i < N. e = peer_entry pub i \<Longrightarrow> \<exists>is. es = map (peer_entry pub) is \<and> set is \<subseteq> {..<N}"
proof (induction es)
  case (Cons e es)
  then obtain i "is" where "i < N" "e = peer_entry pub i" "es = map (peer_entry pub) is" "set is \<subseteq> {..<N}" by auto
  then show ?case by (intro exI [of _ "i # is"]) simp
qed simp

lemma hex_DecodeString_encode: "hex_DecodeString (hex_encode b) = Some (Some b)"
  by (simp add: hex_DecodeString_def hex_decode_encode)

lemma load_peers_result:
  assumes "\<forall>i < N. gm_get (v_GetStringMap W ''peers_p2p_port'') (node_name (int i)) = Some (IInt (port i)) \<and>
      gm_get (v_GetStringMap W ''cluster_ips'') (node_name (int i)) = Some (IStr (addr i))"
    and "N < 2 ^ 32" and "set is \<subseteq> {..<N}"
  shows "load_peers W (map (peer_entry pub) is) (p, a, q) =
    Ret (Inr (put_all (map (\<lambda>i. (of_nat i, Some (pub i))) is) p, put_all (map (\<lambda>i. (of_nat i, addr i)) is) a,
              put_all (map (\<lambda>i. (of_nat i, port i)) is) q))"
  using assms(3)
proof (induction "is" arbitrary: p a q)
  case (Cons i "is")
  then have i: "i < N" by simp
  with assms(2) have "int i < 2 ^ 63" by simp
  with assms(1) i Cons show ?case
    by (simp add: load_peer_def peer_entry_def node_index_name or_return_def hex_DecodeString_encode Let_def)
qed simp

lemma of_nat_u32_inj: "i < 2 ^ 32 \<Longrightarrow> j < 2 ^ 32 \<Longrightarrow> (of_nat i :: u32) = of_nat j \<longleftrightarrow> i = j"
  by (simp add: word_of_nat_eq_iff take_bit_nat_eq_self)

lemma indexed_map:
  assumes "set is = {..<N}" and "distinct is" and "N < 2 ^ 32"
  shows "length (put_all (map (\<lambda>i. (of_nat i :: u32, f i)) is) []) = N"
    and "i < N \<Longrightarrow> gm_get (put_all (map (\<lambda>i. (of_nat i :: u32, f i)) is) []) (of_nat i) = Some (f i)"
proof -
  have d: "distinct (map fst (map (\<lambda>i. (of_nat i :: u32, f i)) is))"
    using assms(1-3) by (auto simp: distinct_map comp_def inj_on_def of_nat_u32_inj)
  have "length is = N" using assms(1,2) by (metis card_lessThan distinct_card)
  then show "length (put_all (map (\<lambda>i. (of_nat i :: u32, f i)) is) []) = N"
    by (simp only: put_all_length [OF d] length_map)
  show "gm_get (put_all (map (\<lambda>i. (of_nat i :: u32, f i)) is) []) (of_nat i) = Some (f i)" if "i < N"
  proof -
    have "map_of (map (\<lambda>i. (of_nat i :: u32, f i)) is) (of_nat i) = Some (f i)"
      using d assms(1) that by (intro map_of_is_SomeI) auto
    then show ?thesis by (simp only: put_all_get [OF d]) simp
  qed
qed

text \<open>Reading the settings of a process: what the reader gives for each kind.\<close>

lemma reads_int: "reads_back W s \<Longrightarrow> (k, IInt i) \<in> set s \<Longrightarrow> lower k' = lower k \<Longrightarrow> v_GetInt W k' = i"
  and reads_str: "reads_back W s \<Longrightarrow> (k, IStr t) \<in> set s \<Longrightarrow> lower k' = lower k \<Longrightarrow> v_GetString W k' = t"
  and reads_map: "reads_back W s \<Longrightarrow> (k, IMap m) \<in> set s \<Longrightarrow> lower k' = lower k \<Longrightarrow>
      gm_wf (v_GetStringMap W k') \<and> gm_get (v_GetStringMap W k') x = gm_get m x"
  by (fastforce simp: reads_back_def)+

lemma gm_get_map_vals: "gm_get (map (map_prod id f) m) x = map_option f (gm_get m x)"
  by (induction m) (auto simp: gm_get_def)

lemma setting_names:
  "lower ''replicaid'' = lower ''replicaId''" "lower ''tsshare'' = lower ''tsShare''"
  "lower ''tspubkey'' = lower ''tsPubKey''" "lower ''fasttsshare'' = lower ''fasttsShare''"
  "lower ''fasttspubkey'' = lower ''fasttsPubKey''" "lower ''checkpoint_t'' = lower ''checkPoint_t''"
  by code_simp+

lemma gen_settings_reads:
  assumes "reads_back W s" and "s = gen_settings V g name j rid share tsPub fastShare fastTsPub"
  shows "v_GetInt W ''replicaid'' = rid"
    and "v_GetString W ''ed_prikey'' = gm_get0 [] (g_pri g) (node_name rid)"
    and "v_GetString W ''tsshare'' = hex_encode (bytes_of share)"
    and "v_GetString W ''tspubkey'' = hex_encode (bytes_of tsPub)"
    and "v_GetString W ''fasttsshare'' = hex_encode (bytes_of fastShare)"
    and "v_GetString W ''fasttspubkey'' = hex_encode (bytes_of fastTsPub)"
    and "v_GetInt W ''fastqcquorum'' = fastNum (g_total g) (g_abm g) (g_pbm g)"
    and "v_GetInt W ''viewChangeQuorum'' = gen_viewChangeQuorum (g_total g) (g_abm g) (g_pbm g)"
    and "v_GetInt W ''prePrepareSubsetCount'' = gen_prePrepareSubsetCount (g_total g) (g_pbm g)"
    and "v_GetInt W ''checkpoint_t'' = v_GetInt V ''checkPoint_t''"
    and "v_GetInt W ''log_k'' = v_GetInt V ''log_k''"
proof -
  note int = reads_int [OF assms(1)] and str = reads_str [OF assms(1)]
  note mem = assms(2) gen_settings_def Let_def
  show "v_GetInt W ''replicaid'' = rid"
    by (rule int [OF _ setting_names(1)]) (simp add: mem)
  show "v_GetString W ''ed_prikey'' = gm_get0 [] (g_pri g) (node_name rid)"
    by (rule str [OF _ refl]) (simp add: mem)
  show "v_GetString W ''tsshare'' = hex_encode (bytes_of share)"
    by (rule str [OF _ setting_names(2)]) (simp add: mem)
  show "v_GetString W ''tspubkey'' = hex_encode (bytes_of tsPub)"
    by (rule str [OF _ setting_names(3)]) (simp add: mem)
  show "v_GetString W ''fasttsshare'' = hex_encode (bytes_of fastShare)"
    by (rule str [OF _ setting_names(4)]) (simp add: mem)
  show "v_GetString W ''fasttspubkey'' = hex_encode (bytes_of fastTsPub)"
    by (rule str [OF _ setting_names(5)]) (simp add: mem)
  show "v_GetInt W ''fastqcquorum'' = fastNum (g_total g) (g_abm g) (g_pbm g)"
    by (rule int [OF _ refl]) (simp add: mem)
  show "v_GetInt W ''viewChangeQuorum'' = gen_viewChangeQuorum (g_total g) (g_abm g) (g_pbm g)"
    by (rule int [OF _ refl]) (simp add: mem)
  show "v_GetInt W ''prePrepareSubsetCount'' = gen_prePrepareSubsetCount (g_total g) (g_pbm g)"
    by (rule int [OF _ refl]) (simp add: mem)
  show "v_GetInt W ''checkpoint_t'' = v_GetInt V ''checkPoint_t''"
    by (rule int [OF _ setting_names(6)]) (simp add: mem)
  show "v_GetInt W ''log_k'' = v_GetInt V ''log_k''"
    by (rule int [OF _ refl]) (simp add: mem)
qed

lemma gen_settings_maps:
  assumes "reads_back W s" and "s = gen_settings V g name j rid share tsPub fastShare fastTsPub"
  shows "gm_get (v_GetStringMap W ''peers_p2p_port'') x = map_option IInt (gm_get (g_ports g) x)"
    and "gm_get (v_GetStringMap W ''cluster_ips'') x = map_option IStr (gm_get (g_ips g) x)"
    and "gm_get (v_GetStringMap W ''cluster_ed_pubkey'') x = map_option IStr (gm_get (g_pub g) x)"
    and "gm_wf (v_GetStringMap W ''cluster_ed_pubkey'')"
proof -
  have m: "(''peers_p2p_port'', int_map (g_ports g)) \<in> set s" "(''cluster_ips'', str_map (g_ips g)) \<in> set s"
    "(''cluster_ed_pubkey'', str_map (g_pub g)) \<in> set s"
    by (simp_all add: assms(2) gen_settings_def Let_def)
  note r = reads_map [OF assms(1) m(1) refl, of x] reads_map [OF assms(1) m(2) refl, of x]
    reads_map [OF assms(1) m(3) refl, of x]
  then show "gm_get (v_GetStringMap W ''peers_p2p_port'') x = map_option IInt (gm_get (g_ports g) x)"
    "gm_get (v_GetStringMap W ''cluster_ips'') x = map_option IStr (gm_get (g_ips g) x)"
    "gm_get (v_GetStringMap W ''cluster_ed_pubkey'') x = map_option IStr (gm_get (g_pub g) x)"
    "gm_wf (v_GetStringMap W ''cluster_ed_pubkey'')"
    by (simp_all add: gm_get_map_vals)
qed

text \<open>The public keys of a generated file, as the loop of \<open>LoadConfig\<close> meets them.\<close>

lemma pubkeys_indexed:
  assumes "km = put_all (map (\<lambda>i. (node_name (int i), hex_encode (pub i))) [0..<N]) []"
    and "gm_wf m" and "\<And>x. gm_get m x = map_option IStr (gm_get km x)"
  shows "\<exists>is. range_order sd m = map (peer_entry pub) is \<and> set is = {..<N} \<and> distinct is"
proof -
  let ?kvs = "map (\<lambda>i. (node_name (int i), hex_encode (pub i))) [0..<N]"
  have d: "distinct (map fst ?kvs)" by (simp add: distinct_map comp_def inj_on_def node_name_inj)
  have mem: "(x, v) \<in> set m \<longleftrightarrow> (\<exists>i < N. (x, v) = peer_entry pub i)" for x v
  proof -
    have "(x, v) \<in> set m \<longleftrightarrow> (\<exists>b. map_of ?kvs x = Some b \<and> v = IStr b)"
      by (simp only: gm_mem_iff [OF assms(2)] assms(3) assms(1) put_all_get [OF d])
        (auto split: option.split)
    also have "\<dots> \<longleftrightarrow> (\<exists>i < N. (x, v) = peer_entry pub i)"
      using d by (auto simp: map_of_eq_Some_iff peer_entry_def)
    finally show ?thesis .
  qed
  then have "\<forall>e \<in> set (range_order sd m). \<exists>i < N. e = peer_entry pub i" by auto
  from entries_indexed [OF this] obtain "is" where
    i: "range_order sd m = map (peer_entry pub) is" "set is \<subseteq> {..<N}" by blast
  have "i \<in> set is" if "i < N" for i
  proof -
    from that mem have "peer_entry pub i \<in> set m" by (metis prod.collapse)
    then have "peer_entry pub i \<in> set (map (peer_entry pub) is)" by (simp only: i(1) [symmetric] set_range_order)
    then show ?thesis by (auto simp: peer_entry_def node_name_inj)
  qed
  moreover have "distinct (map (peer_entry pub) is)"
    using assms(2) by (simp only: i(1) [symmetric] distinct_range_order) (simp add: gm_wf_def distinct_map)
  ultimately show ?thesis using i by (auto simp: distinct_map)
qed

section \<open>The round trip\<close>

text \<open>
  What the theorem needs of the generator's libraries: the shares have indices of Go's \<open>int\<close>,
  and kyber reads back what it marshals.
\<close>

definition shares_ok :: "PriShare list \<Rightarrow> bool" where
  "shares_ok shares \<longleftrightarrow> (\<forall>s \<in> set shares. - (2 ^ 63) \<le> share_I s \<and> share_I s < 2 ^ 63)"

lemma share_back:
  assumes "kyber_marshal_ok C" and "shares_ok shares" and "EncodeTSPartialKey C (shares ! i) = Some b" and "i < length shares"
  shows "DecodeTSPartialKey C b = Some (shares ! i)"
  using partial_key_bytes [OF assms(1,3)] assms(2,4) by (simp add: shares_ok_def)

lemma encoded_bytes:
  "EncodeTSPartialKey C k = Some b \<Longrightarrow> Some (bytes_of b) = b"
  "EncodeTSPublicKey C q = Some b \<Longrightarrow> Some (bytes_of b) = b"
  by (auto simp: EncodeTSPartialKey_def EncodeTSPublicKey_def encode_def split: option.splits)

text \<open>
  What node \<open>i\<close> of a cluster of \<open>N\<close> is configured with: its number, its private key and shares,
  the peers, and the quorums.
\<close>

definition node_config ::
  "viper \<Rightarrow> nat \<Rightarrow> (nat \<Rightarrow> string) \<Rightarrow> (nat \<Rightarrow> string) \<Rightarrow> PriShare list \<times> PubPoly \<Rightarrow> PriShare list \<times> PubPoly \<Rightarrow>
   int \<Rightarrow> int \<Rightarrow> nat \<Rightarrow> Config \<Rightarrow> bool" where
  "node_config V N prv pub slow fast abm pbm i conf \<longleftrightarrow>
     c_ReplicaId conf = of_nat i \<and> c_MyPrivateKey conf = Some (prv i) \<and>
     c_TsPriKey conf = fst slow ! i \<and> c_TsPubKey conf = snd slow \<and>
     c_FastPriKey conf = fst fast ! i \<and> c_FastPubKey conf = snd fast \<and>
     length (c_ClusterAddr conf) = N \<and>
     (\<forall>j < N. gm_get (c_PublicKeyMap conf) (of_nat j) = Some (Some (pub j)) \<and>
        gm_get (c_ClusterAddr conf) (of_nat j) = Some (template_addr V j) \<and>
        gm_get (c_ClusterPort conf) (of_nat j) = Some (template_port V j)) \<and>
     c_FastQcQuorum conf = fastNum (int N) abm pbm \<and>
     c_ViewChangeQuorum conf = gen_viewChangeQuorum (int N) abm pbm \<and>
     c_PrePrepareSubsetCount conf = gen_prePrepareSubsetCount (int N) pbm"

lemma generated_config:
  assumes "template_ok V N" and "gen_main C V ord prv pub ts rnd wr ProcessCount = Ret files"
    and "(f, s) \<in> set files" and "reads_back W s" and "kyber_marshal_ok C"
    and "fst ts (numT (int N)) (int N) = (shares, pubPoly)" and "shares_ok shares"
    and "snd ts (fastNum (int N) abm pbm) (int N) = (fastShares, fastPubPoly)" and "shares_ok fastShares"
    and "abm = v_GetInt V ''abmnum''" and "pbm = v_GetInt V ''pbmnum''"
  shows "\<exists>i < N. f = node_name (int i) @ ''_0.yaml'' \<and> (\<exists>conf. LoadConfig C sd W = Ret (Inr conf) \<and>
     node_config V N prv pub (shares, pubPoly) (fastShares, fastPubPoly) abm pbm i conf)"
proof -
  from gen_main_files [OF assms(1) assms(2) [unfolded ProcessCount_def]] obtain g where
    g: "gen_state_ok V N prv pub g" "(g_shares g, g_pubPoly g) = (shares, pubPoly)"
      "(g_fastShares g, g_fastPubPoly g) = snd ts (fastNum (int N) (g_abm g) (g_pbm g)) (int N)"
    and each: "\<forall>fi \<in> set files. \<exists>i < N. gen_process C V 1 g (node_name (int i)) 0 = Ret fi"
    unfolding assms(6) by blast
  have N: "N < 2 ^ 32" using assms(1) by (simp add: template_ok_def)
  have st: "g_abm g = abm" "g_pbm g = pbm" "g_total g = int N" using g(1) assms(10,11) by (simp_all add: gen_state_ok_def)
  with g(3) assms(8) have fast: "g_fastShares g = fastShares" "g_fastPubPoly g = fastPubPoly" by simp_all
  from each assms(3) obtain i where i: "i < N" "gen_process C V 1 g (node_name (int i)) 0 = Ret (f, s)" by auto
  with N have "int i < 2 ^ 63" by simp
  from i(2) this obtain share tsPub fastShare fastTsPub where
    enc: "EncodeTSPartialKey C (shares ! i) = Some share" "EncodeTSPublicKey C pubPoly = Some tsPub"
      "EncodeTSPartialKey C (fastShares ! i) = Some fastShare" "EncodeTSPublicKey C fastPubPoly = Some fastTsPub"
    and f: "f = node_name (int i) @ ''_0.yaml''"
    and s: "s = gen_settings V g (node_name (int i)) 0 (int i) share tsPub fastShare fastTsPub"
    and len: "i < length shares" "i < length fastShares"
    by (rule gen_process_node) (use g(2) fast in auto)
  note dec = share_back [OF assms(5,7) enc(1) len(1)] share_back [OF assms(5,9) enc(3) len(2)]
    public_key_bytes [OF assms(5) enc(2)] public_key_bytes [OF assms(5) enc(4)]
  note some = encoded_bytes(1) [OF enc(1)] encoded_bytes(2) [OF enc(2)] encoded_bytes(1) [OF enc(3)] encoded_bytes(2) [OF enc(4)]
  have pri: "gm_get0 [] (g_pri g) (node_name (int i)) = hex_encode (prv i)"
    using g(1) node_list_get [OF i(1), of "\<lambda>i. hex_encode (prv i)"] by (simp add: gen_state_ok_def gm_get0_def)
  note reads = gen_settings_reads [OF assms(4) s, unfolded pri st] and maps = gen_settings_maps [OF assms(4) s]
  have pubs: "g_pub g = put_all (map (\<lambda>i. (node_name (int i), hex_encode (pub i))) [0..<N]) []"
    using g(1) by (simp add: gen_state_ok_def)
  from pubkeys_indexed [OF pubs maps(4,3)] obtain "is" where
    ix: "range_order sd (v_GetStringMap W ''cluster_ed_pubkey'') = map (peer_entry pub) is" "set is = {..<N}" "distinct is"
    by blast
  have "\<forall>i < N. gm_get (v_GetStringMap W ''peers_p2p_port'') (node_name (int i)) = Some (IInt (template_port V i)) \<and>
      gm_get (v_GetStringMap W ''cluster_ips'') (node_name (int i)) = Some (IStr (template_addr V i))"
    using g(1) by (simp add: maps(1,2) gen_state_ok_def)
  note peers = load_peers_result [OF this N equalityD1 [OF ix(2)]]
  note idx = indexed_map [OF ix(2,3) N]
  have "v_ReadInConfig W" using assms(4) by (simp add: reads_back_def)
  then show ?thesis
    using i(1) f
    by (intro exI [of _ i])
      (simp add: LoadConfig_def reads or_return_def hex_DecodeString_encode dec some ix(1) peers idx node_config_def)
qed

text \<open>
  Every file the generator writes for a template of \<open>N\<close> nodes belongs to one of them, and
  loading it gives that node's configuration without error: its number, its private key and
  shares, the public key, address and port of every node of the cluster, and the quorums
  computed from \<open>N\<close> and the configured numbers of faulty nodes.
\<close>

theorem generated_config_loads:
  assumes "template_ok V N" and "gen_main C V ord prv pub ts rnd wr ProcessCount = Ret files"
    and "(f, s) \<in> set files" and "reads_back W s" and "kyber_marshal_ok C"
    and "fst ts (numT (int N)) (int N) = (shares, pubPoly)" and "shares_ok shares"
    and "snd ts (fastNum (int N) abm pbm) (int N) = (fastShares, fastPubPoly)" and "shares_ok fastShares"
    and "abm = v_GetInt V ''abmnum''" and "pbm = v_GetInt V ''pbmnum''"
  shows "\<exists>i < N. f = node_name (int i) @ ''_0.yaml'' \<and> (\<exists>conf. LoadConfig C sd W = Ret (Inr conf) \<and>
     c_ReplicaId conf = of_nat i \<and> c_MyPrivateKey conf = Some (prv i) \<and>
     c_TsPriKey conf = shares ! i \<and> c_TsPubKey conf = pubPoly \<and>
     c_FastPriKey conf = fastShares ! i \<and> c_FastPubKey conf = fastPubPoly \<and>
     length (c_ClusterAddr conf) = N \<and>
     (\<forall>j < N. gm_get (c_PublicKeyMap conf) (of_nat j) = Some (Some (pub j)) \<and>
        gm_get (c_ClusterAddr conf) (of_nat j) = Some (template_addr V j) \<and>
        gm_get (c_ClusterPort conf) (of_nat j) = Some (template_port V j)) \<and>
     c_FastQcQuorum conf = fastNum (int N) abm pbm \<and>
     c_ViewChangeQuorum conf = gen_viewChangeQuorum (int N) abm pbm \<and>
     c_PrePrepareSubsetCount conf = gen_prePrepareSubsetCount (int N) pbm)"
  using generated_config [OF assms] unfolding node_config_def fst_conv snd_conv .

text \<open>A cluster of one node, with a marshalling that writes a number in unary.\<close>

definition demo_template :: viper where
  "demo_template = viper_of [(''ips'', IMap [(''node0'', IStr ''h'')]), (''peers_p2p_port'', IMap [(''node0'', IInt 1)])]"

definition unary_crypto :: crypto where
  "unary_crypto = demo_crypto\<lparr>scalar_Marshal := \<lambda>v. Some (Some (replicate v CHR ''k'')),
     scalar_Unmarshal := \<lambda>b. Some (length (bytes_of b)),
     point_Marshal := \<lambda>v. Some (Some (replicate v CHR ''k'')),
     point_Unmarshal := \<lambda>b. Some (length (bytes_of b))\<rparr>"

lemma unary_ok: "kyber_marshal_ok unary_crypto"
  by (auto simp: kyber_marshal_ok_def unary_crypto_def demo_crypto_def)

definition demo_shares :: "int \<Rightarrow> int \<Rightarrow> PriShare list \<times> PubPoly" where
  "demo_shares t n = ([\<lparr>share_I = 0, share_V = 2\<rparr>], 3)"

definition demo_files :: "(string \<times> (string, iface) gomap) list" where
  "demo_files = (case gen_main unary_crypto demo_template (\<lambda>i. 0) (\<lambda>i. ''a'') (\<lambda>i. ''b'')
     (demo_shares, demo_shares) (\<lambda>i. 0) (\<lambda>f. True) ProcessCount of Ret fs \<Rightarrow> fs | _ \<Rightarrow> [])"

definition plain_maps :: "(string, iface) gomap \<Rightarrow> bool" where
  "plain_maps s \<longleftrightarrow> distinct (map (lower \<circ> fst) s) \<and> list_all (\<lambda>(k, v). case v of IMap m \<Rightarrow> gm_wf m | _ \<Rightarrow> True) s"

lemma plain_maps_read: "plain_maps s \<Longrightarrow> reads_back (viper_of s) s"
  by (rule viper_of_reads_back) (auto simp: plain_maps_def list_all_iff)

lemma demo_files_run:
  "case gen_main unary_crypto demo_template (\<lambda>i. 0) (\<lambda>i. ''a'') (\<lambda>i. ''b'')
     (demo_shares, demo_shares) (\<lambda>i. 0) (\<lambda>f. True) ProcessCount of
     Ret fs \<Rightarrow> fs \<noteq> [] \<and> plain_maps (snd (hd fs)) | _ \<Rightarrow> False"
  by code_simp

lemma demo_files_eq:
  "gen_main unary_crypto demo_template (\<lambda>i. 0) (\<lambda>i. ''a'') (\<lambda>i. ''b'')
     (demo_shares, demo_shares) (\<lambda>i. 0) (\<lambda>f. True) ProcessCount = Ret demo_files"
  "demo_files \<noteq> []" "plain_maps (snd (hd demo_files))"
  using demo_files_run by (auto simp: demo_files_def split: go.splits)

lemma demo_template_ok: "template_ok demo_template 1"
  by (simp add: template_ok_def demo_template_def viper_of_def viper_look_def gm_get_def gm_wf_def gm_keys_def) code_simp

theorem generated_config_loads_witness:
  "\<exists>conf. (LoadConfig unary_crypto 0 (viper_of (snd (hd demo_files))) :: (unit, _) go) = Ret (Inr conf) \<and> c_ReplicaId conf = 0 \<and>
     c_TsPriKey conf = \<lparr>share_I = 0, share_V = 2\<rparr> \<and> gm_get (c_ClusterAddr conf) 0 = Some ''h'' \<and> c_ViewChangeQuorum conf = 1"
proof -
  have fi: "(fst (hd demo_files), snd (hd demo_files)) \<in> set demo_files" using demo_files_eq(2) by simp
  note rd = plain_maps_read [OF demo_files_eq(3)]
  have sh: "shares_ok [\<lparr>share_I = 0, share_V = 2\<rparr>]" by (simp add: shares_ok_def)
  have ints: "v_GetInt demo_template ''abmnum'' = 0" "v_GetInt demo_template ''pbmnum'' = 0"
    by (simp_all add: demo_template_def viper_of_def viper_look_def gm_get_def lower_def byte_of_def)
  have addr: "template_addr demo_template 0 = ''h''"
    by code_simp
  from generated_config_loads [OF demo_template_ok demo_files_eq(1) fi rd unary_ok _ sh _ sh refl refl, of 3 3 0]
  obtain conf where "(LoadConfig unary_crypto 0 (viper_of (snd (hd demo_files))) :: (unit, _) go) = Ret (Inr conf)"
    "c_ReplicaId conf = 0" "c_TsPriKey conf = \<lparr>share_I = 0, share_V = 2\<rparr>"
    "gm_get (c_ClusterAddr conf) 0 = Some (template_addr demo_template 0)"
    "c_ViewChangeQuorum conf = gen_viewChangeQuorum 1 0 0"
    unfolding ints by (auto simp: demo_shares_def)
  then show ?thesis by (simp add: addr gen_viewChangeQuorum_def sdiv_nonneg)
qed

end
