(* ===== verification/Client.thy ===== *)
theory Client
  imports BatchLoop Runs
begin

text \<open>
  The client (client/main.go): its command line, sending a request to a node and following
  the leader named in the reply. The network is a parameter: what dialling an address and
  calling the method with a request gives. So is the cli library's parser: what it finds in
  the arguments for the flags the program declares, and which command.
\<close>

record CMD =
  rpcAddress :: string
  rpcPort :: int
  reqText :: string

text \<open>What a call of the server gives: no connection, an error, or a reply.\<close>

datatype rpc_result = DialFails | CallFails | Reply string

text \<open>\<open>strings.Index\<close>: the position of the first occurrence, -1 if there is none.\<close>

fun find_from :: "string \<Rightarrow> string \<Rightarrow> nat \<Rightarrow> int" where
  "find_from w [] i = (if w = [] then int i else - 1)"
| "find_from w (c # cs) i = (if take (length w) (c # cs) = w then int i else find_from w cs (Suc i))"

definition strings_Index :: "string \<Rightarrow> string \<Rightarrow> int" where
  "strings_Index s w = find_from w s 0"

text \<open>
  What the client does to the network, as a log beside its state; no code reads the log.
\<close>

datatype client_event = Dial string | Call string string

record client =
  cl_cmd :: CMD
  cl_log :: "client_event list"

definition cl_event :: "client_event \<Rightarrow> client \<Rightarrow> client" where
  "cl_event e c = c\<lparr>cl_log := cl_log c @ [e]\<rparr>"

definition target_of :: "CMD \<Rightarrow> string" where
  "target_of cmd = rpcAddress cmd @ '':'' @ itoa (rpcPort cmd)"

text \<open>
  The network, asked with the address and the request. The address after the word \<open>is\<close> of a
  reply becomes the next one to call.
\<close>

type_synonym network = "string \<Rightarrow> string \<Rightarrow> rpc_result"

definition sendRequest :: "network \<Rightarrow> client \<Rightarrow> ('s, client) go" where
  "sendRequest net c =
     (let cmd = cl_cmd c; c = cl_event (Dial (target_of cmd)) c in
      case net (target_of cmd) (reqText cmd) of
        DialFails \<Rightarrow> Ret c
      | CallFails \<Rightarrow> Panic ExplicitPanic
      | Reply reply \<Rightarrow>
          (let c = cl_event (Call ''ReqHandler.ReceiveNewRequest'' (reqText cmd)) c;
               k = strings_Index reply ''is'' + 3
           in if k > int (length reply) then Panic SliceOutOfRange
              else Ret (c\<lparr>cl_cmd := cmd\<lparr>rpcAddress := drop (nat k) reply\<rparr>\<rparr>)))"

text \<open>
  The action of \<open>sendrequest\<close>: as many calls as asked for, or calls for ever when the number
  is -1. \<open>net i\<close> is the network at call \<open>i\<close>; the fuel is the number of calls looked at, and
  \<open>Block\<close> the state after them when more are to come.
\<close>

fun send_loop :: "nat \<Rightarrow> (nat \<Rightarrow> network) \<Rightarrow> int \<Rightarrow> nat \<Rightarrow> client \<Rightarrow> (client, client) go" where
  "send_loop fuel net requestNum i c =
     (if requestNum \<noteq> - 1 \<and> int i \<ge> requestNum then Ret c
      else (case fuel of
              0 \<Rightarrow> Block c
            | Suc fuel \<Rightarrow> go_bind (sendRequest (net i) c) (send_loop fuel net requestNum (Suc i))))"

declare send_loop.simps [simp del]


section \<open>Talking to a node\<close>

lemma find_from_skip: "CHR ''i'' \<notin> set p \<Longrightarrow> find_from ''is'' (p @ s) k = find_from ''is'' s (k + length p)"
  by (induction p arbitrary: k) auto

lemma itoa_no_i: "CHR ''i'' \<notin> set (itoa k)"
  using itoa_numchars [of "CHR ''i''" k] by (auto simp: is_numchar_def is_digit_def byte_of_def)

lemma reply_index:
  "strings_Index (reply_text (''Node'' @ itoa i) leader) ''is'' + 3 =
     int (length (''response from Node'' @ itoa i @ '' and current leaderIp is ''))"
proof -
  let ?p = "''response from Node'' @ itoa i @ '' and current leaderIp ''"
  have "reply_text (''Node'' @ itoa i) leader = ?p @ ''is '' @ leader" by (simp add: reply_text_def)
  moreover have "CHR ''i'' \<notin> set ?p" using itoa_no_i [of i] by simp
  then have "find_from ''is'' (?p @ ''is '' @ leader) 0 = find_from ''is'' (''is '' @ leader) (0 + length ?p)"
    by (rule find_from_skip)
  moreover have "find_from ''is'' (''is '' @ leader) m = int m" for m by simp
  ultimately have "strings_Index (reply_text (''Node'' @ itoa i) leader) ''is'' = int (length ?p)"
    by (simp only: strings_Index_def add_0)
  then show ?thesis by simp
qed

definition called :: "CMD \<Rightarrow> client_event list" where
  "called cmd = [Dial (target_of cmd), Call ''ReqHandler.ReceiveNewRequest'' (reqText cmd)]"

lemma sendRequest_reply:
  assumes "net (target_of (cl_cmd c)) (reqText (cl_cmd c)) = Reply (reply_text (''Node'' @ itoa i) l)"
  shows "sendRequest net c = Ret \<lparr>cl_cmd = (cl_cmd c)\<lparr>rpcAddress := l\<rparr>, cl_log = cl_log c @ called (cl_cmd c)\<rparr>"
proof -
  let ?p = "''response from Node'' @ itoa i @ '' and current leaderIp is ''"
  have split: "reply_text (''Node'' @ itoa i) l = ?p @ l" by (simp add: reply_text_def)
  have "strings_Index (?p @ l) ''is'' + 3 = int (length ?p)" using reply_index [of i l] by (simp only: split)
  then show ?thesis
    using assms unfolding split sendRequest_def
    by (simp only: Let_def rpc_result.case of_nat_le_iff not_less nat_int append_eq_conv_conj if_False of_nat_less_iff)
      (simp add: cl_event_def called_def)
qed

text \<open>
  A client that gets a node's reply calls the leader the node named next, whatever the
  node's number and the leader's address; its request is at the end of the node's pool with
  the prefix \<open>cmd\<close>.
\<close>

theorem client_follows_leader:
  assumes "rh_NodeName (cfg n) = ''Node'' @ itoa i" and "ReceiveNewRequest (Some (reqText cmd)) n = (n', reply)"
  shows "sendRequest (\<lambda>t q. Reply reply) \<lparr>cl_cmd = cmd, cl_log = before\<rparr> =
      Ret \<lparr>cl_cmd = cmd\<lparr>rpcAddress := rh_Leader n\<rparr>, cl_log = before @ called cmd\<rparr> \<and>
    slice_of (batchStore n') = slice_of (batchStore n) @ [Some \<lparr>Cmd = Some (''cmd'' @ reqText cmd)\<rparr>]"
proof -
  from assms have "reply = reply_text (''Node'' @ itoa i) (rh_Leader n)"
    and b: "slice_of (batchStore n') = slice_of (batchStore n) @ [Some \<lparr>Cmd = Some (''cmd'' @ reqText cmd)\<rparr>]"
    by (auto simp: ReceiveNewRequest_def Let_def)
  with sendRequest_reply [of "\<lambda>t q. Reply reply" "\<lparr>cl_cmd = cmd, cl_log = before\<rparr>" i "rh_Leader n"] b
  show ?thesis by simp
qed

text \<open>A bounded number of requests is always sent in as many steps, unless a call panics.\<close>

lemma send_loop_enough:
  "0 \<le> requestNum \<Longrightarrow> requestNum \<le> int i + int fuel \<Longrightarrow> send_loop fuel net requestNum i c \<noteq> Block c'"
proof (induction fuel arbitrary: i c)
  case 0
  then show ?case by (simp add: send_loop.simps)
next
  case (Suc fuel)
  have nb: "sendRequest x c \<noteq> (Block y :: (client, client) go)" for x y and c :: client
    by (auto simp: sendRequest_def Let_def split: rpc_result.split)
  show ?case
  proof (cases "sendRequest (net i) c :: (client, client) go")
    case (Ret d)
    with Suc.IH [of "Suc i" d] Suc.prems show ?thesis by (subst send_loop.simps) simp
  next
    case (Panic p)
    then show ?thesis by (subst send_loop.simps) simp
  next
    case (Block d)
    with nb show ?thesis by simp
  qed
qed

section \<open>The command line\<close>























end
