(* ===== verification/Execution.thy ===== *)
theory Execution
  imports Safety
begin

text \<open>
  What \<open>executeRequest\<close> does as a whole: the loop ends within the fuel the model gives it, it
  executes exactly the run of consecutive numbers that are buffered after the last executed
  one, and it returns whenever leaving the view is switched off.
\<close>

section \<open>The fuel of the loop\<close>

text \<open>The number \<open>k\<close> after \<open>i\<close>, and the run of buffered numbers from \<open>i\<close>.\<close>

definition ready_run :: "(u32, gobytes) gomap \<Rightarrow> u32 \<Rightarrow> nat \<Rightarrow> bool" where
  "ready_run b i k \<longleftrightarrow> (\<forall>j < k. gm_get0 None b (i + of_nat j) \<noteq> None)"

lemma ready_run_0 [simp]: "ready_run b i 0"
  by (simp add: ready_run_def)

lemma ready_run_Suc: "ready_run b i (Suc k) \<longleftrightarrow> gm_get0 None b i \<noteq> None \<and> ready_run b (i + 1) k"
  unfolding ready_run_def by (simp add: All_less_Suc2 ac_simps)

text \<open>A run shorter than \<open>2 ^ 32\<close> visits different keys, so it is no longer than the map.\<close>

lemma ready_run_length:
  assumes "ready_run b i k" and "k \<le> 2 ^ 32"
  shows "k \<le> length b"
proof -
  let ?f = "\<lambda>j. i + (of_nat j :: u32)"
  have "inj_on ?f {..<k}"
  proof (rule inj_onI)
    fix x y assume xy: "x \<in> {..<k}" "y \<in> {..<k}" "?f x = ?f y"
    then have "unat (of_nat x :: u32) = unat (of_nat y :: u32)" by simp
    moreover have "x < 2 ^ 32" "y < 2 ^ 32" using xy(1,2) assms(2) by (auto intro: less_le_trans)
    ultimately show "x = y" by (simp add: unat_of_nat)
  qed
  then have "k = card (?f ` {..<k})" by (simp add: card_image)
  also have "\<dots> \<le> card (fst ` set b)"
  proof (rule card_mono)
    have "i + of_nat j \<in> fst ` set b" if "j < k" for j
    proof -
      from assms(1) that obtain d where "gm_get b (i + of_nat j) = Some d"
        by (auto simp: ready_run_def gm_get0_def split: option.splits)
      from gm_getD [OF this] show ?thesis by force
    qed
    then show "?f ` {..<k} \<subseteq> fst ` set b" by auto
  qed simp
  also have "\<dots> \<le> length b"
    by (metis card_image_le card_length finite_set le_trans)
  finally show ?thesis .
qed

lemma not_ready_run: "length b < 2 ^ 32 \<Longrightarrow> \<not> ready_run b i (Suc (length b))"
  using ready_run_length [of b i "Suc (length b)"] by auto

text \<open>One turn of the loop, and what it leaves alone.\<close>

definition exec_turn :: "env \<Rightarrow> errch \<Rightarrow> MsgId \<Rightarrow> string \<Rightarrow> stmt" where
  "exec_turn E err idx dg n = after_execution E err (mark_executed idx dg (snd (getCert idx n)))"

abbreviation filed :: "Node \<Rightarrow> u32 \<Rightarrow> MsgId" where
  "filed n \<equiv> gm_get0 (mkId 0 0) (execReqIdBuffer n)"

abbreviation buffered :: "Node \<Rightarrow> u32 \<Rightarrow> gobytes" where
  "buffered n \<equiv> gm_get0 None (execReqBuffer n)"

lemma exec_loop_turn:
  "exec_loop (Suc f) E err i n =
     (case buffered n i of None \<Rightarrow> Ret n
      | Some dg \<Rightarrow>
          if prePrepareStore (certOf n (filed n i)) = None then Panic NilDereference
          else go_bind (exec_turn E err (filed n i) dg n) (exec_loop f E err (i + 1)))"
  by (auto simp: exec_turn_def Let_def case_prod_unfold getCert_fst split: option.split)

lemma exec_turn_frame:
  assumes "exec_turn E err idx dg n = Ret m"
  shows "buffered m = buffered n" "filed m = filed n" "certOf m = certOf n" "cfg m = cfg n"
    "lastExec m = lastExec n + 1" "trace m = trace n @ [Executed (lastExec n + 1) idx (Some dg)]"
proof -
  let ?n1 = "snd (getCert idx n)"
  have s: "same_core (mark_executed idx dg ?n1) m"
    using go_rel_RetD [OF same_after_execution] assms by (auto simp: exec_turn_def)
  have g: "abs_node ?n1 = abs_node n" "cfg ?n1 = cfg n" by simp_all
  have last: "lastExec ?n1 = lastExec n" "trace ?n1 = trace n"
    by (simp_all add: getCert_def split: option.split)
  have m: "abs_node m = (abs_node n)\<lparr>a_last := lastExec n + 1,
      a_trace := trace n @ [Executed (lastExec n + 1) idx (Some dg)]\<rparr>"
    using same_coreD(2) [OF s] by (simp add: abs_mark_executed(1) g last)
  show "buffered m = buffered n" "certOf m = certOf n"
    "lastExec m = lastExec n + 1" "trace m = trace n @ [Executed (lastExec n + 1) idx (Some dg)]"
    using arg_cong [OF m, of a_buf] arg_cong [OF m, of a_cert] arg_cong [OF m, of a_last]
      arg_cong [OF m, of a_trace] by simp_all
  show "filed m = filed n" using arg_cong [OF m, of a_id] by (simp add: gm_get0_def fun_eq_iff)
  show "cfg m = cfg n" using same_coreD(1) [OF s] by (simp add: abs_mark_executed(2) g)
qed

text \<open>More fuel than the run of buffered numbers makes no difference.\<close>

lemma exec_loop_stable:
  assumes "\<not> ready_run (execReqBuffer n) i f"
  shows "exec_loop (f + d) E err i n = exec_loop f E err i n"
  using assms
proof (induction f arbitrary: i n)
  case (Suc f)
  show ?case
  proof (cases "buffered n i")
    case (Some dg)
    have "exec_loop (f + d) E err (i + 1) m = exec_loop f E err (i + 1) m"
      if "exec_turn E err (filed n i) dg n = Ret m" for m
    proof (rule Suc.IH)
      from Suc.prems Some have "\<not> ready_run (execReqBuffer n) (i + 1) f" by (simp add: ready_run_Suc)
      then show "\<not> ready_run (execReqBuffer m) (i + 1) f"
        by (simp add: ready_run_def exec_turn_frame(1) [OF that])
    qed
    then have "go_bind (exec_turn E err (filed n i) dg n) (exec_loop (f + d) E err (i + 1)) =
        go_bind (exec_turn E err (filed n i) dg n) (exec_loop f E err (i + 1))"
      by (cases "exec_turn E err (filed n i) dg n") auto
    then show ?thesis by (simp only: add_Suc exec_loop_turn Some option.case)
  qed (simp only: add_Suc exec_loop_turn option.case)
qed simp

lemma exec_loop_enough_fuel:
  assumes "length (execReqBuffer n) < 2 ^ 32" and "Suc (length (execReqBuffer n)) \<le> f"
  shows "exec_loop f E err i n = exec_loop (Suc (length (execReqBuffer n))) E err i n"
  using exec_loop_stable [OF not_ready_run [OF assms(1)], of "f - Suc (length (execReqBuffer n))" E err i]
    assms(2) by simp

section \<open>What is executed\<close>

text \<open>The log entry of the number \<open>sn\<close>, and the first \<open>k\<close> entries after the last execution.\<close>

definition exec_event :: "(u32 \<Rightarrow> MsgId) \<Rightarrow> (u32 \<Rightarrow> gobytes) \<Rightarrow> u32 \<Rightarrow> log_event" where
  "exec_event slots digests sn = Executed sn (slots sn) (digests sn)"

definition next_numbers :: "u32 \<Rightarrow> nat \<Rightarrow> u32 list" where
  "next_numbers l k = map (\<lambda>j. l + of_nat (Suc j)) [0..<k]"

lemma next_numbers_Suc: "next_numbers l (Suc k) = (l + 1) # next_numbers (l + 1) k"
proof -
  have "[0..<Suc k] = 0 # map Suc [0..<k]" by (simp add: upt_conv_Cons map_Suc_upt del: upt_Suc)
  then show ?thesis by (simp add: next_numbers_def ac_simps del: upt_Suc)
qed

lemma next_numbers_0 [simp]: "next_numbers l 0 = []"
  by (simp add: next_numbers_def)

lemma exec_loop_result:
  assumes "exec_loop f E err i n = Ret n'" and "i = lastExec n + 1"
  shows "\<exists>k. trace n' = trace n @ map (exec_event (filed n) (buffered n)) (next_numbers (lastExec n) k) \<and>
    lastExec n' = lastExec n + of_nat k \<and> None \<notin> buffered n ` set (next_numbers (lastExec n) k) \<and>
    buffered n (lastExec n' + 1) = None"
  using assms
proof (induction f arbitrary: i n)
  case (Suc f)
  show ?case
  proof (cases "buffered n i")
    case None
    with Suc.prems have "n' = n" "buffered n (lastExec n + 1) = None"
      by (simp_all only: exec_loop_turn option.case go.inject)
    then show ?thesis by (intro exI [of _ 0]) simp
  next
    case (Some dg)
    with Suc.prems(1) obtain m where m: "exec_turn E err (filed n i) dg n = Ret m"
      "exec_loop f E err (i + 1) m = Ret n'"
      by (auto simp only: exec_loop_turn option.case go_bind_eq_Ret split: if_splits)
    note fr = exec_turn_frame [OF m(1)]
    from Suc.IH [OF m(2)] fr(5) Suc.prems(2) obtain k where
      k: "trace n' = trace m @ map (exec_event (filed m) (buffered m)) (next_numbers (lastExec m) k)"
        "lastExec n' = lastExec m + of_nat k" "None \<notin> buffered m ` set (next_numbers (lastExec m) k)"
        "buffered m (lastExec n' + 1) = None" by auto
    have last: "i = lastExec n + 1" "lastExec m = lastExec n + 1" by (fact Suc.prems(2), fact fr(5))
    show ?thesis
      using k Some last fr(6) unfolding fr(1,2)
      by (intro exI [of _ "Suc k"]) (simp add: next_numbers_Suc exec_event_def add.commute)
  qed
qed simp

text \<open>The state the loop starts from: the slot is filed under its number with its digest.\<close>

definition file_request :: "MsgId \<Rightarrow> Node \<Rightarrow> Node" where
  "file_request idx n =
     (let m = snd (getCert idx (n\<lparr>execReqIdBuffer := gm_put (id_Sn idx) idx (execReqIdBuffer n)\<rparr>))
      in m\<lparr>execReqBuffer := gm_put (id_Sn idx) (reqBatchDigest (certOf n idx)) (execReqBuffer m)\<rparr>)"

lemma executeRequest_file:
  "executeRequest E idx err n =
     (let m = file_request idx n in
      if lastExec n < id_Sn idx then exec_loop (Suc (length (execReqBuffer m))) E err (lastExec n + 1) m
      else Ret m)"
proof -
  have "lastExec (file_request idx n) = lastExec n"
    by (simp add: file_request_def Let_def getCert_def split: option.split)
  moreover have "fst (getCert idx (n\<lparr>execReqIdBuffer := b\<rparr>)) = certOf n idx" for b
    by (simp add: getCert_fst)
  ultimately show ?thesis
    by (simp add: executeRequest_def file_request_def Let_def case_prod_unfold del: exec_loop.simps)
qed

lemma file_request_frame:
  "buffered (file_request idx n) = (buffered n)(id_Sn idx := reqBatchDigest (certOf n idx))"
  "filed (file_request idx n) = (filed n)(id_Sn idx := idx)"
  "gm_get (execReqIdBuffer (file_request idx n)) = (gm_get (execReqIdBuffer n))(id_Sn idx \<mapsto> idx)"
  "lastExec (file_request idx n) = lastExec n" "trace (file_request idx n) = trace n"
  "certOf (file_request idx n) = certOf n" "cfg (file_request idx n) = cfg n"
  "length (execReqBuffer (file_request idx n)) \<le> Suc (length (execReqBuffer n))"
proof -
  let ?m = "snd (getCert idx (n\<lparr>execReqIdBuffer := gm_put (id_Sn idx) idx (execReqIdBuffer n)\<rparr>))"
  have m: "execReqBuffer ?m = execReqBuffer n"
    "execReqIdBuffer ?m = gm_put (id_Sn idx) idx (execReqIdBuffer n)"
    "lastExec ?m = lastExec n" "trace ?m = trace n" "cfg ?m = cfg n"
    by (simp_all add: getCert_def split: option.split)
  have c: "certOf ?m = certOf n" by (simp add: fun_eq_iff)
  show "buffered (file_request idx n) = (buffered n)(id_Sn idx := reqBatchDigest (certOf n idx))"
    "filed (file_request idx n) = (filed n)(id_Sn idx := idx)"
    "gm_get (execReqIdBuffer (file_request idx n)) = (gm_get (execReqIdBuffer n))(id_Sn idx \<mapsto> idx)"
    "lastExec (file_request idx n) = lastExec n" "trace (file_request idx n) = trace n"
    "certOf (file_request idx n) = certOf n" "cfg (file_request idx n) = cfg n"
    "length (execReqBuffer (file_request idx n)) \<le> Suc (length (execReqBuffer n))"
    by (simp_all add: file_request_def Let_def m c fun_eq_iff gm_get0_put gm_get_put gm_put_length)
qed

lemma file_request_rcvd: "rcvd (file_request idx n) = rcvd n"
  by (simp add: file_request_def Let_def getCert_def split: option.split)

lemma executeRequest_result:
  assumes "lastExec n < id_Sn idx" and "executeRequest E idx err n = Ret n'"
  shows "\<exists>k. let digests = (buffered n)(id_Sn idx := reqBatchDigest (certOf n idx));
               slots = (filed n)(id_Sn idx := idx);
               run = next_numbers (lastExec n) k
    in trace n' = trace n @ map (exec_event slots digests) run \<and>
       lastExec n' = lastExec n + of_nat k \<and>
       None \<notin> digests ` set run \<and> digests (lastExec n' + 1) = None"
proof -
  have "exec_loop (Suc (length (execReqBuffer (file_request idx n)))) E err
      (lastExec n + 1) (file_request idx n) = Ret n'"
    using assms by (simp only: executeRequest_file Let_def if_True)
  from exec_loop_result [OF this] show ?thesis
    unfolding file_request_frame Let_def by blast
qed

text \<open>
  C12: filing a committed slot whose number has not been executed yet executes exactly the run
  of consecutive numbers after the last executed one for which a digest is then buffered, in
  order, each under the slot filed for it, and stops at the first number without one.
\<close>

theorem executeRequest_exact:
  assumes "lastExec n < id_Sn idx" and "executeRequest E idx err n = Ret n'"
  shows "\<exists>k. let digests = (buffered n)(id_Sn idx := reqBatchDigest (certOf n idx));
               slots = (filed n)(id_Sn idx := idx);
               run = next_numbers (lastExec n) k
    in trace n' = trace n @ map (exec_event slots digests) run \<and>
       lastExec n' = lastExec n + of_nat k \<and>
       None \<notin> digests ` set run \<and> digests (lastExec n' + 1) = None"
  using assms by (rule executeRequest_result)

text \<open>A committed slot at a fresh node.\<close>

definition demo_committed :: Node where
  "demo_committed = modCert (mkId 1 0) (\<lambda>c. c\<lparr>reqBatchStage := committed, reqBatchDigest := Some ''d'',
     prePrepareStore := Some demo_proposal\<rparr>) (started (demo_conf 1))"

lemma demo_committed_run:
  "lastExec demo_committed = 0" "trace demo_committed = []"
  "case executeRequest demo_env (mkId 1 0) NilCh demo_committed of
     Ret n \<Rightarrow> lastExec n = 1 \<and> trace n = [Executed 1 (mkId 1 0) (Some ''d'')] | _ \<Rightarrow> False"
  by code_simp+

theorem executeRequest_exact_witness:
  "\<exists>n' k. executeRequest demo_env (mkId 1 0) NilCh demo_committed = Ret n' \<and>
     trace n' = map (exec_event ((filed demo_committed)(1 := mkId 1 0))
       ((buffered demo_committed)(1 := reqBatchDigest (certOf demo_committed (mkId 1 0))))) (next_numbers 0 k) \<and>
     lastExec n' = of_nat k \<and> trace n' = [Executed 1 (mkId 1 0) (Some ''d'')]"
proof -
  from demo_committed_run(3) obtain n' where n': "executeRequest demo_env (mkId 1 0) NilCh demo_committed = Ret n'"
    "trace n' = [Executed 1 (mkId 1 0) (Some ''d'')]" by (auto split: go.splits)
  moreover obtain k where "trace n' = trace demo_committed @ map (exec_event ((filed demo_committed)(1 := mkId 1 0))
      ((buffered demo_committed)(1 := reqBatchDigest (certOf demo_committed (mkId 1 0))))) (next_numbers 0 k)"
    "lastExec n' = 0 + of_nat k"
  proof -
    have "lastExec demo_committed < id_Sn (mkId 1 0)" by (simp add: demo_committed_run(1))
    from executeRequest_exact [OF this n'(1)] show thesis
      unfolding Let_def demo_committed_run(1) MsgId.simps by (elim exE conjE) (rule that)
  qed
  ultimately show ?thesis
    unfolding demo_committed_run(2) append_Nil add_0 by (intro exI [of _ n'] exI [of _ k] conjI)
qed

section \<open>It returns\<close>

lemma after_execution_returns:
  assumes "autoViewChange (cfg n) \<noteq> 1" and "n_T (cfg n) \<noteq> 0"
  shows "\<exists>m. after_execution E err n = Ret m"
  using assms by (simp add: after_execution_def checkIfCreateChkpt_def spawn_def)

text \<open>Every buffered number has a slot with a pre-prepare.\<close>

definition slots_known :: "Node \<Rightarrow> bool" where
  "slots_known n \<longleftrightarrow> (\<forall>i. buffered n i \<noteq> None \<longrightarrow> prePrepareStore (certOf n (filed n i)) \<noteq> None)"

lemma exec_loop_returns:
  assumes "\<not> ready_run (execReqBuffer n) i f" and "slots_known n"
    and "autoViewChange (cfg n) \<noteq> 1" and "n_T (cfg n) \<noteq> 0"
  shows "\<exists>n'. exec_loop f E err i n = Ret n'"
  using assms
proof (induction f arbitrary: i n)
  case (Suc f)
  show ?case
  proof (cases "buffered n i")
    case (Some dg)
    let ?n = "mark_executed (filed n i) dg (snd (getCert (filed n i) n))"
    have "cfg ?n = cfg n" by (simp add: abs_mark_executed(2))
    with after_execution_returns [of ?n E err] Suc.prems(3,4) obtain m where
      m: "exec_turn E err (filed n i) dg n = Ret m" by (auto simp: exec_turn_def)
    note fr = exec_turn_frame [OF m]
    have "\<exists>n'. exec_loop f E err (i + 1) m = Ret n'"
    proof (rule Suc.IH)
      show "\<not> ready_run (execReqBuffer m) (i + 1) f"
        using Suc.prems(1) Some by (simp add: ready_run_Suc) (simp add: ready_run_def fr(1))
    qed (use Suc.prems fr in \<open>simp_all add: slots_known_def\<close>)
    with Some Suc.prems(2) m show ?thesis
      by (simp only: exec_loop_turn option.case) (simp add: slots_known_def)
  qed (simp only: exec_loop_turn option.case, blast)
qed simp

lemma file_request_slots:
  assumes "core_reach E (cfg n) (abs_node n)" and "reqBatchStage (certOf n idx) = committed"
  shows "slots_known (file_request idx n)"
proof -
  let ?m = "file_request idx n"
  have "abs_node ?m = (abs_node n)\<lparr>a_id := (a_id (abs_node n))(id_Sn idx \<mapsto> idx),
      a_buf := (a_buf (abs_node n))(id_Sn idx := reqBatchDigest (a_cert (abs_node n) idx))\<rparr>"
    unfolding abs_node_def by (simp add: file_request_frame file_request_rcvd)
  then have "core_step E (cfg n) (abs_node n) (abs_node ?m)"
    using core_step.buffer [of "abs_node n" idx E "cfg n"] assms(2) by simp
  from core_reach_buf_wf [OF core_reach.step [OF assms(1) this]] show ?thesis
    by (force simp: buf_wf_def slots_known_def gm_get0_def)
qed

lemma execute_committed:
  assumes "core_reach E (cfg n) (abs_node n)" and "reqBatchStage (certOf n idx) = committed"
    and "autoViewChange (cfg n) \<noteq> 1" and "n_T (cfg n) \<noteq> 0"
    and "Suc (length (execReqBuffer n)) < 2 ^ 32"
  shows "\<exists>n'. executeRequest E idx err n = Ret n' \<and>
    (id_Sn idx = lastExec n + 1 \<and> lastExec n < id_Sn idx \<and> reqBatchDigest (certOf n idx) \<noteq> None \<longrightarrow>
     Executed (id_Sn idx) idx (reqBatchDigest (certOf n idx)) \<in> set (trace n'))"
proof -
  let ?m = "file_request idx n"
  have "\<not> ready_run (execReqBuffer ?m) (lastExec n + 1) (Suc (length (execReqBuffer ?m)))"
    using file_request_frame(8) [of idx n] assms(5) by (intro not_ready_run) linarith
  from exec_loop_returns [OF this file_request_slots [OF assms(1,2)]] assms(3,4)
  obtain n' where n': "exec_loop (Suc (length (execReqBuffer ?m))) E err (lastExec n + 1) ?m = Ret n'"
    by (auto simp: file_request_frame(7))
  show ?thesis
  proof (cases "lastExec n < id_Sn idx")
    case True
    then have e: "executeRequest E idx err n = Ret n'" using n' by (simp only: executeRequest_file Let_def if_True)
    have "Executed (id_Sn idx) idx (reqBatchDigest (certOf n idx)) \<in> set (trace n')"
      if "id_Sn idx = lastExec n + 1" and "reqBatchDigest (certOf n idx) \<noteq> None"
    proof -
      from executeRequest_result [OF True e] obtain k where
        k: "trace n' = trace n @ map (exec_event ((filed n)(id_Sn idx := idx))
             ((buffered n)(id_Sn idx := reqBatchDigest (certOf n idx)))) (next_numbers (lastExec n) k)"
          "lastExec n' = lastExec n + of_nat k"
          "((buffered n)(id_Sn idx := reqBatchDigest (certOf n idx))) (lastExec n' + 1) = None"
        unfolding Let_def by blast
      have "k \<noteq> 0"
      proof
        assume "k = 0"
        with k(2) have "lastExec n' + 1 = id_Sn idx" using that(1) by simp
        with k(3) that(2) show False by simp
      qed
      then obtain k' where "k = Suc k'" by (cases k) auto
      with k(1) that(1) show ?thesis by (simp add: next_numbers_Suc exec_event_def)
    qed
    with e show ?thesis by blast
  qed (simp add: executeRequest_file Let_def del: exec_loop.simps)
qed

text \<open>The same for a slot that becomes committed by a step the abstract machine allows.\<close>

lemma commit_executes:
  assumes "core_reach E (cfg n) (abs_node n)"
    and "core_step E (cfg n) (abs_node n) (upd_cert idx (\<lambda>c. c\<lparr>reqBatchStage := committed\<rparr>) (abs_node n))"
    and "autoViewChange (cfg n) \<noteq> 1" and "n_T (cfg n) \<noteq> 0" and "Suc (length (execReqBuffer n)) < 2 ^ 32"
    and "id_Sn idx = lastExec n + 1" and "lastExec n < id_Sn idx" and "reqBatchDigest (certOf n idx) \<noteq> None"
  shows "\<exists>n'. executeRequest E idx err (modCert idx (\<lambda>c. c\<lparr>reqBatchStage := committed\<rparr>) n) = Ret n' \<and>
    Executed (id_Sn idx) idx (reqBatchDigest (certOf n idx)) \<in> set (trace n')"
proof -
  let ?m = "modCert idx (\<lambda>c. c\<lparr>reqBatchStage := committed\<rparr>) n"
  have m: "execReqBuffer ?m = execReqBuffer n" "lastExec ?m = lastExec n" "cfg ?m = cfg n"
    by (simp_all add: modCert_def getCert_def Let_def split: option.split)
  have "core_reach E (cfg ?m) (abs_node ?m)" using core_reach.step [OF assms(1,2)] by simp
  from execute_committed [OF this, of idx err] assms(3-8) show ?thesis
    by (auto simp: m certOf_modCert)
qed

text \<open>
  C27: in a reachable process, executing a committed slot returns when automatic view changes
  are off and the checkpoint interval is positive: the loop stops before its fuel is used up,
  whatever is buffered, provided fewer than 2^32 - 1 numbers are. If the slot is the next one, its
  number does not wrap around and it has a digest, it is executed now.
\<close>

theorem executeRequest_returns:
  assumes "reachable E (started conf) p" and "proc_node p = Some n"
    and "reqBatchStage (certOf n idx) = committed"
    and "autoViewChange (cfg n) \<noteq> 1" and "n_T (cfg n) \<noteq> 0"
    and "Suc (length (execReqBuffer n)) < 2 ^ 32"
  shows "\<exists>n'. executeRequest E idx err n = Ret n' \<and>
    (id_Sn idx = lastExec n + 1 \<and> lastExec n < id_Sn idx \<and> reqBatchDigest (certOf n idx) \<noteq> None \<longrightarrow>
     Executed (id_Sn idx) idx (reqBatchDigest (certOf n idx)) \<in> set (trace n'))"
  using execute_committed [OF reachable_node(1) [OF assms(1,2)] assms(3-6)] .

lemma fast_run_committed:
  "reqBatchStage (certOf (node_after fast_run) (mkId 1 0)) = committed"
  "autoViewChange (cfg (node_after fast_run)) = 0" "n_T (cfg (node_after fast_run)) = 5"
  "length (execReqBuffer (node_after fast_run)) = 1"
  by code_simp+

theorem executeRequest_returns_witness:
  "\<exists>n'. executeRequest demo_env (mkId 1 0) NilCh (node_after fast_run) = Ret n'"
  using executeRequest_returns [OF fast_run_reachable, of "node_after fast_run" "mkId 1 0" NilCh]
  by (auto simp: fast_run_committed)

section \<open>The abstract machine\<close>

text \<open>
  C13: the program refines the abstract machine of theory Core: whatever the network, the
  clients, the timers and the goroutines do, the certificates, the execution buffer, the
  last executed number and the log of a running or blocked process are a state the machine
  reaches by its guarded steps, and a step of the process is a sequence of its steps.
\<close>

theorem process_refines_core:
  assumes "reachable E (started conf) p" and "proc_node p = Some n"
  shows "core_reach E (cfg (started conf)) (abs_node n) \<and>
    (\<forall>e n'. (\<exists>q. node_step E p e q \<and> proc_node q = Some n') \<longrightarrow>
       (core_step E (cfg (started conf)))\<^sup>*\<^sup>* (abs_node n) (abs_node n'))"
proof -
  from reachable_node [OF assms] have n: "core_reach E (cfg n) (abs_node n)" "cfg n = cfg (started conf)" .
  moreover have "(core_step E (cfg n))\<^sup>*\<^sup>* (abs_node n) (abs_node n')"
    if "node_step E p e q" "proc_node q = Some n'" for e q n'
    using node_step_evolves [OF that(1) assms(2) that(2)] by (simp add: evolves_def)
  ultimately show ?thesis by auto
qed

theorem process_refines_core_witness:
  "core_reach demo_env (cfg (started (demo_conf 2))) (abs_node (node_after slow_run))"
  using process_refines_core [OF demo_slow(1), of "node_after slow_run"] by simp

end
