(* ===== verification/Disagree.thy ===== *)
theory Disagree
  imports Agreement
begin

text \<open>
  What certificate agreement does not give. The code executes the digest of the pre-prepare a
  replica accepted, and never compares it with the digest of the certificates that license
  the execution. One faulty leader of four uses this to make two correct replicas execute
  different batches under the same number, while every certificate is backed by a quorum.
\<close>

section \<open>A cluster of four\<close>

definition conf4 :: "u32 \<Rightarrow> Config" where
  "conf4 i = config_New ''h'' [(0, ''h''), (1, ''h''), (2, ''h''), (3, ''h'')] [(0, 1), (1, 1), (2, 1), (3, 1)]
     i (Some (replicate 64 CHR ''k'')) [(0, Some (replicate 32 CHR ''k''))]
     \<lparr>share_I = 0, share_V = 0\<rparr> 0 \<lparr>share_I = 0, share_V = 0\<rparr> 0
     1 2 1000 1 5 10 5 5 1000 3 3 2 0 1000 1000 0"

text \<open>The batch the leader proposes to replica 2 only, and its digest.\<close>

definition other_batch :: RequestBatch where
  "other_batch = \<lparr>Batch = Some [Some \<lparr>Cmd = Some ''cmdy''\<rparr>]\<rparr>"

definition other_digest :: gobytes where
  "other_digest = dataHashByte demo_crypto (j_RequestBatch other_batch)"

definition other_proposal :: PrePrepareMsg where
  "other_proposal = \<lparr>ppm_SN = 1, ppm_BatchHash = other_digest, ppm_ReqBatch = other_batch,
     ppm_View = 0, ppm_ReplicaId = 0, ppm_TimeStamp = 0\<rparr>"

text \<open>Every replica gets the same certificates; only the proposal differs.\<close>

definition events4 :: "PrePrepareMsg \<Rightarrow> event list" where
  "events4 p = [deliver_signed (PrePrepareM p), deliver_signed (PrepareQcM demo_prepareQc),
     deliver_signed (CommitQcM demo_commitQc)]"

definition run4 :: "u32 \<Rightarrow> proc option" where
  "run4 i = run_events demo_env (Running (started (conf4 i)))
     (events4 (if i = 2 then other_proposal else demo_proposal))"

definition node4 :: "u32 \<Rightarrow> Node" where
  "node4 i = (case run4 i of Some (Running n) \<Rightarrow> n | _ \<Rightarrow> started (conf4 i))"

definition log4 :: "u32 \<Rightarrow> bool" where
  "log4 i = (case run4 i of Some (Running n) \<Rightarrow>
     trace n = [SignedPrepare (demo_vote\<lparr>vote_BatchHash := if i = 2 then other_digest else demo_digest\<rparr>),
       SignedCommit demo_prepareQc, Executed 1 (mkId 1 0) (if i = 2 then other_digest else demo_digest)]
   | _ \<Rightarrow> False)"

lemma log4_runs: "log4 1" "log4 2" "log4 3"
  by code_simp+

section \<open>Two correct replicas, two batches\<close>

lemma node4_facts:
  assumes "log4 i"
  shows "correct_run demo_env (conf4 i) (node4 i)"
    "trace (node4 i) = [SignedPrepare (demo_vote\<lparr>vote_BatchHash := if i = 2 then other_digest else demo_digest\<rparr>),
       SignedCommit demo_prepareQc, Executed 1 (mkId 1 0) (if i = 2 then other_digest else demo_digest)]"
proof -
  from assms obtain n where r: "run4 i = Some (Running n)"
    and t: "trace n = [SignedPrepare (demo_vote\<lparr>vote_BatchHash := if i = 2 then other_digest else demo_digest\<rparr>),
       SignedCommit demo_prepareQc, Executed 1 (mkId 1 0) (if i = 2 then other_digest else demo_digest)]"
    by (auto simp: log4_def split: option.splits proc.splits)
  from r have n: "node4 i = n" by (simp add: node4_def)
  from r show "correct_run demo_env (conf4 i) (node4 i)"
    unfolding correct_run_def reachable_iff_run run4_def n by blast
  from t show "trace (node4 i) = [SignedPrepare (demo_vote\<lparr>vote_BatchHash := if i = 2 then other_digest else demo_digest\<rparr>),
       SignedCommit demo_prepareQc, Executed 1 (mkId 1 0) (if i = 2 then other_digest else demo_digest)]"
    unfolding n .
qed

text \<open>
  The strongest promise of a threshold scheme: whatever verifies was signed by \<open>k\<close> replicas of
  \<open>R\<close>, the correct ones (\<open>H\<close>) among them by running the code.
\<close>

fun signed_bytes :: "log_event \<Rightarrow> gobytes" where
  "signed_bytes (SignedPrepare v) = encode (j_VoteForPrepare v)"
| "signed_bytes (SignedCommit q) = encode (j_PrepareQc q)"
| "signed_bytes e = None"

definition shares_backed ::
  "crypto \<Rightarrow> PubPoly \<Rightarrow> nat \<Rightarrow> u32 set \<Rightarrow> u32 set \<Rightarrow> (u32 \<Rightarrow> Node) \<Rightarrow> bool" where
  "shares_backed C pub k R H node \<longleftrightarrow>
     (\<forall>msg sig. VerifyTS C pub msg sig \<longrightarrow>
        (\<exists>S. S \<subseteq> R \<and> k \<le> card S \<and>
          (\<forall>i \<in> S \<inter> H. \<exists>e \<in> set (trace (node i)). bytes_of (signed_bytes e) = bytes_of msg)))"

lemma shares_backed4: "shares_backed demo_crypto pub 3 {0, 1, 2, 3} {1, 2, 3} node4"
  unfolding shares_backed_def
proof (intro allI impI)
  fix msg sig
  assume "VerifyTS demo_crypto pub msg sig"
  then have "bytes_of msg = bytes_of (encode (j_VoteForPrepare demo_vote)) \<or>
      bytes_of msg = bytes_of (encode (j_PrepareQc demo_prepareQc))"
    by (auto simp: VerifyTS_def demo_crypto_def sign_dataHashByte_def)
  moreover have "demo_vote\<lparr>vote_BatchHash := demo_digest\<rparr> = demo_vote" by (simp add: demo_vote_def)
  ultimately have "\<exists>e \<in> set (trace (node4 i)). bytes_of (signed_bytes e) = bytes_of msg"
    if "i = 1 \<or> i = 3" for i
    using that log4_runs by (auto simp: node4_facts(2))
  then show "\<exists>S. S \<subseteq> {0, 1, 2, 3} \<and> 3 \<le> card S \<and>
      (\<forall>i \<in> S \<inter> {1, 2, 3}. \<exists>e \<in> set (trace (node4 i)). bytes_of (signed_bytes e) = bytes_of msg)"
    by (intro exI [of _ "{0, 1, 3}"]) auto
qed

text \<open>
  C3: there is a cluster of four with one faulty replica, in the numbers the generator
  computes, whose three correct replicas are in reachable states, with every verifying
  signature backed by three replicas, where two of them have executed different batches
  under the same sequence number and view. The digest executed is the one the leader
  proposed to each, not the certified one.
\<close>

theorem execution_can_disagree:
  "let c = \<lparr>cp_total = 4, cp_abm = 0, cp_pbm = 0\<rparr> in
   params_ok c \<and> slow_shares c = 3 \<and> tolerated c = 1 \<and>
   shares_backed demo_crypto 0 3 {0, 1, 2, 3} {1, 2, 3} node4 \<and>
   correct_run demo_env (conf4 1) (node4 1) \<and> correct_run demo_env (conf4 2) (node4 2) \<and>
   correct_run demo_env (conf4 3) (node4 3) \<and>
   (1, mkId 1 0, demo_digest) \<in> set (executed (trace (node4 1))) \<and>
   (1, mkId 1 0, other_digest) \<in> set (executed (trace (node4 2))) \<and>
   demo_digest \<noteq> other_digest"
proof -
  have "demo_digest \<noteq> other_digest" by code_simp
  then show ?thesis
    using log4_runs by (simp add: params_ok_iff slow_shares_eq tolerated_def shares_backed4 node4_facts)
qed

end
