(* ===== verification/Crashes.thy ===== *)
theory Crashes
  imports LeaveView Quorums
begin

text \<open>
  The deliveries that end a process: a signature that does not verify, a prepare vote for a
  slot the receiver has no timer for, and a share that makes the recovery of a threshold
  signature fail.
\<close>

section \<open>Signatures\<close>

text \<open>The receiver has a key of the right length for the sender, under which it verifies.\<close>

definition authentic :: "env \<Rightarrow> Node \<Rightarrow> MsgWithSig \<Rightarrow> bool" where
  "authentic E n m =
     (case sender_of (Command m) of
        None \<Rightarrow> True
      | Some i \<Rightarrow> signed_by E (cfg n) i (Command m) (Sig m))"

text \<open>What the main loop does with a message once it is verified.\<close>

fun handle :: "env \<Rightarrow> errch \<Rightarrow> message \<Rightarrow> stmt" where
  "handle E ch (PrePrepareM m) n = handlePrePrepareMsg E m ch n"
| "handle E ch (PrepareM m) n = handlePrepareMsg E m ch n"
| "handle E ch (CommitM m) n = handleCommitMsg E m ch n"
| "handle E ch (PrepareQcM m) n = handlePrepareQc E m ch n"
| "handle E ch (FastPrepareQcM m) n = handleFastPrepareQc E m ch n"
| "handle E ch (CommitQcM m) n = handleCommitQc E m ch n"
| "handle E ch (CheckpointM m) n = Ret (recvCheckpoint m ch n)"
| "handle E ch (ViewChangeM m) n = recvViewChange E m ch n"
| "handle E ch (NewViewM m) n = recvNewView E m ch n"
| "handle E ch ViewChangeQuorumM n =
     go_bind (primary n (currenView n)) (\<lambda>leader.
       if replicaId (cfg n) = leader then sendNewView E ch n else Ret n)"
| "handle E ch ViewChangeTimerM n = sendViewChange E ch n"

text \<open>A message that has a sender is noted before it is handled.\<close>

definition admit :: "message \<Rightarrow> Node \<Rightarrow> Node" where
  "admit m n = (case sender_of m of None \<Rightarrow> n | Some i \<Rightarrow> receive m n)"

lemma verified_authentic:
  assumes "sender_of (Command m) = Some i"
  shows "verified E m i h n = (if authentic E n m then h (receive (Command m) n) else Panic ExplicitPanic)"
proof -
  obtain bs where "encode (j_message (Command m)) = Some bs" by (cases "encode (j_message (Command m))") auto
  with assms show ?thesis
    by (auto simp: verified_def verifyRsaSignature_def VerifySignEd_def authentic_def signed_by_def Let_def split: option.split)
qed

lemma dispatch_authentic:
  "dispatch E ch m n = (if authentic E n m then handle E ch (Command m) (admit (Command m) n) else Panic ExplicitPanic)"
  by (cases "Command m")
    (auto simp: dispatch_def verified_authentic admit_def authentic_def [of E n m] simp del: go_bind.simps)

text \<open>
  A message that names a sender reaches its handler exactly when the receiver holds a 32-byte
  key of that sender under which the signature verifies, and ends the process with a panic
  otherwise. A message without a sender, the view-change quorum and timer ones, is handled
  whatever its signature is.
\<close>

theorem delivery_authentic_or_crash:
  "node_step E (Running n) (Deliver m) q \<longleftrightarrow>
     q = (if authentic E n m then main_outcome (handle E ErrCh (Command m) (admit (Command m) n)) else Crashed ExplicitPanic)"
  by (simp add: deliver_step_iff dispatch_authentic main_outcome_def)

section \<open>Prepare votes\<close>

lemma prepareTimer_frame [simp]:
  "prepareTimer (snd (getCert idx n)) = prepareTimer n" "prepareTimer (modCert idx g n) = prepareTimer n"
  "prepareTimer (init_partials idx key n) = prepareTimer n"
  by (simp_all add: getCert_def modCert_def init_partials_def Let_def split: option.split)

lemma handlePrepareVote_no_timer:
  assumes "gm_get (prepareTimer n) (vote_id (pm_Vote pm)) = None"
  shows "handlePrepareVote E pm n = Panic NilDereference"
  using assms by (simp add: handlePrepareVote_def Let_def case_prod_unfold)

text \<open>
  C39: an authentic prepare vote, inside the watermarks of an active view and the first of its
  sender for the number, crashes every replica without a prepare timer for the slot the vote
  names: only a leader that has proposed the slot itself has one.
\<close>

theorem stray_prepare_crashes:
  assumes "authentic E n \<lparr>Command = PrepareM pm, Sig = sg\<rparr>"
    and "activeView n" and "inWatermarks n (vote_SN (pm_Vote pm))"
    and "gm_get (prePareStore (certOf n (mkId (vote_SN (pm_Vote pm)) (currenView n)))) (pm_ReplicaId pm) = None"
    and "gm_get (prepareTimer n) (vote_id (pm_Vote pm)) = None"
  shows "node_step E (Running n) (Deliver \<lparr>Command = PrepareM pm, Sig = sg\<rparr>) (Crashed NilDereference)"
proof -
  let ?n = "receive (PrepareM pm) n"
  have "certOf ?n = certOf n" by (simp add: receive_def certOf_def fun_eq_iff)
  with assms(2-5) have "handlePrepareMsg E pm err ?n = Panic NilDereference" for err
    by (simp add: handlePrepareMsg_def checkIfPrePrepared_def Let_def case_prod_unfold getCert_fst
        handlePrepareVote_no_timer receive_def inWatermarks_def)
  with assms(1) show ?thesis by (simp add: deliver_step_iff dispatch_authentic admit_def main_outcome_def)
qed

definition demo_stray :: PrepareMsg where
  "demo_stray = \<lparr>pm_Vote = demo_vote, pm_ReplicaId = 0, pm_PartialSig = None, pm_FastPartialSig = None,
     pm_TimeStamp = 0\<rparr>"

lemma demo_started_facts:
  "authentic demo_env (started (demo_conf 1)) \<lparr>Command = PrepareM demo_stray, Sig = Some ''s''\<rparr>"
  "activeView (started (demo_conf 1))" "inWatermarks (started (demo_conf 1)) (vote_SN (pm_Vote demo_stray))"
  "gm_get (prePareStore (certOf (started (demo_conf 1)) (mkId (vote_SN (pm_Vote demo_stray))
     (currenView (started (demo_conf 1)))))) (pm_ReplicaId demo_stray) = None"
  "gm_get (prepareTimer (started (demo_conf 1))) (vote_id (pm_Vote demo_stray)) = None"
  by code_simp+

theorem stray_prepare_crashes_witness:
  "node_step demo_env (Running (started (demo_conf 1)))
     (Deliver \<lparr>Command = PrepareM demo_stray, Sig = Some ''s''\<rparr>) (Crashed NilDereference)"
  by (rule stray_prepare_crashes [OF demo_started_facts])

section \<open>Shares\<close>

lemma createPrepareQc_rejected:
  assumes "\<And>pub msg sigs t k. set sigs = snd ` set (gm_get0 [] (gm_get0 [] (partialSigInPrepare n) idx) key) \<Longrightarrow>
      tbls_Recover (env_crypto E) pub msg sigs t k = None"
  shows "createPrepareQc E idx key n = Panic ExplicitPanic"
  by (simp add: createPrepareQc_def createThresholdSig_def AssembleIntactTSPartial_def Let_def encode_def
      assms partials_def)

lemma getCert_parts [simp]:
  "partialSigInPrepare (snd (getCert idx n)) = partialSigInPrepare n" "cfg (snd (getCert idx n)) = cfg n"
  "partialSigInPrepare (modCert idx g n) = partialSigInPrepare n"
  by (simp_all add: getCert_def modCert_def Let_def split: option.split)

text \<open>
  Shares are stored unchecked, and recovering the threshold signature panics when it fails:
  once \<open>2 * f + 1\<close> votes are in and no certificate has been made, the end of the fast path's
  time crashes the leader if the library rejects one of the shares.
\<close>

theorem bad_share_crashes_leader:
  assumes "gm_get (prepareTimer n) idx \<noteq> None"
    and "2 * n_f (cfg n) + 1 \<le> int (length (gm_get0 [] (gm_get0 [] (partialSigInPrepare n) idx) key))"
    and "\<not> prepareQcStage (certOf n idx)"
    and rejects: "\<And>pub msg sigs t k. set sigs =
        snd ` set (gm_get0 [] (gm_get0 [] (partialSigInPrepare n) idx) key) \<Longrightarrow>
      tbls_Recover (env_crypto E) pub msg sigs t k = None"
  shows "prepareTimer_task E idx key n = Panic ExplicitPanic"
  using assms(1-3) createPrepareQc_rejected [of _ idx key E] rejects
  by (auto simp: prepareTimer_task_def checkIfPrepareQc_def Let_def case_prod_unfold getCert_fst certOf_def)

text \<open>A leader with one share, in a library that rejects it.\<close>

definition reject_env :: env where
  "reject_env = demo_env\<lparr>env_crypto := demo_crypto\<lparr>tbls_Recover := (\<lambda>q m ps t n. None)\<rparr>\<rparr>"

definition demo_leader :: Node where
  "demo_leader = (started (demo_conf 2))\<lparr>prepareTimer := [(mkId 1 0, \<lparr>ft_stop = False, ft_timeControl = None\<rparr>)],
     partialSigInPrepare := put_partial (mkId 1 0) ''d'' 0 (Some ''bad'') []\<rparr>"

lemma demo_leader_facts:
  "gm_get (prepareTimer demo_leader) (mkId 1 0) \<noteq> None" "\<not> prepareQcStage (certOf demo_leader (mkId 1 0))"
  "2 * n_f (cfg demo_leader) + 1
     \<le> int (length (gm_get0 [] (gm_get0 [] (partialSigInPrepare demo_leader) (mkId 1 0)) ''d''))"
  by code_simp+

theorem bad_share_crashes_leader_witness:
  "prepareTimer_task reject_env (mkId 1 0) ''d'' demo_leader = Panic ExplicitPanic"
  by (rule bad_share_crashes_leader [OF demo_leader_facts(1,3,2)]) (simp add: reject_env_def)

end
