(* ===== verification/Cluster.thy ===== *)
theory Cluster
  imports Quorums NodeOps
begin

text \<open>
  The numbers of a generated cluster against those a replica computes: the replica numbers,
  the drawing of the faulty nodes, and the votes a leader waits for compared with the shares
  the generated key needs.
\<close>

section \<open>Numbering\<close>

text \<open>The processes: one on the first machine, \<open>c\<close> on each of the others.\<close>

definition processes :: "int \<Rightarrow> int \<Rightarrow> (int \<times> int) set" where
  "processes nodeNumber c = insert (0, 0) ({1..<nodeNumber} \<times> {0..<c})"

lemma gen_replicaId_range:
  assumes "1 \<le> nodeNumber" and "0 < c" and "(i, j) \<in> processes nodeNumber c"
  shows "0 \<le> gen_replicaId c i j \<and> gen_replicaId c i j < TotalNodeNum nodeNumber c"
proof (cases "i = 0")
  case False
  with assms(3) have ij: "1 \<le> i" "i \<le> nodeNumber - 1" "0 \<le> j" "j \<le> c - 1" by (auto simp: processes_def)
  then have "(i - 1) * c \<le> (nodeNumber - 2) * c" using assms(2) by (intro mult_right_mono) auto
  moreover have "(nodeNumber - 1) * c = (nodeNumber - 2) * c + c" by (simp add: algebra_simps)
  moreover have "0 \<le> (i - 1) * c" using ij assms(2) by simp
  ultimately show ?thesis
    using ij False unfolding gen_replicaId_def TotalNodeNum_def by (simp only: if_False) linarith
qed (use assms in \<open>simp add: gen_replicaId_def TotalNodeNum_def add_nonneg_pos\<close>)

lemma gen_replicaId_onto:
  assumes "0 < c" and "0 \<le> r" and "r < TotalNodeNum nodeNumber c"
  shows "\<exists>(i, j) \<in> processes nodeNumber c. gen_replicaId c i j = r"
proof (cases "r = 0")
  case True
  then show ?thesis by (intro bexI [of _ "(0, 0)"]) (auto simp: processes_def gen_replicaId_def)
next
  case False
  let ?i = "(r - 1) div c + 1" and ?j = "(r - 1) mod c"
  have j: "0 \<le> ?j" "?j < c" using assms(1) by simp_all
  have i: "1 \<le> ?i" using assms(1,2) False by (simp add: pos_imp_zdiv_nonneg_iff)
  have "r - 1 < (nodeNumber - 1) * c" using assms(3) by (simp add: TotalNodeNum_def)
  moreover have "(r - 1) div c * c \<le> r - 1"
    using pos_mod_sign [OF assms(1), of "r - 1"] div_mult_mod_eq [of "r - 1" c] by linarith
  ultimately have "(r - 1) div c * c < (nodeNumber - 1) * c" by linarith
  with assms(1) have "(r - 1) div c < nodeNumber - 1" by simp
  then have "(?i, ?j) \<in> processes nodeNumber c" using i j by (simp add: processes_def)
  moreover have "gen_replicaId c ?i ?j = r" using i by (simp add: gen_replicaId_def)
  ultimately show ?thesis by (intro bexI [of _ "(?i, ?j)"]) simp
qed

text \<open>
  The generator numbers the processes of a cluster with 0, 1, ... up to the total number
  without a gap and without giving a number twice.
\<close>

theorem replica_ids_bijective:
  assumes "1 \<le> nodeNumber" and "0 < c"
  shows "bij_betw (\<lambda>(i, j). gen_replicaId c i j) (processes nodeNumber c) {0..<TotalNodeNum nodeNumber c}"
  unfolding bij_betw_def
proof
  show "inj_on (\<lambda>(i, j). gen_replicaId c i j) (processes nodeNumber c)"
  proof (rule inj_onI, clarify)
    fix i j i' j'
    assume "(i, j) \<in> processes nodeNumber c" "(i', j') \<in> processes nodeNumber c"
      and "gen_replicaId c i j = gen_replicaId c i' j'"
    with gen_replicaId_inj [of c i j i' j'] assms(2) show "i = i' \<and> j = j'"
      by (auto simp: processes_def)
  qed
  show "(\<lambda>(i, j). gen_replicaId c i j) ` processes nodeNumber c = {0..<TotalNodeNum nodeNumber c}"
    using gen_replicaId_range [OF assms] gen_replicaId_onto [OF assms(2)] by force
qed

theorem replica_ids_bijective_witness:
  "bij_betw (\<lambda>(i, j). gen_replicaId 2 i j) (processes 3 2) {0..<5}"
  using replica_ids_bijective [of 3 2] by (simp add: TotalNodeNum_def)

section \<open>Drawing the faulty nodes\<close>

definition draw :: "(nat \<Rightarrow> nat) \<Rightarrow> int \<Rightarrow> int \<Rightarrow> nat \<Rightarrow> int" where
  "draw rnd start stop k = int (rnd k) mod (stop - start) + start"

lemma draw_loop_returns:
  assumes "draw rnd start stop ` {..<k} \<subseteq> set nums" and "cnt \<le> card (draw rnd start stop ` {..<k + d})"
  shows "draw_loop rnd k start stop cnt nums \<noteq> None"
  using assms
proof (induction d arbitrary: k nums)
  case 0
  then have "card (draw rnd start stop ` {..<k}) \<le> card (set nums)" by (intro card_mono) auto
  with 0 card_length [of nums] show ?case by (subst draw_loop.simps) simp
next
  case (Suc d)
  let ?nums = "if draw rnd start stop k \<in> set nums then nums else nums @ [draw rnd start stop k]"
  have "draw_loop rnd (Suc k) start stop cnt ?nums \<noteq> None"
    by (rule Suc.IH) (use Suc.prems in \<open>auto simp: lessThan_Suc\<close>)
  then show ?case by (subst draw_loop.simps) (simp only: Let_def draw_def [symmetric] split: if_split, simp)
qed

text \<open>
  The choice of the faulty nodes ends as soon as the draws have shown enough different
  values, and gives the wanted number of different nodes of the interval.
\<close>

theorem generateRandomNumber_returns:
  assumes "start < stop" and "cnt \<le> stop - start"
    and "nat cnt \<le> card (draw rnd start stop ` {..<K})"
  shows "\<exists>ns. generateRandomNumber rnd start stop cnt = Some (Some ns) \<and>
    distinct ns \<and> set ns \<subseteq> {start..<stop} \<and> length ns = nat cnt"
proof -
  from draw_loop_returns [of rnd start stop 0 "[]" "nat cnt" K] assms(3)
  obtain ns where "draw_loop rnd 0 start stop (nat cnt) [] = Some ns" by auto
  with draw_loop_sound [OF this] assms(1,2) show ?thesis
    by (simp add: generateRandomNumber_def drawn_ok_def)
qed

theorem generateRandomNumber_returns_witness:
  "\<exists>ns. generateRandomNumber (\<lambda>k. k) 1 4 2 = Some (Some ns) \<and> distinct ns \<and> length ns = 2"
proof -
  have "draw (\<lambda>k. k) 1 4 ` {..<2} = {1, 2}" by (auto simp: draw_def numeral_2_eq_2 lessThan_Suc)
  with generateRandomNumber_returns [of 1 4 2 "\<lambda>k. k" 2] show ?thesis by auto
qed

section \<open>Votes and shares\<close>

text \<open>
  A replica recovers a slow-path certificate once it has \<open>2 * f + 1\<close> votes, with the \<open>f\<close>
  of \<open>NewNode\<close>; the key set config\_gen makes needs \<open>N - N / 3\<close> shares. The votes are too few
  for the key exactly in the clusters whose size leaves remainder 2 on division by 3.
\<close>

theorem votes_below_threshold_iff:
  "0 \<le> N \<Longrightarrow> 2 * faults_of N + 1 < numT N \<longleftrightarrow> N mod 3 = 2"
  unfolding faults_of_eq numT_def
  by (simp add: sdiv_nonneg) presburger

theorem votes_below_threshold_iff_witness:
  "2 * faults_of 5 + 1 < numT 5 \<and> \<not> 2 * faults_of 4 + 1 < numT 4"
  using votes_below_threshold_iff [of 5] votes_below_threshold_iff [of 4] by simp

end
