(* ===== verification/Batching.thy ===== *)
theory Batching
  imports Runs
begin

text \<open>
  Where a client's request goes: through the pool of the batch loop into the batches handed
  to the goroutines that propose them. A leader of an active view keeps every request, once
  and in order; any other node drops what it cuts off the pool.
\<close>

section \<open>Pending requests\<close>

fun proposed_by :: "task \<Rightarrow> Request option list" where
  "proposed_by (BroadcastPrePrepareTask batch err) = slice_of (Batch batch)"
| "proposed_by _ = []"

text \<open>The batches waiting to be proposed, in the order they were started, then the pool.\<close>

definition pending :: "Node \<Rightarrow> Request option list" where
  "pending n = concat (map proposed_by (gos n)) @ slice_of (batchStore n)"

definition leads :: "Node \<Rightarrow> bool" where
  "leads n \<longleftrightarrow> activeView n \<and> primary n (currenView n) = (Ret (replicaId (cfg n)) :: (Node, u32) go)"

text \<open>The request the loop makes up when the pool is empty.\<close>

definition filler :: "Request option" where
  "filler = Some \<lparr>Cmd = Some ''cmd''\<rparr>"

definition kept :: "Node \<Rightarrow> Request option list" where
  "kept n = filter (\<lambda>r. r \<noteq> filler) (pending n)"

definition request_of :: "gobytes \<Rightarrow> Request option" where
  "request_of cmd = Some \<lparr>Cmd = Some (''cmd'' @ bytes_of cmd)\<rparr>"

lemma ReceiveNewRequest_pending [simp]:
  "pending (fst (ReceiveNewRequest cmd n)) = pending n @ [request_of cmd]"
  "leads (fst (ReceiveNewRequest cmd n)) = leads n"
  by (simp_all add: ReceiveNewRequest_def pending_def request_of_def slice_append_def leads_def primary_def)

lemma ReceiveNewRequestForTest_pending [simp]:
  "pending (ReceiveNewRequestForTest k n) = pending n @ replicate k filler"
  "leads (ReceiveNewRequestForTest k n) = leads n"
  by (induction k arbitrary: n) (simp_all add: request_of_def filler_def replicate_append_same [symmetric])

lemma sendBatch_pending:
  assumes "leads n" and "sendBatch n = Ret n'"
  shows "pending n' = pending n" and "leads n'"
  using assms
  by (cases "batchStore n";
      auto simp: sendBatch_def leads_def pending_def spawn_def go_slice_to_def go_slice_from_def primary_def
        Let_def split: if_splits)+

text \<open>A full batch has the configured size, every batch at most that.\<close>

definition batches_bounded :: "Node \<Rightarrow> bool" where
  "batches_bounded n \<longleftrightarrow> (\<forall>t \<in> set (gos n). int (length (proposed_by t)) \<le> rh_BatchSize (cfg n))"

lemma bounded_frame [simp]:
  "batches_bounded (n\<lparr>batchStore := s\<rparr>) = batches_bounded n" "batches_bounded (n\<lparr>rh_Leader := l\<rparr>) = batches_bounded n"
  by (simp_all add: batches_bounded_def)

lemma bounded_spawn: "batches_bounded n \<Longrightarrow> int (length (slice_of (Batch b))) \<le> rh_BatchSize (cfg n) \<Longrightarrow>
    batches_bounded (spawn [BroadcastPrePrepareTask b err] n)"
  by (auto simp: batches_bounded_def spawn_def)

lemma bounded_calls [simp]:
  "batches_bounded (fst (ReceiveNewRequest cmd n)) = batches_bounded n"
  "batches_bounded (ReceiveNewRequestForTest k n) = batches_bounded n"
  by (simp add: ReceiveNewRequest_def) (induction k arbitrary: n; simp add: ReceiveNewRequest_def)

lemma slice_to_length: "length (slice_of (go_slice_to s k)) \<le> k"
  by (cases s) (simp_all add: go_slice_to_def)

lemma sendBatch_bounded:
  assumes "batches_bounded n" and "leads n" and "sendBatch n = Ret n'"
  shows "batches_bounded n'"
proof -
  have "int (length (slice_of (go_slice_to (batchStore n) (nat e)))) \<le> rh_BatchSize (cfg n)"
    if "0 \<le> e" "e \<le> rh_BatchSize (cfg n)" for e
    using slice_to_length [of "batchStore n" "nat e"] that by linarith
  with assms show ?thesis
    by (auto simp: sendBatch_def leads_def primary_def Let_def intro!: bounded_spawn split: if_splits)
qed

section \<open>Turns of the batch loop\<close>

lemma leads_leader [simp]: "leads (n\<lparr>rh_Leader := l\<rparr>) = leads n" "pending (n\<lparr>rh_Leader := l\<rparr>) = pending n"
  by (simp_all add: leads_def pending_def primary_def)

text \<open>What the loop keeps of a leader's state.\<close>

definition keeps_leading :: "nat \<Rightarrow> Node \<Rightarrow> Node \<Rightarrow> bool" where
  "keeps_leading k n n' \<longleftrightarrow> leads n' \<and> pending n' = pending n @ replicate k filler \<and>
     (batches_bounded n \<longrightarrow> batches_bounded n')"

lemma sendBatch_leading:
  assumes "leads n"
  shows "go_ok (\<lambda>s. False) (keeps_leading 0 n) (sendBatch n)"
proof (cases "sendBatch n")
  case (Ret m)
  with sendBatch_pending [OF assms Ret] sendBatch_bounded [OF _ assms Ret] show ?thesis
    by (simp add: keeps_leading_def)
next
  case (Block s)
  with assms show ?thesis by (auto simp: sendBatch_def leads_def primary_def Let_def split: if_splits)
qed simp

lemma batch_head_leading:
  assumes "leads n"
  shows "go_ok (\<lambda>s. False) (keeps_leading 0 n) (batch_head n)"
proof -
  let ?m = "n\<lparr>rh_Leader := gm_get0 [] (clusterAddr (cfg n)) (replicaId (cfg n))\<rparr>"
  have m: "leads ?m" "keeps_leading 0 n ?m" using assms by (simp_all add: keeps_leading_def)
  have "batch_head n = (if batch_len ?m \<ge> rh_BatchSize (cfg ?m) then sendBatch ?m else Ret ?m)"
    using assms by (simp add: batch_head_def leads_def Let_def)
  moreover have "go_ok (\<lambda>s. False) (keeps_leading 0 n) (sendBatch ?m)"
    by (rule go_ok_weaken [OF sendBatch_leading [OF m(1)]]) (simp_all add: keeps_leading_def)
  ultimately show ?thesis using m(2) by simp
qed

lemma batch_turn_leading:
  assumes "leads n"
  shows "go_ok (\<lambda>s. False) (\<lambda>m. \<exists>k. keeps_leading k n m) (batch_turn expired n)"
  unfolding batch_turn_def
proof (rule go_ok_bind [OF batch_head_leading [OF assms]])
  fix m assume m: "keeps_leading 0 n m"
  then have l: "leads m" by (simp add: keeps_leading_def)
  have "go_ok (\<lambda>s. False) (\<lambda>m. \<exists>k. keeps_leading k n m) (sendBatch m)"
    by (rule go_ok_weaken [OF sendBatch_leading [OF l]]) (use m in \<open>auto simp: keeps_leading_def\<close>)
  moreover have "\<exists>k. keeps_leading k n (ReceiveNewRequestForTest j m)" for j
    using m by (intro exI [of _ j]) (simp add: keeps_leading_def)
  ultimately show "go_ok (\<lambda>s. False) (\<lambda>m. \<exists>k. keeps_leading k n m)
      (if \<not> expired then Ret m
       else if batch_len m = 0
       then (if activeView m
             then go_bind (primary m (currenView m)) (\<lambda>leader.
                    Ret (if leader = replicaId (cfg m)
                         then ReceiveNewRequestForTest (nat (rh_BatchSize (cfg m))) m else m))
             else Ret m)
       else sendBatch m)"
    using l m by (auto simp: leads_def)
qed

section \<open>Runs of clients and batch turns\<close>

fun calls :: "event list \<Rightarrow> Request option list" where
  "calls [] = []"
| "calls (ClientCall cmd # es) = request_of cmd # calls es"
| "calls (_ # es) = calls es"

fun client_side :: "event \<Rightarrow> bool" where
  "client_side (ClientCall cmd) = True"
| "client_side (BatchTurn b) = True"
| "client_side _ = False"

lemma crashed_run: "run_events E (Crashed p) es \<noteq> Some (Running n)"
  by (cases es) auto

lemma leader_run:
  assumes "list_all client_side es" and "run_events E (Running n) es = Some (Running n')" and "leads n"
  shows "kept n' = kept n @ filter (\<lambda>r. r \<noteq> filler) (calls es) \<and> leads n' \<and>
    (batches_bounded n \<longrightarrow> batches_bounded n')"
  using assms
proof (induction es arbitrary: n)
  case (Cons e es)
  show ?case
  proof (cases e)
    case (ClientCall cmd)
    with Cons.prems(2) have "run_events E (Running (fst (ReceiveNewRequest cmd n))) es = Some (Running n')" by simp
    from Cons.IH [OF _ this] Cons.prems(1,3) ClientCall show ?thesis by (auto simp: kept_def)
  next
    case (BatchTurn b)
    note ok = batch_turn_leading [OF Cons.prems(3), of b]
    show ?thesis
    proof (cases "batch_turn b n")
      case (Ret m)
      with ok obtain k where k: "keeps_leading k n m" by auto
      then have "kept m = kept n" by (simp add: kept_def keeps_leading_def)
      moreover have "run_events E (Running m) es = Some (Running n')"
        using Cons.prems(2) Ret BatchTurn by (simp add: side_outcome_def)
      ultimately show ?thesis
        using Cons.IH [of m] Cons.prems(1) k BatchTurn by (auto simp: keeps_leading_def)
    qed (use ok Cons.prems(2) BatchTurn crashed_run in \<open>simp_all add: side_outcome_def\<close>)
  qed (use Cons.prems(1) in auto)
qed simp

text \<open>
  C31: while a node leads an active view, clients' calls and the turns of the batch loop, in any
  order, keep every request exactly once and in the order of the calls, in the batches handed
  to proposing goroutines followed by the pool; apart from them there are only the requests
  the loop makes up when the pool is empty, from which a call with an empty request cannot be told
  apart. No batch exceeds the configured size.
\<close>

theorem leader_keeps_requests:
  assumes "list_all client_side es" and "run_events E (Running n) es = Some (Running n')" and "leads n"
  shows "filter (\<lambda>r. r \<noteq> filler) (pending n') =
      filter (\<lambda>r. r \<noteq> filler) (pending n @ calls es) \<and> leads n' \<and>
    (batches_bounded n \<longrightarrow> batches_bounded n')"
  using leader_run [OF assms] by (simp add: kept_def)

lemma demo_client_run:
  "leads (started (demo_conf 1))"
  "case run_events demo_env (Running (started (demo_conf 1))) [ClientCall (Some ''x''), BatchTurn True, ClientCall (Some ''y'')] of
     Some (Running n) \<Rightarrow> True | _ \<Rightarrow> False"
  by code_simp+

theorem leader_keeps_requests_witness:
  "\<exists>n'. run_events demo_env (Running (started (demo_conf 1)))
      [ClientCall (Some ''x''), BatchTurn True, ClientCall (Some ''y'')] = Some (Running n') \<and>
    filter (\<lambda>r. r \<noteq> filler) (pending n') = [request_of (Some ''x''), request_of (Some ''y'')]"
proof -
  obtain n' where r: "run_events demo_env (Running (started (demo_conf 1)))
      [ClientCall (Some ''x''), BatchTurn True, ClientCall (Some ''y'')] = Some (Running n')"
    using demo_client_run(2) by (auto split: option.splits proc.splits)
  have "pending (started (demo_conf 1)) = []" by code_simp
  with leader_keeps_requests [OF _ r demo_client_run(1)] r show ?thesis
    by (auto simp: request_of_def filler_def)
qed

section \<open>Other nodes\<close>

text \<open>
  A node that does not lead an active view loses the requests it cuts off its pool: the
  client has been told the leader's name, but the request is not passed on.
\<close>

lemma follower_drops_batch:
  assumes "\<not> activeView n" and "0 \<le> rh_BatchSize (cfg n)" and "sendBatch n = Ret n'"
  shows "gos n' = gos n \<and> slice_of (batchStore n') =
    drop (nat (min (batch_len n) (rh_BatchSize (cfg n)))) (slice_of (batchStore n))"
  using assms
  by (cases "batchStore n") (auto simp: sendBatch_def Let_def go_slice_from_def min_def split: if_splits)

end
