(* ===== verification/Views.thy ===== *)
theory Views
  imports Watermarks Crashes NewPrimary
begin

text \<open>
  The stores of the view change: which messages a node keeps, that the quorum it counts is one
  of different replicas, and that a new view begins only with such a quorum or with the
  announcement of its primary.
\<close>

section \<open>The stored view-change messages\<close>

text \<open>Every message is stored under its own view and sender, once.\<close>

definition vcs_wf :: "(Vcidx, ViewChangeMsg) gomap \<Rightarrow> bool" where
  "vcs_wf store \<longleftrightarrow> gm_wf store \<and>
     (\<forall>(idx, vc) \<in> set store. idx = \<lparr>vci_View = vc_View vc, vci_ReplicaId = vc_ReplicaId vc\<rparr>)"

lemma vcs_wf_put: "vcs_wf store \<Longrightarrow>
    vcs_wf (gm_put \<lparr>vci_View = vc_View vc, vci_ReplicaId = vc_ReplicaId vc\<rparr> vc store)"
  using gm_put_set [of "\<lparr>vci_View = vc_View vc, vci_ReplicaId = vc_ReplicaId vc\<rparr>" vc store]
  unfolding vcs_wf_def by (fastforce intro: gm.wf_put)

definition keeps_vcs :: "Node \<Rightarrow> Node \<Rightarrow> bool" where
  "keeps_vcs n n' \<longleftrightarrow> (vcs_wf (viewChangeStore n) \<longrightarrow> vcs_wf (viewChangeStore n'))"

interpretation vcs: handler_rel keeps_vcs
  by unfold_locales
    (auto simp: keeps_vcs_def step_clock_def spawn_def add_trace_def init_partials_def Let_def vcs_wf_put)

lemma step_vcs:
  assumes "node_step E p e q" and "proc_node p = Some n" and "proc_node q = Some n'"
  shows "keeps_vcs n n'"
proof (cases "\<exists>m ck. e = Deliver m \<and> Command m = CheckpointM ck")
  case False
  then show ?thesis by (intro vcs.h_node_step [OF assms]) (auto simp: keeps_vcs_def receive_def)
next
  case True
  then obtain m ck where m: "e = Deliver m" "Command m = CheckpointM ck" by blast
  from assms(1,2) m(1) have "q = main_outcome (dispatch E ErrCh m n)"
    by (cases rule: node_step.cases) auto
  moreover have "go_rel keeps_vcs n (\<lambda>x. x) (dispatch E ErrCh m n)"
    unfolding dispatch_authentic m(2)
    by (simp add: keeps_vcs_def recvCheckpoint_def moveWatermarks_def admit_def receive_def Let_def)
  ultimately show ?thesis using assms(3) by (auto dest: vcs.h_outcome(1))
qed

lemma reachable_vcs:
  assumes "reachable E (started conf) p" and "proc_node p = Some n"
  shows "vcs_wf (viewChangeStore n)"
  using assms
proof (induction arbitrary: n rule: reachable.induct)
  case start
  then show ?case by (auto simp: started_def StartListen_def NewNode_def vcs_wf_def)
next
  case (step p e q)
  from step.hyps(2) obtain m where m: "proc_node p = Some m"
    by (cases rule: node_step.cases) auto
  from step_vcs [OF step.hyps(2) m step.prems] step.IH [OF m] show ?case by (simp add: keeps_vcs_def)
qed

text \<open>The replicas whose message for a view is stored.\<close>

definition vc_senders :: "(Vcidx, ViewChangeMsg) gomap \<Rightarrow> u32 \<Rightarrow> u32 set" where
  "vc_senders store v = {i. \<exists>vc. gm_get store \<lparr>vci_View = v, vci_ReplicaId = i\<rparr> = Some vc}"

lemma quorum_for_senders:
  assumes "vcs_wf store"
  shows "quorum_for v store = int (card (vc_senders store v))"
proof -
  let ?xs = "filter (\<lambda>(idx, vc). vci_View idx = v) store"
  have d: "distinct (map fst store)" using assms by (simp add: vcs_wf_def gm_wf_def)
  then have "distinct (map fst ?xs)" by (simp add: distinct_map_filter)
  moreover have "inj_on vci_ReplicaId (set (map fst ?xs))"
  proof (rule inj_onI)
    fix x y assume "x \<in> set (map fst ?xs)" "y \<in> set (map fst ?xs)" "vci_ReplicaId x = vci_ReplicaId y"
    then show "x = y" by (intro Vcidx.equality) auto
  qed
  moreover have "vc_senders store v = vci_ReplicaId ` set (map fst ?xs)"
  proof (rule set_eqI)
    fix i
    let ?key = "\<lparr>vci_View = v, vci_ReplicaId = i\<rparr>"
    have "i \<in> vc_senders store v \<longleftrightarrow> ?key \<in> fst ` set store"
      using map_of_eq_None_iff [of store ?key]
      by (cases "map_of store ?key") (auto simp: vc_senders_def gm_get_def)
    also have "\<dots> \<longleftrightarrow> ?key \<in> set (map fst ?xs)" by force
    also have "\<dots> \<longleftrightarrow> i \<in> vci_ReplicaId ` set (map fst ?xs)"
    proof
      assume "i \<in> vci_ReplicaId ` set (map fst ?xs)"
      then obtain x where x: "x \<in> set (map fst ?xs)" "i = vci_ReplicaId x" by blast
      then have "x = ?key" by (intro Vcidx.equality) auto
      with x(1) show "?key \<in> set (map fst ?xs)" by simp
    qed (rule rev_image_eqI, assumption, simp)
    finally show "i \<in> vc_senders store v \<longleftrightarrow> i \<in> vci_ReplicaId ` set (map fst ?xs)" .
  qed
  ultimately have "card (vc_senders store v) = length (map fst ?xs)"
    by (simp add: card_image distinct_card del: set_map)
  then show ?thesis by (simp add: quorum_for_def)
qed

text \<open>
  C19: in every reachable state the quorum a node counts for a view is the number of different
  replicas it stores a view-change message of for that view, and each of these messages
  names that view and that replica.
\<close>

theorem quorum_counts_replicas:
  assumes "reachable E (started conf) p" and "proc_node p = Some n"
  shows "quorum_for v (viewChangeStore n) = int (card (vc_senders (viewChangeStore n) v)) \<and>
    (\<forall>i vc. gm_get (viewChangeStore n) \<lparr>vci_View = v, vci_ReplicaId = i\<rparr> = Some vc \<longrightarrow>
       vc_View vc = v \<and> vc_ReplicaId vc = i)"
proof -
  from reachable_vcs [OF assms] have wf: "vcs_wf (viewChangeStore n)" .
  then have "vc_View vc = v \<and> vc_ReplicaId vc = i"
    if "gm_get (viewChangeStore n) \<lparr>vci_View = v, vci_ReplicaId = i\<rparr> = Some vc" for i vc
    using gm_getD [OF that] by (force simp: vcs_wf_def)
  with quorum_for_senders [OF wf] show ?thesis by blast
qed

definition demo_vc_event :: event where
  "demo_vc_event = deliver_signed (ViewChangeM (demo_vc (Some demo_proposal)))"

definition vc_run :: "proc option" where
  "vc_run = run_events demo_env (Running (started (demo_conf 1))) [demo_vc_event]"

lemma vc_run_result:
  "case vc_run of Some (Running n) \<Rightarrow> quorum_for 1 (viewChangeStore n) = 1 \<and> \<not> activeView n | _ \<Rightarrow> False"
  by code_simp

lemma vc_run_node:
  "reachable demo_env (started (demo_conf 1)) (Running (node_after vc_run))"
  "quorum_for 1 (viewChangeStore (node_after vc_run)) = 1"
proof -
  from vc_run_result obtain n where r: "vc_run = Some (Running n)" and q: "quorum_for 1 (viewChangeStore n) = 1"
    by (auto split: option.splits proc.splits)
  have n: "node_after vc_run = n" by (simp add: node_after_def r)
  show "reachable demo_env (started (demo_conf 1)) (Running (node_after vc_run))"
    unfolding n reachable_iff_run using r unfolding vc_run_def by blast
  from q show "quorum_for 1 (viewChangeStore (node_after vc_run)) = 1" by (simp add: n)
qed

theorem quorum_counts_replicas_witness:
  "quorum_for 1 (viewChangeStore (node_after vc_run)) = 1 \<and>
   card (vc_senders (viewChangeStore (node_after vc_run)) 1) = 1"
  using quorum_counts_replicas [OF vc_run_node(1), of "node_after vc_run" 1] vc_run_node(2) by simp

section \<open>Beginning a new view\<close>

definition same_views :: "Node \<Rightarrow> Node \<Rightarrow> bool" where
  "same_views n n' \<longleftrightarrow> cfg n' = cfg n \<and> viewChangeStore n' = viewChangeStore n \<and>
     newViewStore n' = newViewStore n"

lemma cert_views [simp]:
  "newViewStore (snd (getCert idx n)) = newViewStore n" "newViewStore (modCert idx g n) = newViewStore n"
  by (simp_all add: getCert_def modCert_def Let_def split: option.split)

interpretation views: normal_rel same_views
  by unfold_locales (auto simp: same_views_def step_clock_def spawn_def add_trace_def init_partials_def Let_def)

text \<open>At most the announcement of the view \<open>v\<close>, which had none, is added.\<close>

definition adds_view :: "u32 \<Rightarrow> u32 \<Rightarrow> Node \<Rightarrow> Node \<Rightarrow> bool" where
  "adds_view v i n n' \<longleftrightarrow> cfg n' = cfg n \<and> viewChangeStore n' = viewChangeStore n \<and>
     (newViewStore n' = newViewStore n \<or>
      (\<exists>nv. gm_get (newViewStore n) v = None \<and> nv_View nv = v \<and> nv_ReplicaId nv = i \<and>
         newViewStore n' = gm_put v nv (newViewStore n)))"

lemma adds_same: "same_views n n' \<Longrightarrow> adds_view v i n n'"
  by (simp add: adds_view_def same_views_def)

lemma adds_then_same: "adds_view v i n n1 \<Longrightarrow> same_views n1 n2 \<Longrightarrow> adds_view v i n n2"
  by (auto simp: adds_view_def same_views_def)

lemma go_adds_from:
  assumes "adds_view v i n n1" and "go_rel same_views n1 (\<lambda>x. x) m"
  shows "go_rel (adds_view v i) n (\<lambda>x. x) m"
  using assms(2) unfolding go_rel_def by (rule go_ok_weaken) (blast intro: adds_then_same [OF assms(1)])+

lemma broadcast_result:
  assumes "broadcast E m exc n = Ret (n', eo)"
  shows "eo = None" "currenView n' = currenView n" "same_views n n'"
  using broadcast_never_fails [OF assms] assms
  by (auto simp: broadcast_def go_bind_eq_Ret Let_def withholds_def step_clock_def spawn_def same_views_def
      split: prod.splits if_splits option.splits)

lemma adds_sendNewView:
  "go_rel (adds_view (currenView n) (replicaId (cfg n))) n (\<lambda>x. x) (sendNewView E err n)"
proof -
  let ?R = "adds_view (currenView n) (replicaId (cfg n))" and ?n = "step_clock n"
  have n: "same_views n ?n" by (rule views.clock)
  have put: "go_rel ?R n (\<lambda>x. x) (processNewView E err
      (x\<lparr>newViewStore := gm_put (currenView x) nv (newViewStore x), newViewStage := gm_put (currenView x) True (newViewStage x)\<rparr>))"
    if "same_views n x" "currenView x = currenView n" "gm_get (newViewStore n) (currenView n) = None"
      "nv_View nv = currenView n" "nv_ReplicaId nv = replicaId (cfg n)" for x nv
    by (rule go_adds_from [OF _ views.h_processNewView]) (use that in \<open>auto simp: adds_view_def same_views_def\<close>)
  have announce: "go_rel ?R n (\<lambda>x. x) (go_bind (broadcast E (NewViewM nv) exc ?n) (\<lambda>r. go_bind (report err r) (\<lambda>n.
      processNewView E err (n\<lparr>newViewStore := gm_put (currenView n) nv (newViewStore n),
        newViewStage := gm_put (currenView n) True (newViewStage n)\<rparr>))))"
    if "gm_get (newViewStore n) (currenView n) = None"
      "nv_View nv = currenView n" "nv_ReplicaId nv = replicaId (cfg n)" for nv exc
  proof (cases "broadcast E (NewViewM nv) exc ?n")
    case (Ret r)
    obtain x eo where r: "r = (x, eo)" by fastforce
    note b = broadcast_result [of E "NewViewM nv" exc ?n x eo]
    have "same_views n x" using views.R_trans [OF n] b Ret r by blast
    moreover have "currenView x = currenView n" using b Ret r by (simp add: step_clock_def)
    ultimately show ?thesis using put that b(1) Ret r by (simp add: report_def)
  next
    case (Block s)
    with views.broadcasting [of ?n E "NewViewM nv" exc] views.R_trans [OF n] show ?thesis
      by (auto simp: go_rel_def adds_same)
  qed (simp add: go_rel_def)
  have assign: "go_rel ?R n (\<lambda>x. x) (go_bind (assignSequenceNumbers ?n vset sn) k)"
    if "\<And>r. go_rel ?R n (\<lambda>x. x) (k r)" for vset sn k
    using that adds_same [OF n]
    by (auto simp: assignSequenceNumbers_def Let_def go_rel_def split: option.split sum.split prod.split)
  have stay: "go_rel ?R n (\<lambda>x. x) (Ret n)" "go_rel ?R n (\<lambda>x. x) (Ret ?n)"
    using adds_same [OF n] adds_same [OF views.R_refl] by (simp_all add: go_rel_def)
  show ?thesis
  proof (cases "gm_get (newViewStore n) (currenView n)")
    case None
    have cv: "currenView ?n = currenView n" "cfg ?n = cfg n" by (simp_all add: step_clock_def)
    show ?thesis
      unfolding sendNewView_def Let_def cv
      by (auto simp: None case_prod_unfold stay adds_same [OF n] simp del: go_bind.simps
        intro!: assign announce [OF None])
  qed (simp add: sendNewView_def stay adds_same [OF views.R_refl])
qed

text \<open>
  How the stores may change in one step of a process: nothing but the view-change messages; an
  announcement by the primary of its view, received authentically; or this node's own, as
  the primary of the view with a quorum of stored messages.
\<close>

definition announced_by :: "Node \<Rightarrow> u32 \<Rightarrow> u32 \<Rightarrow> bool" where
  "announced_by n v i \<longleftrightarrow> primary n v = (Ret i :: (Node, u32) go)"

definition view_step :: "u32 \<Rightarrow> Node \<Rightarrow> Node \<Rightarrow> bool" where
  "view_step v n n' \<longleftrightarrow> cfg n' = cfg n \<and>
     (newViewStore n' = newViewStore n \<or>
      (\<exists>nv. gm_get (newViewStore n) v = None \<and> announced_by n v (replicaId (cfg n)) \<and>
         newViewStore n' = gm_put v nv (newViewStore n) \<and>
         viewChangeQuorum (cfg n) \<le> quorum_for v (viewChangeStore n')))"

definition accepts_view :: "NewViewMsg \<Rightarrow> Node \<Rightarrow> Node \<Rightarrow> bool" where
  "accepts_view nv n n' \<longleftrightarrow>
     newViewStore n' = newViewStore n \<or>
     (gm_get (newViewStore n) (nv_View nv) = None \<and> announced_by n (nv_View nv) (nv_ReplicaId nv) \<and>
      newViewStore n' = gm_put (nv_View nv) nv (newViewStore n))"

lemma primary_cfg: "cfg n' = cfg n \<Longrightarrow> primary n' v = primary n v"
  by (simp add: primary_def)

lemma recvNewView_step: "go_rel (accepts_view nv) n (\<lambda>x. x) (recvNewView E nv err n)"
proof (cases "primary n (nv_View nv) :: (Node, u32) go")
  case (Ret leader)
  let ?n = "n\<lparr>newViewStore := gm_put (nv_View nv) nv (newViewStore n)\<rparr>"
  have "go_rel (accepts_view nv) n (\<lambda>x. x) (processNewView E err ?n)"
    if "leader = nv_ReplicaId nv" "gm_get (newViewStore n) (nv_View nv) = None"
    using views.h_processNewView [of ?n E err] unfolding go_rel_def
    by (rule go_ok_weaken) (use that Ret in \<open>auto simp: accepts_view_def same_views_def announced_by_def\<close>)
  then show ?thesis by (auto simp: recvNewView_def Ret go_rel_def accepts_view_def)
qed (auto simp: recvNewView_def go_rel_def accepts_view_def primary_def Let_def split: if_splits)

lemma sendNewView_step:
  assumes "announced_by n (currenView n) (replicaId (cfg n))"
    and "viewChangeQuorum (cfg n) \<le> quorum_for (currenView n) (viewChangeStore n)"
  shows "go_rel (view_step (currenView n)) n (\<lambda>x. x) (sendNewView E err n)"
  using adds_sendNewView [of n E err] unfolding go_rel_def
  by (rule go_ok_weaken) (use assms in \<open>auto simp: view_step_def adds_view_def\<close>)

lemma view_step_from:
  assumes "cfg x = cfg n" and "newViewStore x = newViewStore n" and "go_rel (view_step v) x (\<lambda>x. x) m"
  shows "go_rel (view_step v) n (\<lambda>x. x) m"
  using assms(3) unfolding go_rel_def
  by (rule go_ok_weaken)
    (auto simp: view_step_def announced_by_def assms(1,2) primary_cfg [OF assms(1)])

lemma view_step_refl: "cfg x = cfg n \<Longrightarrow> newViewStore x = newViewStore n \<Longrightarrow> view_step v n x"
  by (simp add: view_step_def)

lemma recvViewChange_step: "go_rel (view_step (vc_View vc)) n (\<lambda>x. x) (recvViewChange E vc err n)"
proof (cases "vc_View vc < currenView n")
  case True
  then show ?thesis by (simp add: recvViewChange_def go_rel_def view_step_refl)
next
  case False
  let ?n = "step_clock (step_clock n)"
  let ?idx = "\<lparr>vci_View = vc_View vc, vci_ReplicaId = vc_ReplicaId vc\<rparr>"
  let ?m = "?n\<lparr>viewChangeStore := gm_put ?idx vc (viewChangeStore ?n)\<rparr>"
  let ?R = "view_step (vc_View vc)"
  have n: "cfg ?n = cfg n" "newViewStore ?n = newViewStore n" by (simp_all add: step_clock_def)
  obtain replicas minView where l: "later_views (currenView ?m) (viewChangeStore ?m) = (replicas, minView)"
    by fastforce
  have join: "go_rel same_views ?m (\<lambda>x. x) (if b then sendViewChange E err (?m\<lparr>currenView := v\<rparr>) else Ret ?m)" for b v
    using views.from_node [OF views.R_currenView views.leaving_view] by (simp add: views.R_refl)
  let ?last = "\<lambda>n. if \<not> activeView n \<and> vc_View vc = currenView n \<and>
           quorum_for (currenView n) (viewChangeStore n) \<ge> viewChangeQuorum (cfg n)
        then go_bind (primary n (vc_View vc)) (\<lambda>leader.
          if leader = replicaId (cfg n) then sendNewView E err n else Ret n)
        else Ret n"
  have last: "go_rel ?R x (\<lambda>x. x) (?last x)" for x
  proof (cases "primary x (vc_View vc) :: (Node, u32) go")
    case (Ret leader)
    with sendNewView_step [of x E err] show ?thesis
      by (auto simp: announced_by_def view_step_refl go_rel_def)
  qed (auto simp: go_rel_def view_step_refl primary_def Let_def split: if_splits)
  have "go_rel ?R n (\<lambda>x. x) (go_bind (if int (length replicas) \<ge> n_f (cfg ?m) + 1
          then sendViewChange E err (?m\<lparr>currenView := minView - 1\<rparr>) else Ret ?m) ?last)" (is "go_rel ?R n _ (go_bind ?join _)")
  proof (cases ?join)
    case (Ret x)
    from go_rel_RetD [OF join Ret] n have "cfg x = cfg n" "newViewStore x = newViewStore n"
      by (simp_all add: same_views_def)
    from view_step_from [OF this last] Ret show ?thesis by simp
  next
    case (Block x)
    with join [of "int (length replicas) \<ge> n_f (cfg ?m) + 1" "minView - 1"] have "same_views ?m x"
      by (simp add: go_rel_def)
    with n Block show ?thesis by (simp add: go_rel_def view_step_refl same_views_def)
  qed (simp add: go_rel_def)
  with False l n show ?thesis
    unfolding recvViewChange_def
    by (auto simp: Let_def view_step_refl simp del: go_bind.simps intro!: go_rel_read)
qed

text \<open>A delivery that leaves a node behind was authentic, and is the handler's work.\<close>

lemma deliver_handled:
  assumes "node_step E p (Deliver m) q" and "proc_node p = Some n" and "proc_node q = Some n'"
  shows "authentic E n m"
    and "go_rel R n (\<lambda>x. x) (handle E ErrCh (Command m) (admit (Command m) n)) \<Longrightarrow> R n n'"
proof -
  from assms(1,2) have q: "q = main_outcome (dispatch E ErrCh m n)"
    by (cases rule: node_step.cases) auto
  with assms(3) show "authentic E n m"
    by (auto simp: dispatch_authentic main_outcome_def split: if_splits)
  with q assms(3) show "go_rel R n (\<lambda>x. x) (handle E ErrCh (Command m) (admit (Command m) n)) \<Longrightarrow> R n n'"
    by (auto simp: dispatch_authentic main_outcome_def go_rel_def split: go.splits)
qed

lemma admit_views: "cfg (admit m n) = cfg n" "newViewStore (admit m n) = newViewStore n"
  "viewChangeStore (admit m n) = viewChangeStore n"
  by (auto simp: admit_def receive_def split: option.split)

lemma viewChange_delivery:
  assumes "node_step E p (Deliver m) q" and "proc_node p = Some n" and "proc_node q = Some n'"
    and "Command m = ViewChangeM vc"
  shows "view_step (vc_View vc) n n'"
  by (rule deliver_handled(2) [OF assms(1-3)])
    (simp add: assms(4) view_step_from [OF admit_views(1,2) recvViewChange_step])

lemma newView_delivery:
  assumes "node_step E p (Deliver m) q" and "proc_node p = Some n" and "proc_node q = Some n'"
    and "Command m = NewViewM nv"
  shows "accepts_view nv n n'"
proof (rule deliver_handled(2) [OF assms(1-3)])
  let ?n = "admit (Command m) n"
  have "go_rel (accepts_view nv) n (\<lambda>x. x) (recvNewView E nv ErrCh ?n)"
    using recvNewView_step [of nv ?n E ErrCh] unfolding go_rel_def
    by (rule go_ok_weaken)
      (auto simp: accepts_view_def announced_by_def admit_views primary_cfg [OF admit_views(1)])
  then show "go_rel (accepts_view nv) n (\<lambda>x. x) (handle E ErrCh (Command m) ?n)" by (simp add: assms(4))
qed

lemma recvCheckpoint_views: "newViewStore (recvCheckpoint ck err (receive m n)) = newViewStore n"
  by (simp add: recvCheckpoint_def moveWatermarks_def receive_def Let_def)

text \<open>No other delivery, and nothing but a delivery, touches the announcements.\<close>

lemma other_step_views:
  assumes "node_step E p e q" and "proc_node p = Some n" and "proc_node q = Some n'"
    and "newViewStore n' \<noteq> newViewStore n"
  obtains m where "e = Deliver m"
    and "(\<exists>vc. Command m = ViewChangeM vc) \<or> (\<exists>nv. Command m = NewViewM nv) \<or> Command m = ViewChangeQuorumM"
proof -
  obtain m where m: "e = Deliver m"
    using views.h_quiet_step [OF assms(1-3)] assms(4) by (auto simp: same_views_def)
  from assms(1,2) m have q: "q = main_outcome (dispatch E ErrCh m n)"
    by (cases rule: node_step.cases) auto
  have "\<not> normal_message (Command m)"
    using views.h_outcome(1) [OF views.h_normal_dispatch, of m n E ErrCh n'] q assms(3,4)
    by (auto simp: same_views_def receive_def)
  moreover have "Command m \<noteq> CheckpointM ck" for ck
    using step_checkpoint [OF assms(1) [unfolded m] assms(2,3)] assms(4) recvCheckpoint_views by auto
  moreover have "Command m \<noteq> ViewChangeTimerM"
    using deliver_handled(2) [OF assms(1) [unfolded m] assms(2,3), of same_views]
      views.from_node [OF _ views.leaving_view, of n "admit ViewChangeTimerM n" E ErrCh] assms(4)
    by (auto simp: same_views_def admit_views)
  ultimately show thesis using that [OF m] by (cases "Command m") auto
qed

text \<open>
  A message that says a quorum of view changes is there starts the announcing of a view
  by its primary, with no look at the quorum.
\<close>

definition begins_view :: "Node \<Rightarrow> Node \<Rightarrow> bool" where
  "begins_view n n' \<longleftrightarrow>
     newViewStore n' = newViewStore n \<or>
     (announced_by n (currenView n) (replicaId (cfg n)) \<and> gm_get (newViewStore n) (currenView n) = None \<and>
      (\<exists>nv. newViewStore n' = gm_put (currenView n) nv (newViewStore n)))"

lemma quorum_delivery:
  assumes "node_step E p (Deliver m) q" and "proc_node p = Some n" and "proc_node q = Some n'"
    and "Command m = ViewChangeQuorumM"
  shows "begins_view n n'"
proof (rule deliver_handled(2) [OF assms(1-3)])
  have admit: "admit ViewChangeQuorumM n = n" by (simp add: admit_def)
  have stay: "begins_view n n" by (simp add: begins_view_def)
  have "go_rel begins_view n (\<lambda>x. x) (handle E ErrCh ViewChangeQuorumM n)"
  proof (cases "primary n (currenView n) :: (Node, u32) go")
    case (Ret leader)
    have "go_rel begins_view n (\<lambda>x. x) (sendNewView E ErrCh n)" if "leader = replicaId (cfg n)"
      using adds_sendNewView [of n E ErrCh] unfolding go_rel_def
      by (rule go_ok_weaken) (use that Ret in \<open>auto simp: begins_view_def adds_view_def announced_by_def\<close>)
    with Ret stay show ?thesis by (simp add: go_rel_def)
  qed (auto simp: primary_def Let_def go_rel_def stay split: if_splits)
  then show "go_rel begins_view n (\<lambda>x. x) (handle E ErrCh (Command m) (admit (Command m) n))"
    by (simp add: assms(4) admit)
qed

text \<open>
  C17: a node takes a new-view message into account only in these three ways, at most once for a
  view: the message arrives signed by the view's primary; or the node is that primary
  itself and stores view-change messages of at least the configured quorum of different
  replicas for the view; or the node is that primary, in the view already, and the transport
  hands it the message that such a quorum is there, which nobody signs and nothing checks.
\<close>

theorem new_view_needs_quorum:
  assumes "reachable E (started conf) p" and "node_step E p e q"
    and "proc_node p = Some n" and "proc_node q = Some n'"
    and "gm_get (newViewStore n') v \<noteq> gm_get (newViewStore n) v"
  shows "gm_get (newViewStore n) v = None \<and>
    ((\<exists>nv sg. e = Deliver \<lparr>Command = NewViewM nv, Sig = sg\<rparr> \<and>
        authentic E n \<lparr>Command = NewViewM nv, Sig = sg\<rparr> \<and> nv_View nv = v \<and> announced_by n v (nv_ReplicaId nv)) \<or>
     (announced_by n v (replicaId (cfg n)) \<and>
      viewChangeQuorum (cfg n) \<le> int (card (vc_senders (viewChangeStore n') v))) \<or>
     (announced_by n v (replicaId (cfg n)) \<and> v = currenView n \<and>
      (\<exists>sg. e = Deliver \<lparr>Command = ViewChangeQuorumM, Sig = sg\<rparr>)))"
proof -
  have store: "vcs_wf (viewChangeStore n')"
    by (rule reachable_vcs [OF reachable.step [OF assms(1,2)] assms(4)])
  from assms(5) have changed: "newViewStore n' \<noteq> newViewStore n" by auto
  with assms(2-4) obtain m where m: "e = Deliver m" and kind: "(\<exists>vc. Command m = ViewChangeM vc) \<or>
      (\<exists>nv. Command m = NewViewM nv) \<or> Command m = ViewChangeQuorumM" by (rule other_step_views)
  note step = assms(2) [unfolded m] assms(3,4)
  from kind consider vc where "Command m = ViewChangeM vc" | nv where "Command m = NewViewM nv"
    | "Command m = ViewChangeQuorumM" by auto
  then show ?thesis
  proof cases
    case (1 vc)
    from viewChange_delivery [OF step 1] assms(5) changed store show ?thesis
      by (auto simp: view_step_def gm_get_put quorum_for_senders split: if_splits)
  next
    case (2 nv)
    moreover obtain sg where "m = \<lparr>Command = NewViewM nv, Sig = sg\<rparr>" using 2 by (cases m) simp
    ultimately show ?thesis
      using newView_delivery [OF step 2] deliver_handled(1) [OF step] assms(5) changed m
      by (auto simp: accepts_view_def gm_get_put split: if_splits)
  next
    case 3
    moreover obtain sg where "m = \<lparr>Command = ViewChangeQuorumM, Sig = sg\<rparr>" using 3 by (cases m) simp
    ultimately show ?thesis
      using quorum_delivery [OF step 3] assms(5) changed m
      by (auto simp: begins_view_def gm_get_put split: if_splits)
  qed
qed

definition demo_newView :: NewViewMsg where
  "demo_newView = \<lparr>nv_View = 1, nv_Vset = None, nv_Oset = [], nv_ReplicaId = 0\<rparr>"

definition nv_event :: event where
  "nv_event = deliver_signed (NewViewM demo_newView)"

lemma nv_run:
  "case proc_next demo_env (Running (started (demo_conf 1))) nv_event of
     Some (Running n) \<Rightarrow> gm_get (newViewStore n) 1 = Some demo_newView | _ \<Rightarrow> False"
  "newViewStore (started (demo_conf 1)) = []"
  by code_simp+

theorem new_view_needs_quorum_witness:
  "gm_get (newViewStore (started (demo_conf 1))) 1 = None \<and> announced_by (started (demo_conf 1)) 1 0"
proof -
  let ?n = "started (demo_conf 1)"
  from nv_run(1) obtain n' where n': "proc_next demo_env (Running ?n) nv_event = Some (Running n')"
    "gm_get (newViewStore n') 1 = Some demo_newView" by (auto split: option.splits proc.splits)
  have "replicaId (cfg ?n) = 0" by code_simp
  with new_view_needs_quorum [OF reachable.start n'(1) [folded node_step_iff], of ?n n' 1] n'(2)
  show ?thesis by (auto simp: nv_run(2) nv_event_def demo_newView_def gm_get_def)
qed

end
