(* ===== verification/Numbering.thy ===== *)
theory Numbering
  imports Watermarks
begin

text \<open>
  The numbers a replica gives to its proposals. \<open>nextSN\<close> only grows while the window does not
  reach the end of the 32-bit numbers, also when a new view resets it to the number after the
  window, so a replica never proposes two batches under one number. The invariant is carried by
  the frame of theory \<open>Handlers\<close>, whose laws for proposing and for entering a view it uses.
\<close>

section \<open>The proposals of a log\<close>

fun proposals :: "log_event list \<Rightarrow> PrePrepareMsg list" where
  "proposals [] = []"
| "proposals (Proposed p # es) = p # proposals es"
| "proposals (_ # es) = proposals es"

lemma proposals_append [simp]: "proposals (xs @ ys) = proposals xs @ proposals ys"
  by (induction xs rule: proposals.induct) auto

lemma in_proposals_iff: "p \<in> set (proposals es) \<longleftrightarrow> Proposed p \<in> set es"
  by (induction es rule: proposals.induct) auto

lemma proposals_other [simp]: "(\<And>p. e \<noteq> Proposed p) \<Longrightarrow> proposals [e] = []"
  by (cases e) auto

section \<open>The invariant\<close>

text \<open>No number of the window, nor the one after it, wraps around.\<close>

definition roomy :: "Node \<Rightarrow> bool" where
  "roomy n \<longleftrightarrow> uint (low_h n) + uint (n_K (cfg n)) + 1 < 2 ^ 32"

definition numbered :: "Node \<Rightarrow> bool" where
  "numbered n \<longleftrightarrow>
     distinct (map ppm_SN (proposals (trace n))) \<and>
     (\<forall>p \<in> set (proposals (trace n)). ppm_SN p < nextSN n \<and> ppm_ReplicaId p = replicaId (cfg n)) \<and>
     uint (nextSN n) \<le> uint (low_h n) + uint (n_K (cfg n)) + 1"

definition keeps_numbers :: "Node \<Rightarrow> Node \<Rightarrow> bool" where
  "keeps_numbers n n' \<longleftrightarrow> cfg n' = cfg n \<and> low_h n' = low_h n \<and> (roomy n \<longrightarrow> numbered n \<longrightarrow> numbered n')"

lemma window_nextSN:
  assumes "roomy n" and "inWatermarks n (nextSN n)"
  shows "nextSN n < nextSN n + 1" and "uint (nextSN n + 1) \<le> uint (low_h n) + uint (n_K (cfg n)) + 1"
proof -
  from assms(1) have room: "uint (low_h n) + uint (n_K (cfg n)) + 1 < 2 ^ 32" by (simp add: roomy_def)
  then have k: "uint (low_h n + n_K (cfg n)) = uint (low_h n) + uint (n_K (cfg n))" by (simp add: uint_plus_if')
  from window_iff [of "low_h n" "n_K (cfg n)"] room assms(2)
  have "nextSN n \<le> low_h n + n_K (cfg n)" by (simp add: inWatermarks_def)
  then have le: "uint (nextSN n) \<le> uint (low_h n) + uint (n_K (cfg n))" by (simp add: word_le_def k)
  then have s: "uint (nextSN n + 1) = uint (nextSN n) + 1" using room by (simp add: uint_plus_if')
  from s show "nextSN n < nextSN n + 1" by (simp add: word_less_def)
  from s le show "uint (nextSN n + 1) \<le> uint (low_h n) + uint (n_K (cfg n)) + 1" by simp
qed

lemma numbered_propose:
  assumes "roomy n" and "numbered n" and "inWatermarks n (nextSN n)"
    and "ppm_SN p = nextSN n" and "ppm_ReplicaId p = replicaId (cfg n)"
  shows "numbered (add_trace (Proposed p) (n\<lparr>nextSN := nextSN n + 1\<rparr>))"
proof -
  note w = window_nextSN [OF assms(1,3)]
  have "ppm_SN q < nextSN n + 1" if "q \<in> set (proposals (trace n))" for q
    using assms(2) that w(1) by (auto simp: numbered_def intro: less_trans)
  moreover have "nextSN n \<notin> ppm_SN ` set (proposals (trace n))"
    using assms(2) by (auto simp: numbered_def)
  ultimately show ?thesis
    using assms(2,4,5) w by (auto simp: numbered_def add_trace_def)
qed

lemma numbered_enter:
  assumes "roomy n" and "numbered n"
  shows "numbered (n\<lparr>activeView := True, nextSN := low_h n + n_K (cfg n) + 1\<rparr>)"
proof -
  from assms(1) have "uint (low_h n + n_K (cfg n) + 1) = uint (low_h n) + uint (n_K (cfg n)) + 1"
    by (simp add: roomy_def uint_plus_if')
  moreover from this assms(2) have "nextSN n \<le> low_h n + n_K (cfg n) + 1"
    by (simp add: numbered_def word_le_def)
  ultimately show ?thesis
    using assms(2) by (auto simp: numbered_def intro: less_le_trans)
qed

lemma cert_numbers [simp]:
  "trace (snd (getCert idx n)) = trace n" "trace (modCert idx g n) = trace n"
  "nextSN (snd (getCert idx n)) = nextSN n" "nextSN (modCert idx g n) = nextSN n"
  by (simp_all add: getCert_def modCert_def Let_def split: option.split)

lemma keeps_numbers_frame:
  assumes "cfg n' = cfg n" and "low_h n' = low_h n" and "nextSN n' = nextSN n"
    and "proposals (trace n') = proposals (trace n)"
  shows "keeps_numbers n n'"
  using assms by (simp add: keeps_numbers_def numbered_def)

lemma keeps_numbers_trans: "keeps_numbers a b \<Longrightarrow> keeps_numbers b c \<Longrightarrow> keeps_numbers a c"
  by (auto simp: keeps_numbers_def roomy_def)

lemma keeps_numbers_trace: "(\<And>p. e \<noteq> Proposed p) \<Longrightarrow> keeps_numbers n (add_trace e n)"
  by (intro keeps_numbers_frame) (simp_all add: add_trace_def)

lemma keeps_numbers_propose:
  assumes "inWatermarks n (nextSN n)" "ppm_SN p = nextSN n" "ppm_ReplicaId p = replicaId (cfg n)"
  shows "keeps_numbers n (add_trace (Proposed p) (n\<lparr>nextSN := nextSN n + 1\<rparr>))"
  using numbered_propose [OF _ _ assms] by (simp add: keeps_numbers_def) (simp add: add_trace_def)

lemma keeps_numbers_enter:
  "keeps_numbers n (n\<lparr>activeView := True, nextSN := low_h n + n_K (cfg n) + 1\<rparr>)"
  using numbered_enter [of n] by (simp add: keeps_numbers_def)

interpretation numbers: handler_rel keeps_numbers
  by unfold_locales
    (erule (1) keeps_numbers_trans | erule (2) keeps_numbers_propose | rule keeps_numbers_enter |
     erule keeps_numbers_trace | (rule keeps_numbers_frame; simp add: init_partials_def Let_def))+

section \<open>Steps and runs\<close>

lemma numbered_moved:
  assumes "numbered n" and "low_h n \<le> low_h n'" and "cfg n' = cfg n" and "nextSN n' = nextSN n"
    and "trace n' = trace n"
  shows "numbered n'"
  using assms by (simp add: numbered_def word_le_def)

lemma step_numbered:
  assumes "reachable E (started conf) p" and "node_step E p e q"
    and "proc_node p = Some n" and "proc_node q = Some n'" and "roomy n" and "numbered n"
  shows "numbered n'"
proof (cases "\<exists>m ck. e = Deliver m \<and> Command m = CheckpointM ck")
  case False
  then have "keeps_numbers n n'"
    by (intro numbers.h_node_step [OF assms(2-4)]) (auto intro: keeps_numbers_frame simp: receive_def)
  with assms(5,6) show ?thesis by (simp add: keeps_numbers_def)
next
  case True
  with step_checkpoint [OF _ assms(3,4)] assms(2) obtain ck where n': "n' = recvCheckpoint ck ErrCh (receive (CheckpointM ck) n)" by blast
  have "uint (low_h n) + uint (n_K (cfg n)) < 2 ^ 32" using assms(5) by (simp add: roomy_def)
  from low_mark_forward [OF assms(1-4) this] have "low_h n \<le> low_h n'" by blast
  with assms(6) show ?thesis
    by (rule numbered_moved) (simp_all add: n' recvCheckpoint_def moveWatermarks_def receive_def Let_def)
qed

text \<open>A run every state of which, while the process has one, satisfies a condition.\<close>

inductive run_within :: "(Node \<Rightarrow> bool) \<Rightarrow> env \<Rightarrow> Node \<Rightarrow> proc \<Rightarrow> bool" for I E n0 where
  start: "I n0 \<Longrightarrow> run_within I E n0 (Running n0)"
| step: "run_within I E n0 p \<Longrightarrow> node_step E p e q \<Longrightarrow> proc_ok I q \<Longrightarrow> run_within I E n0 q"

lemma run_within_reachable: "run_within I E n0 p \<Longrightarrow> reachable E n0 p"
  by (induction rule: run_within.induct) (auto intro: reachable.intros)

lemma run_within_ok: "run_within I E n0 p \<Longrightarrow> proc_ok I p"
  by (cases rule: run_within.cases) auto

lemma started_numbers: "trace (started conf) = []" "nextSN (started conf) = 1"
  by (simp_all add: started_def StartListen_def NewNode_def)

lemma run_within_numbered:
  assumes "run_within roomy E (started conf) p" and "proc_node p = Some n"
  shows "numbered n"
  using assms
proof (induction arbitrary: n rule: run_within.induct)
  case start
  then show ?case by (auto simp: numbered_def started_numbers)
next
  case (step p e q)
  from step.hyps(2) obtain m where p: "proc_node p = Some m" by (cases rule: node_step.cases) auto
  have "roomy m" using run_within_ok [OF step.hyps(1)] p by (simp add: proc_ok_node)
  from step_numbered [OF run_within_reachable [OF step.hyps(1)] step.hyps(2) p step.prems this step.IH [OF p]]
  show ?case .
qed

text \<open>
  C16: as long as its window has not come to the end of the 32-bit numbers, a replica has never
  given one number to two proposals, whatever views it has led and entered, and every number
  it has used is below the next one, which is at most one above the window.
\<close>

theorem proposals_numbered:
  assumes "run_within roomy E (started conf) p" and "proc_node p = Some n"
    and "Proposed a \<in> set (trace n)" and "Proposed b \<in> set (trace n)"
  shows "(ppm_SN a = ppm_SN b \<longrightarrow> a = b) \<and> ppm_SN a < nextSN n \<and> nextSN n \<le> low_h n + n_K (cfg n) + 1 \<and>
    ppm_ReplicaId a = replicaId (cfg n)"
proof -
  from run_within_ok [OF assms(1)] assms(2) have "roomy n" by (simp add: proc_ok_node)
  then have "uint (low_h n + n_K (cfg n) + 1) = uint (low_h n) + uint (n_K (cfg n)) + 1"
    by (simp add: roomy_def uint_plus_if')
  with run_within_numbered [OF assms(1,2)] assms(3,4) show ?thesis
    by (auto simp: numbered_def word_le_def in_proposals_iff distinct_map dest: inj_onD)
qed

text \<open>Runs given by their events.\<close>

fun stays_within :: "(Node \<Rightarrow> bool) \<Rightarrow> env \<Rightarrow> proc \<Rightarrow> event list \<Rightarrow> bool" where
  "stays_within I E p [] = True"
| "stays_within I E p (e # es) =
     (case proc_next E p e of None \<Rightarrow> True | Some q \<Rightarrow> proc_ok I q \<and> stays_within I E q es)"

lemma run_within_events:
  "run_within I E n0 p \<Longrightarrow> stays_within I E p es \<Longrightarrow> run_events E p es = Some q \<Longrightarrow> run_within I E n0 q"
  by (induction es arbitrary: p)
    (auto split: option.splits dest: run_within.step [OF _ node_step_iff [THEN iffD2]])

lemma fast_run_roomy: "run_within roomy demo_env (started (demo_conf 1)) (Running (node_after fast_run))"
proof -
  have "stays_within roomy demo_env (Running (started (demo_conf 1))) fast_events" "roomy (started (demo_conf 1))"
    by code_simp+
  with fast_run_result show ?thesis
    by (auto simp: node_after_def fast_run_def intro: run_within_events [OF run_within.start]
      split: option.splits proc.splits)
qed

theorem proposals_numbered_witness:
  "1 < nextSN (node_after fast_run)"
  using proposals_numbered [OF fast_run_roomy, of "node_after fast_run" demo_proposal demo_proposal]
  by (simp add: fast_run_trace) (simp add: demo_proposal_def)

end
