(* ===== verification/Proposing.thy ===== *)
theory Proposing
  imports Views Batching Numbering
begin

text \<open>
  What a leader does with a batch, around a new view: which number it proposes, that it
  proposes nothing after entering the view for as long as its window stays, and that a new view
  cannot begin at all before the first stable checkpoint.
\<close>

section \<open>Entering a view\<close>

text \<open>Replaying the assigned requests moves neither the next number nor the window.\<close>

definition same_window :: "Node \<Rightarrow> Node \<Rightarrow> bool" where
  "same_window n n' \<longleftrightarrow> cfg n' = cfg n \<and> low_h n' = low_h n \<and> nextSN n' = nextSN n"

interpretation window: vote_rel same_window
  by unfold_locales (auto simp: same_window_def step_clock_def spawn_def add_trace_def init_partials_def Let_def)

lemma processNewView_window:
  assumes "processNewView E err n = Ret n'"
    and "gm_get (newViewStore n) (currenView n) \<noteq> None" and "\<not> activeView n"
  shows "cfg n' = cfg n \<and> low_h n' = low_h n \<and> nextSN n' = low_h n + n_K (cfg n) + 1"
proof -
  from assms obtain nv x where x: "stopTimer n = Ret x" and run:
    "(let n = x\<lparr>activeView := True\<rparr>; n = n\<lparr>nextSN := low_h n + n_K (cfg n) + 1\<rparr>;
          n = updateViewChangeSeqNo n;
          keySort = GetMapkey (env_order E (clock n)) (nv_Oset nv)
      in replay E nv keySort (step_clock n)) = Ret n'"
    by (auto simp: processNewView_def go_bind_eq_Ret)
  from go_rel_RetD [OF window.stopping x] have x': "cfg x = cfg n" "low_h x = low_h n"
    by (simp_all add: same_window_def)
  from run obtain sns where
    "replay E nv sns (step_clock (updateViewChangeSeqNo (x\<lparr>activeView := True,
        nextSN := low_h x + n_K (cfg x) + 1\<rparr>))) = Ret n'"
    by (auto simp: Let_def)
  from go_rel_RetD [OF window.h_replay this] x' show ?thesis
    by (simp add: same_window_def step_clock_def updateViewChangeSeqNo_def)
qed

section \<open>Until the window moves\<close>

text \<open>
  Once the next number is the first above the window, it stays so and nothing is proposed, in
  every handler and goroutine. The laws of the frame for proposing and for entering another
  view are what makes it so.
\<close>

definition above_window :: "Node \<Rightarrow> bool" where
  "above_window n \<longleftrightarrow> nextSN n = low_h n + n_K (cfg n) + 1"

definition keeps_drained :: "Node \<Rightarrow> Node \<Rightarrow> bool" where
  "keeps_drained n n' \<longleftrightarrow> cfg n' = cfg n \<and> low_h n' = low_h n \<and>
     (above_window n \<longrightarrow> nextSN n' = nextSN n \<and> proposals (trace n') = proposals (trace n))"

lemma above_window_outside: "above_window n \<Longrightarrow> \<not> inWatermarks n (nextSN n)"
proof -
  have "\<not> (0 < 1 + k \<and> 1 + k \<le> k)" for k :: u32
    using unatSuc [of k] by (auto simp: word_gt_0 word_le_nat_alt)
  then show "above_window n \<Longrightarrow> \<not> inWatermarks n (nextSN n)"
    by (simp add: above_window_def inWatermarks_def add.commute [of _ 1])
qed

lemma keeps_drained_frame:
  assumes "cfg n' = cfg n" and "low_h n' = low_h n" and "nextSN n' = nextSN n"
    and "proposals (trace n') = proposals (trace n)"
  shows "keeps_drained n n'"
  using assms by (simp add: keeps_drained_def)

lemma keeps_drained_trans: "keeps_drained a b \<Longrightarrow> keeps_drained b c \<Longrightarrow> keeps_drained a c"
  by (auto simp: keeps_drained_def above_window_def)

lemma keeps_drained_trace: "(\<And>p. e \<noteq> Proposed p) \<Longrightarrow> keeps_drained n (add_trace e n)"
  by (intro keeps_drained_frame) (simp_all add: add_trace_def)

lemma keeps_drained_propose:
  assumes "inWatermarks n (nextSN n)" "ppm_SN p = nextSN n" "ppm_ReplicaId p = replicaId (cfg n)"
  shows "keeps_drained n (add_trace (Proposed p) (n\<lparr>nextSN := nextSN n + 1\<rparr>))"
  using assms(1) above_window_outside [of n] by (auto simp: keeps_drained_def add_trace_def)

lemma keeps_drained_enter:
  "keeps_drained n (n\<lparr>activeView := True, nextSN := low_h n + n_K (cfg n) + 1\<rparr>)"
  by (simp add: keeps_drained_def above_window_def)

interpretation drained: handler_rel keeps_drained
  by unfold_locales
    (erule (1) keeps_drained_trans | erule (2) keeps_drained_propose | rule keeps_drained_enter |
     erule keeps_drained_trace | (rule keeps_drained_frame; simp add: init_partials_def Let_def))+

lemma step_drained:
  assumes "node_step E p e q" and "proc_node p = Some n" and "proc_node q = Some n'"
    and "above_window n" and "low_h n' = low_h n"
  shows "above_window n' \<and> nextSN n' = nextSN n \<and> proposals (trace n') = proposals (trace n)"
proof (cases "\<exists>m ck. e = Deliver m \<and> Command m = CheckpointM ck")
  case False
  then have "keeps_drained n n'"
    by (intro drained.h_node_step [OF assms(1-3)]) (auto intro: keeps_drained_frame simp: receive_def)
  with assms(4) show ?thesis by (simp add: keeps_drained_def above_window_def)
next
  case True
  with step_checkpoint [OF _ assms(2,3)] assms(1) obtain ck where
    n': "n' = recvCheckpoint ck ErrCh (receive (CheckpointM ck) n)" by blast
  then have "cfg n' = cfg n" "nextSN n' = nextSN n" "trace n' = trace n"
    by (simp_all add: recvCheckpoint_def moveWatermarks_def receive_def Let_def)
  with assms(4,5) show ?thesis by (simp add: above_window_def)
qed

lemma run_drained:
  assumes "run_within (\<lambda>m. low_h m = low_h n0) E n0 p" and "proc_node p = Some m" and "above_window n0"
  shows "above_window m \<and> nextSN m = nextSN n0 \<and> proposals (trace m) = proposals (trace n0)"
  using assms(1,2)
proof (induction arbitrary: m rule: run_within.induct)
  case start
  with assms(3) show ?case by simp
next
  case (step p e q)
  from step.hyps(2) obtain l where p: "proc_node p = Some l" by (cases rule: node_step.cases) auto
  have "low_h l = low_h n0" "low_h m = low_h n0"
    using run_within_ok [OF step.hyps(1)] step.hyps(3) p step.prems by (simp_all add: proc_ok_node)
  with step_drained [OF step.hyps(2) p step.prems] step.IH [OF p] show ?case by simp
qed

text \<open>
  C37: a node that has just entered a new view proposes nothing until a stable checkpoint moves its
  window: its next number is the first above the window, and in every run from there that leaves
  the low watermark where it is, whatever is delivered, whichever goroutines run and views
  are entered, the number stays the same, the log has no further proposal, and every batch handed
  to the proposing function is dropped without a trace.
\<close>

theorem new_leader_drops_batches:
  assumes "processNewView E err n = Ret n'"
    and "gm_get (newViewStore n) (currenView n) \<noteq> None" and "\<not> activeView n"
    and "run_within (\<lambda>m. low_h m = low_h n') E' n' p" and "proc_node p = Some m"
  shows "nextSN n' = low_h n + n_K (cfg n) + 1 \<and> low_h n' = low_h n \<and>
    nextSN m = nextSN n' \<and> proposals (trace m) = proposals (trace n') \<and>
    \<not> inWatermarks m (nextSN m) \<and> broadcastPrePrepareMsg E' batch err' m = Ret m"
proof -
  from processNewView_window [OF assms(1-3)]
  have w: "cfg n' = cfg n" "low_h n' = low_h n" "nextSN n' = low_h n + n_K (cfg n) + 1" by blast+
  then have "above_window n'" by (simp add: above_window_def)
  from run_drained [OF assms(4,5) this] have m: "above_window m" "nextSN m = nextSN n'"
    "proposals (trace m) = proposals (trace n')" by blast+
  have out: "\<not> inWatermarks m (nextSN m)" by (rule above_window_outside [OF m(1)])
  then have "broadcastPrePrepareMsg E' batch err' m = Ret m" by (simp add: broadcastPrePrepareMsg_def)
  with w m out show ?thesis by blast
qed

definition entering :: Node where
  "entering = (started (demo_conf 1))\<lparr>newViewStore := [(1, demo_newView)], currenView := 1, activeView := False\<rparr>"

lemma entering_run:
  "case processNewView demo_env NilCh entering of Ret n \<Rightarrow> activeView n \<and> nextSN n = 11 | _ \<Rightarrow> False"
  "gm_get (newViewStore entering) (currenView entering) \<noteq> None" "\<not> activeView entering"
  by code_simp+

theorem new_leader_drops_batches_witness:
  "\<exists>n' m. processNewView demo_env NilCh entering = Ret n' \<and> activeView n' \<and>
     node_step demo_env (Running n') (ClientCall (Some ''x'')) (Running m) \<and> nextSN m = 11 \<and>
     broadcastPrePrepareMsg demo_env demo_batch NilCh m = Ret m"
proof -
  from entering_run(1) obtain n' where n': "processNewView demo_env NilCh entering = Ret n'" "activeView n'" "nextSN n' = 11"
    by (auto split: go.splits)
  let ?m = "fst (ReceiveNewRequest (Some ''x'') n')"
  have step: "node_step demo_env (Running n') (ClientCall (Some ''x'')) (Running ?m)" by (simp add: node_step_iff)
  have "low_h ?m = low_h n'" by (simp add: ReceiveNewRequest_def Let_def)
  then have "run_within (\<lambda>m. low_h m = low_h n') demo_env n' (Running ?m)"
    by (intro run_within.step [OF run_within.start step]) simp_all
  from new_leader_drops_batches [OF n'(1) entering_run(2,3) this, of ?m demo_batch NilCh] n' step show ?thesis by auto
qed

section \<open>Before the first checkpoint\<close>

lemma select_zero:
  assumes "\<And>vc. vc \<in> set vset \<Longrightarrow> vc_LastStableCk vc = 0"
  shows "fst (selectInitialSequence vset) = 0"
proof -
  have "fst (fold (\<lambda>vc (sn, ok). if sn \<le> vc_LastStableCk vc then (vc_LastStableCk vc, True) else (sn, ok))
      vset (0, ok)) = 0" for ok
    using assms by (induction vset arbitrary: ok) auto
  then show ?thesis by (simp add: selectInitialSequence_def)
qed

text \<open>
  C36: as long as every view-change message a node stores for its view claims the checkpoint 0,
  which is what every correct node sends before the first stable checkpoint, the new primary
  does not announce the view: \<open>sendNewView\<close> changes nothing, however many messages there are.
\<close>

theorem no_new_view_before_checkpoint:
  assumes "\<And>idx vc. (idx, vc) \<in> set (viewChangeStore n) \<Longrightarrow> vc_View vc = currenView n \<Longrightarrow>
    vc_LastStableCk vc = 0"
  shows "sendNewView E err n = Ret n \<or> sendNewView E err n = Ret (step_clock n)"
proof -
  let ?vset = "slice_of (getViewChangeMsgs (env_order E (clock n)) n)"
  have "vc_LastStableCk vc = 0" if "vc \<in> set ?vset" for vc
    using that assms by (auto simp: getViewChangeMsgs_def Let_def split: if_splits)
  then have "fst (selectInitialSequence ?vset) = 0" by (rule select_zero)
  then show ?thesis
    by (simp add: sendNewView_def Let_def case_prod_unfold)
qed

text \<open>Claims of correct nodes: the number in the message is the sender's low watermark.\<close>

lemma viewChangeMsg_claim: "vc_LastStableCk (viewChangeMsg E n) = low_h n"
  by (simp add: viewChangeMsg_def Let_def case_prod_unfold)

theorem no_new_view_before_checkpoint_witness:
  "quorum_for 1 (viewChangeStore (node_after vc_run)) = 1 \<and> currenView (node_after vc_run) = 1 \<and>
   newViewStore (node_after vc_run) = [] \<and>
   (sendNewView demo_env NilCh (node_after vc_run) = Ret (node_after vc_run) \<or>
    sendNewView demo_env NilCh (node_after vc_run) = Ret (step_clock (node_after vc_run)))"
proof -
  have facts: "currenView (node_after vc_run) = 1 \<and> newViewStore (node_after vc_run) = [] \<and>
      list_all (\<lambda>(idx, vc). vc_LastStableCk vc = 0) (viewChangeStore (node_after vc_run))"
    by code_simp
  then have "vc_LastStableCk vc = 0" if "(idx, vc) \<in> set (viewChangeStore (node_after vc_run))" for idx vc
    using that by (auto simp: list_all_iff)
  with no_new_view_before_checkpoint [of "node_after vc_run" demo_env NilCh] facts vc_run_node(2)
  show ?thesis by blast
qed

end
