(* ===== verification/Codec.thy ===== *)
theory Codec
  imports Utils Keys
begin

text \<open>
  What the bytes a replica signs determine: different votes have different bytes, and votes and
  certificates are never mistaken for one another. And the order \<open>sort.Sort\<close> brings the keys
  of a new-view's request map into, through the three methods the code gives it.
\<close>

section \<open>What the signed bytes bind\<close>

text \<open>
  C33: the bytes a replica signs determine what it votes for: equal encodings come from equal
  votes, equal certificates, and never from a vote and a certificate, so a share for one
  cannot be counted for another.
\<close>

theorem signed_bytes_bind:
  "(encode (j_VoteForPrepare v) = encode (j_VoteForPrepare w) \<longleftrightarrow> v = w) \<and>
   (encode (j_PrepareQc p) = encode (j_PrepareQc q) \<longleftrightarrow> p = q) \<and>
   encode (j_VoteForPrepare v) \<noteq> encode (j_PrepareQc q)"
proof (intro conjI)
  show "encode (j_VoteForPrepare v) \<noteq> encode (j_PrepareQc q)"
    by (rule notI, drule encode_inj) (simp_all add: j_VoteForPrepare_def j_PrepareQc_def)
qed (auto dest: encode_VoteForPrepare_inj encode_PrepareQc_inj)

section \<open>Sorting the keys\<close>

text \<open>The other two methods of \<open>sort.Interface\<close>; an index outside the slice panics.\<close>

definition RequestSNSlice_Len :: "u32 list \<Rightarrow> nat" where
  "RequestSNSlice_Len a = length a"

definition RequestSNSlice_Swap :: "nat \<Rightarrow> nat \<Rightarrow> u32 list \<Rightarrow> ('s, u32 list) go" where
  "RequestSNSlice_Swap i j a =
     (if i < length a \<and> j < length a then Ret (a[i := a ! j, j := a ! i]) else Panic SliceOutOfRange)"

text \<open>A sort sees the slice through these methods only: what it does to it is a row of swaps.\<close>

fun run_swaps :: "(nat \<times> nat) list \<Rightarrow> u32 list \<Rightarrow> ('s, u32 list) go" where
  "run_swaps [] a = Ret a"
| "run_swaps ((i, j) # ss) a = go_bind (RequestSNSlice_Swap i j a) (run_swaps ss)"

lemma Swap_mset: "RequestSNSlice_Swap i j a = Ret b \<Longrightarrow> mset b = mset a"
  by (auto simp: RequestSNSlice_Swap_def mset_swap split: if_splits)

lemma run_swaps_mset: "(run_swaps ss a :: ('s, u32 list) go) = Ret b \<Longrightarrow> mset b = mset a"
proof (induction ss a rule: run_swaps.induct)
  case (2 i j ss a)
  then obtain c where c: "RequestSNSlice_Swap i j a = (Ret c :: ('s, u32 list) go)" "run_swaps ss c = (Ret b :: ('s, u32 list) go)"
    by (auto simp: go_bind_eq_Ret)
  from 2(1) [OF c(2)] Swap_mset [OF c(1)] show ?case by simp
qed simp

text \<open>
  Whatever algorithm \<open>sort.Sort\<close> uses, if it ends with no neighbours out of the order of
  \<open>Less\<close>, which is what it promises, it leaves the keys in the one order \<open>GetMapkey\<close> is modelled
  by: the sorted keys of the map, however the range loop had collected them.
\<close>

theorem sort_Sort_unique:
  assumes "run_swaps ss (map fst (range_order s result)) = (Ret ys :: (unit, u32 list) go)"
    and "\<And>i. Suc i < RequestSNSlice_Len ys \<Longrightarrow> \<not> RequestSNSlice_Less ys (Suc i) i"
  shows "ys = GetMapkey s result"
proof -
  have "sorted ys"
    using assms(2) by (auto simp: sorted_iff_nth_Suc RequestSNSlice_Len_def RequestSNSlice_Less_def not_less)
  moreover have "mset ys = mset (map fst (range_order s result))"
    by (rule run_swaps_mset [OF assms(1)])
  ultimately show ?thesis
    unfolding GetMapkey_def by (simp add: properties_for_sort)
qed

definition demo_Oset :: "(u32, RequestBatch) gomap" where
  "demo_Oset = [(3, emptyBatch), (1, emptyBatch), (2, emptyBatch)]"

theorem sort_Sort_unique_witness: "[1, 2, 3] = GetMapkey 0 demo_Oset"
proof (rule sort_Sort_unique)
  show "run_swaps [(0, 1), (1, 2)] (map fst (range_order 0 demo_Oset)) = (Ret [1, 2, 3] :: (unit, u32 list) go)"
    by code_simp
  show "\<not> RequestSNSlice_Less [1, 2, 3] (Suc i) i" if "Suc i < RequestSNSlice_Len [1, 2, 3]" for i
    using that by (auto simp: RequestSNSlice_Len_def RequestSNSlice_Less_def less_Suc_eq)
qed

end
