(* ===== verification/Network.thy ===== *)
theory Network
  imports Disagree Numbering Views Codec
begin

text \<open>
  A whole cluster: the correct replicas run the code, each in a process of its own, in any
  interleaving; the network and the faulty replicas deliver to them whatever they like, in any
  order and as often as they like. What they cannot do is forge: a proposal that verifies
  under a correct replica's key was made by that replica, and a threshold signature in a
  certificate was made from the shares of enough replicas, of which the correct ones signed
  the very bytes. Both are asked only of messages that are delivered, at that moment.
\<close>

section \<open>The cluster\<close>

text \<open>A correct replica: its process, and the last state it had (a crash leaves no state).\<close>

record member =
  m_proc :: proc
  m_node :: Node

type_synonym cluster = "u32 \<Rightarrow> member"

record world =
  env_of :: "u32 \<Rightarrow> env"
  conf_of :: "u32 \<Rightarrow> Config"
  replicas :: "u32 set"
  correct :: "u32 set"
  scheme :: crypto
  slow_key :: PubPoly
  fast_key :: PubPoly
  sizes :: cluster_params

definition world_ok :: "world \<Rightarrow> bool" where
  "world_ok W \<longleftrightarrow> params_ok (sizes W) \<and> finite (replicas W) \<and> card (replicas W) = cp_total (sizes W) \<and>
     card (replicas W - correct W) \<le> tolerated (sizes W) \<and>
     (\<forall>i \<in> correct W. env_crypto (env_of W i) = scheme W \<and>
        c_TsPubKey (conf_of W i) = slow_key W \<and> c_FastPubKey (conf_of W i) = fast_key W)"

definition move_member :: "proc \<Rightarrow> member \<Rightarrow> member" where
  "move_member q m = \<lparr>m_proc = q, m_node = (case proc_node q of None \<Rightarrow> m_node m | Some n \<Rightarrow> n)\<rparr>"

definition new_member :: "Config \<Rightarrow> member" where
  "new_member conf = \<lparr>m_proc = Running (started conf), m_node = started conf\<rparr>"

section \<open>What the network may deliver\<close>

text \<open>\<open>k\<close> replicas made a share over the bytes \<open>b\<close>; the correct ones did so by running the code.\<close>

definition share_backed :: "world \<Rightarrow> cluster \<Rightarrow> nat \<Rightarrow> gobytes \<Rightarrow> bool" where
  "share_backed W c k b \<longleftrightarrow> (\<exists>S. S \<subseteq> replicas W \<and> k \<le> card S \<and>
     (\<forall>i \<in> S \<inter> correct W. \<exists>e \<in> set (trace (m_node (c i))). signed_bytes e = b))"

definition backs :: "world \<Rightarrow> cluster \<Rightarrow> PubPoly \<Rightarrow> nat \<Rightarrow> gobytes \<Rightarrow> bool" where
  "backs W c key k sig \<longleftrightarrow> (\<forall>b. VerifyTS (scheme W) key (Some b) sig \<longrightarrow> share_backed W c k (Some b))"

fun genuine :: "world \<Rightarrow> cluster \<Rightarrow> message \<Rightarrow> bool" where
  "genuine W c (PrePrepareM p) \<longleftrightarrow>
     (ppm_ReplicaId p \<in> correct W \<longrightarrow> Proposed p \<in> set (trace (m_node (c (ppm_ReplicaId p)))))"
| "genuine W c (PrepareQcM q) \<longleftrightarrow> backs W c (slow_key W) (slow_shares (sizes W)) (pqc_ThresholdSig q)"
| "genuine W c (FastPrepareQcM q) \<longleftrightarrow> backs W c (fast_key W) (fast_shares (sizes W)) (fpqc_ThresholdSig q)"
| "genuine W c (CommitQcM q) \<longleftrightarrow> backs W c (slow_key W) (slow_shares (sizes W)) (cqc_ThresholdSig q)"
| "genuine W c m \<longleftrightarrow> True"

text \<open>One correct replica takes a step of its process.\<close>

inductive cluster_step :: "world \<Rightarrow> cluster \<Rightarrow> cluster \<Rightarrow> bool" for W c where
  "i \<in> correct W \<Longrightarrow> node_step (env_of W i) (m_proc (c i)) e q \<Longrightarrow>
    (\<And>m. e = Deliver m \<Longrightarrow> authentic (env_of W i) (m_node (c i)) m \<Longrightarrow> genuine W c (Command m)) \<Longrightarrow>
    cluster_step W c (c(i := move_member q (c i)))"

text \<open>The clusters a run can lead to in which every state of a correct replica satisfies \<open>I\<close>.\<close>

inductive cluster_run :: "(Node \<Rightarrow> bool) \<Rightarrow> world \<Rightarrow> cluster \<Rightarrow> bool" for I W where
  start: "(\<And>i. i \<in> correct W \<Longrightarrow> I (started (conf_of W i))) \<Longrightarrow>
    cluster_run I W (\<lambda>i. new_member (conf_of W i))"
| step: "cluster_run I W c \<Longrightarrow> cluster_step W c d \<Longrightarrow>
    (\<And>i. i \<in> correct W \<Longrightarrow> proc_ok I (m_proc (d i))) \<Longrightarrow> cluster_run I W d"

section \<open>Every correct replica runs its own process\<close>

text \<open>The last state of a member is one its process has had.\<close>

definition member_run :: "(Node \<Rightarrow> bool) \<Rightarrow> env \<Rightarrow> Config \<Rightarrow> member \<Rightarrow> bool" where
  "member_run I E conf m \<longleftrightarrow> run_within I E (started conf) (m_proc m) \<and>
     (\<exists>p. run_within I E (started conf) p \<and> proc_node p = Some (m_node m)) \<and>
     (\<forall>n. proc_node (m_proc m) = Some n \<longrightarrow> m_node m = n)"

lemma member_run_new: "I (started conf) \<Longrightarrow> member_run I E conf (new_member conf)"
  by (auto simp: member_run_def new_member_def intro: run_within.start exI [of _ "Running (started conf)"])

lemma member_run_step:
  assumes "member_run I E conf m" and "node_step E (m_proc m) e q" and "proc_ok I q"
  shows "member_run I E conf (move_member q m)"
proof -
  from assms have "run_within I E (started conf) q" by (auto simp: member_run_def intro: run_within.step)
  with assms(1) show ?thesis by (auto simp: member_run_def move_member_def split: option.split)
qed

lemma cluster_members:
  assumes "cluster_run I W c" and "i \<in> correct W"
  shows "member_run I (env_of W i) (conf_of W i) (c i)"
  using assms
proof (induction arbitrary: i rule: cluster_run.induct)
  case start
  then show ?case by (simp add: member_run_new)
next
  case (step c d)
  from step.hyps(2) show ?case
  proof (cases rule: cluster_step.cases)
    case (1 j e q)
    with step.IH [OF step.prems] step.hyps(3) [OF step.prems] show ?thesis
      by (cases "j = i") (auto simp: move_member_def intro: member_run_step [unfolded move_member_def])
  qed
qed

lemma cluster_node:
  assumes "cluster_run I W c" and "i \<in> correct W"
  obtains p where "run_within I (env_of W i) (started (conf_of W i)) p" and "proc_node p = Some (m_node (c i))"
  using cluster_members [OF assms] by (auto simp: member_run_def)

section \<open>What a correct replica has received is genuine\<close>

definition same_rcvd :: "Node \<Rightarrow> Node \<Rightarrow> bool" where
  "same_rcvd n n' \<longleftrightarrow> rcvd n' = rcvd n"

lemma cert_rcvd [simp]: "rcvd (snd (getCert idx n)) = rcvd n" "rcvd (modCert idx g n) = rcvd n"
  by (simp_all add: getCert_def modCert_def Let_def split: option.split)

interpretation inbox: handler_rel same_rcvd
  by unfold_locales (auto simp: same_rcvd_def step_clock_def spawn_def add_trace_def init_partials_def Let_def)

lemma inbox_handle: "go_rel same_rcvd n (\<lambda>x. x) (handle E err m n)"
proof (cases m)
  case (CheckpointM ck)
  then show ?thesis by (simp add: same_rcvd_def recvCheckpoint_def moveWatermarks_def Let_def)
next
  case ViewChangeQuorumM
  then show ?thesis by (auto simp del: go_bind.simps simp: inbox.R_refl inbox.h_sendNewView intro!: inbox.h_read_primary)
qed (simp_all add: inbox.h_handlePrePrepareMsg inbox.h_handlePrepareMsg inbox.h_handleCommitMsg
    inbox.h_handlePrepareQc inbox.h_handleFastPrepareQc inbox.h_handleCommitQc inbox.h_recvViewChange
    inbox.h_recvNewView inbox.leaving_view)

lemma step_rcvd:
  assumes "node_step E p e q" and "proc_node p = Some n" and "proc_node q = Some n'"
    and "m \<in> set (rcvd n')" and "m \<notin> set (rcvd n)"
  shows "\<exists>x. e = Deliver x \<and> authentic E n x \<and> Command x = m"
proof -
  obtain x where x: "e = Deliver x"
    using inbox.h_quiet_step [OF assms(1-3)] assms(4,5) by (cases e) (auto simp: same_rcvd_def)
  note step = assms(1) [unfolded x] assms(2,3)
  have "go_rel (\<lambda>a b. rcvd b = rcvd (admit (Command x) n)) n (\<lambda>x. x)
      (handle E ErrCh (Command x) (admit (Command x) n))"
    using inbox_handle [of "admit (Command x) n" E ErrCh "Command x"] unfolding go_rel_def
    by (rule go_ok_weaken) (simp_all add: same_rcvd_def)
  then have "rcvd n' = rcvd (admit (Command x) n)" by (rule deliver_handled(2) [OF step])
  with assms(4,5) have "Command x = m" by (auto simp: admit_def receive_def split: option.splits)
  with x deliver_handled(1) [OF step] show ?thesis by blast
qed

text \<open>Logs only grow, so what was genuine stays genuine.\<close>

definition logs_grow :: "world \<Rightarrow> cluster \<Rightarrow> cluster \<Rightarrow> bool" where
  "logs_grow W c d \<longleftrightarrow> (\<forall>i \<in> correct W. set (trace (m_node (c i))) \<subseteq> set (trace (m_node (d i))))"

lemma share_backed_grow: "share_backed W c k b \<Longrightarrow> logs_grow W c d \<Longrightarrow> share_backed W d k b"
  unfolding share_backed_def logs_grow_def by (meson IntD2 subsetD)

lemma genuine_grow: "genuine W c m \<Longrightarrow> logs_grow W c d \<Longrightarrow> genuine W d m"
  by (cases m) (auto simp: backs_def intro: share_backed_grow, auto simp: logs_grow_def)

lemma evolves_logs: "evolves E n n' \<Longrightarrow> set (trace n) \<subseteq> set (trace n')"
  using core_steps_log [of E "cfg n" "abs_node n" "abs_node n'"] by (simp add: evolves_def)

lemma member_current: "member_run I E conf m \<Longrightarrow> node_step E (m_proc m) e q \<Longrightarrow> proc_node (m_proc m) = Some (m_node m)"
  unfolding member_run_def by (cases "m_proc m") (auto elim: crashed_stepE)

lemma cluster_step_grows:
  assumes "cluster_run I W c" and "cluster_step W c d"
  shows "logs_grow W c d"
  using assms(2)
proof (cases rule: cluster_step.cases)
  case (1 i e q)
  from member_current [OF cluster_members [OF assms(1) 1(2)] 1(3)] have n: "proc_node (m_proc (c i)) = Some (m_node (c i))" .
  from node_step_evolves [OF 1(3) n] 1(1) show ?thesis
    by (auto simp: logs_grow_def move_member_def dest: evolves_logs split: option.split)
qed

definition inboxes_genuine :: "world \<Rightarrow> cluster \<Rightarrow> bool" where
  "inboxes_genuine W c \<longleftrightarrow> (\<forall>i \<in> correct W. \<forall>m \<in> set (rcvd (m_node (c i))). genuine W c m)"

lemma started_rcvd [simp]: "rcvd (started conf) = []"
  by (simp add: started_def StartListen_def NewNode_def)

lemma cluster_genuine: "cluster_run I W c \<Longrightarrow> inboxes_genuine W c"
proof (induction rule: cluster_run.induct)
  case start
  then show ?case by (simp add: inboxes_genuine_def new_member_def)
next
  case (step c d)
  note grow = genuine_grow [OF _ cluster_step_grows [OF step.hyps(1,2)]]
  from step.hyps(2) show ?case
  proof (cases rule: cluster_step.cases)
    case (1 i e q)
    note cur = member_current [OF cluster_members [OF step.hyps(1) 1(2)] 1(3)]
    have "genuine W d m" if "j \<in> correct W" "m \<in> set (rcvd (m_node (d j)))" for j m
    proof (cases "m \<in> set (rcvd (m_node (c j)))")
      case True
      with step.IH that(1) show ?thesis by (auto simp: inboxes_genuine_def intro: grow)
    next
      case False
      with that(2) 1(1) have j: "j = i" by (auto split: if_splits)
      with False that(2) 1(1) obtain n' where "proc_node q = Some n'" "m \<in> set (rcvd n')"
        by (auto simp: move_member_def split: option.splits)
      from step_rcvd [OF 1(3) cur this] False j 1(4) show ?thesis by (auto intro: grow)
    qed
    then show ?thesis by (simp add: inboxes_genuine_def)
  qed
qed

lemma cluster_received:
  "cluster_run I W c \<Longrightarrow> i \<in> correct W \<Longrightarrow> m \<in> set (rcvd (m_node (c i))) \<Longrightarrow> genuine W c m"
  using cluster_genuine by (auto simp: inboxes_genuine_def)

section \<open>Certificates agree\<close>

lemma signed_bytes_prepare: "signed_bytes e = encode (j_VoteForPrepare v) \<longleftrightarrow> e = SignedPrepare v"
  and signed_bytes_commit: "signed_bytes e = encode (j_PrepareQc q) \<longleftrightarrow> e = SignedCommit q"
proof -
  have ne: "encode (j_VoteForPrepare v) \<noteq> encode (j_PrepareQc q)" for v q
    by (rule notI, drule encode_inj) (simp_all add: j_VoteForPrepare_def j_PrepareQc_def)
  have some: "None \<noteq> encode j" for j by (simp add: encode_def)
  show "signed_bytes e = encode (j_VoteForPrepare v) \<longleftrightarrow> e = SignedPrepare v"
    by (cases e) (auto simp: some ne ne [symmetric] dest: encode_VoteForPrepare_inj)
  show "signed_bytes e = encode (j_PrepareQc q) \<longleftrightarrow> e = SignedCommit q"
    by (cases e) (auto simp: some ne ne [symmetric] dest: encode_PrepareQc_inj)
qed

lemma share_backed_votes:
  assumes "share_backed W c k (encode (j_VoteForPrepare v))"
  obtains S where "S \<subseteq> replicas W" and "k \<le> card S"
    and "\<And>i. i \<in> S \<inter> correct W \<Longrightarrow> SignedPrepare v \<in> set (trace (m_node (c i)))"
  using assms unfolding share_backed_def signed_bytes_prepare by blast

lemma backs_encode: "backs W c key k sig \<Longrightarrow> VerifyTS (scheme W) key (encode j) sig \<Longrightarrow> share_backed W c k (encode j)"
  by (simp add: backs_def encode_def)

lemma verify_iff: "env_crypto E = C \<Longrightarrow> verifyThresholdSig E msg pub sg = VerifyTS C pub (encode msg) sg"
  by (auto simp: verifyThresholdSig_def split: option.split)

text \<open>The facts about a correct replica of a cluster, in the words of the abstract machine.\<close>

lemma cluster_core:
  assumes "cluster_run I W c" and "i \<in> correct W"
  shows "core_reach (env_of W i) (cfg (m_node (c i))) (abs_node (m_node (c i)))"
    and "cfg (m_node (c i)) = cfg (started (conf_of W i))"
    and "\<exists>p. reachable (env_of W i) (started (conf_of W i)) p \<and> proc_node p = Some (m_node (c i))"
proof -
  from assms obtain p where p: "run_within I (env_of W i) (started (conf_of W i)) p" "proc_node p = Some (m_node (c i))"
    by (rule cluster_node)
  note r = run_within_reachable [OF p(1)] p(2)
  from reachable_node [OF r] show "core_reach (env_of W i) (cfg (m_node (c i))) (abs_node (m_node (c i)))"
    and "cfg (m_node (c i)) = cfg (started (conf_of W i))" .
  from r show "\<exists>p. reachable (env_of W i) (started (conf_of W i)) p \<and> proc_node p = Some (m_node (c i))" by blast
qed

lemma cluster_verify:
  assumes "world_ok W" and "cluster_run I W c" and "i \<in> correct W"
  shows "verifyThresholdSig (env_of W i) msg (tsPubKey (cfg (m_node (c i)))) sg \<longleftrightarrow>
      VerifyTS (scheme W) (slow_key W) (encode msg) sg"
    and "verifyThresholdSig (env_of W i) msg (fastPubKey (cfg (m_node (c i)))) sg \<longleftrightarrow>
      VerifyTS (scheme W) (fast_key W) (encode msg) sg"
  using assms(1,3) by (auto simp: cluster_core(2) [OF assms(2,3)] started_keys world_ok_def verify_iff)

lemma certified_votes:
  assumes "world_ok W" and "cluster_run I W c" and "i \<in> correct W" and "certified (m_node (c i)) idx d"
  obtains S where "S \<subseteq> replicas W" and "slow_shares (sizes W) \<le> card S \<or> fast_shares (sizes W) \<le> card S"
    and "\<And>j. j \<in> S \<inter> correct W \<Longrightarrow> SignedPrepare (slot_vote idx d) \<in> set (trace (m_node (c j)))"
proof -
  let ?n = "m_node (c i)"
  note core = cluster_core(1) [OF assms(2,3)]
  have wf: "cert_wf (env_of W i) (cfg ?n) idx (certOf ?n idx)"
    using core_reach_cert_wf [OF core, of idx] by simp
  from assms(4) consider q where "prepareQc (certOf ?n idx) = Some q" "pqc_BatchHash q = d"
    | q where "fastPrepareQc (certOf ?n idx) = Some q" "fpqc_BatchHash q = d"
    by (auto simp: certified_def)
  then show thesis
  proof cases
    case (1 q)
    with core_reach_origin_wf [OF core] have "PrepareQcM q \<in> set (rcvd ?n)" by (auto simp: origin_wf_def)
    from cluster_received [OF assms(2,3) this]
    have g: "backs W c (slow_key W) (slow_shares (sizes W)) (pqc_ThresholdSig q)" by simp
    from wf 1 have "pqc_id q = idx" "pqc_valid (env_of W i) (cfg ?n) q" by (auto simp: cert_wf_def)
    with 1 g have "share_backed W c (slow_shares (sizes W)) (encode (j_VoteForPrepare (slot_vote idx d)))"
      by (auto intro!: backs_encode [OF g] simp: pqc_valid_def cluster_verify [OF assms(1-3)] pqc_vote_def slot_vote_def pqc_id_def)
    then show thesis by (rule share_backed_votes) (use that in blast)
  next
    case (2 q)
    with core_reach_origin_wf [OF core] have "FastPrepareQcM q \<in> set (rcvd ?n)" by (auto simp: origin_wf_def)
    from cluster_received [OF assms(2,3) this]
    have g: "backs W c (fast_key W) (fast_shares (sizes W)) (fpqc_ThresholdSig q)" by simp
    from wf 2 have "fpqc_id q = idx" "fpqc_valid (env_of W i) (cfg ?n) q" by (auto simp: cert_wf_def)
    with 2 g have "share_backed W c (fast_shares (sizes W)) (encode (j_VoteForPrepare (slot_vote idx d)))"
      by (auto intro!: backs_encode [OF g] simp: fpqc_valid_def cluster_verify [OF assms(1-3)] fpqc_vote_def slot_vote_def fpqc_id_def)
    then show thesis by (rule share_backed_votes) (use that in blast)
  qed
qed

text \<open>
  C1: in every cluster a run leads to, two correct replicas never hold certificates, slow or
  fast, for different digests in one sequence number and view, as long as neither digest is
  empty, whatever the at most (N - 1) div 3 faulty replicas and the network do short of
  forging a signature. The empty digest is no hash of a batch, and it is left out because the
  code can certify it: a replica that has got no proposal it can file for its own view votes
  for the empty digest, beside a vote for a real one (see theory \<open>Unchecked\<close>).
\<close>

theorem cluster_certificates_agree:
  assumes "world_ok W" and "cluster_run I W c" and "i \<in> correct W" and "j \<in> correct W"
    and "certified (m_node (c i)) idx d" and "certified (m_node (c j)) idx d'"
    and "blen d \<noteq> 0" and "blen d' \<noteq> 0"
  shows "d = d'"
proof -
  from assms(1) have w: "params_ok (sizes W)" "finite (replicas W)" "card (replicas W) = cp_total (sizes W)"
    "card (replicas W - correct W) \<le> tolerated (sizes W)" by (simp_all add: world_ok_def)
  from certified_votes [OF assms(1,2,3,5)] obtain A where A: "A \<subseteq> replicas W"
    "slow_shares (sizes W) \<le> card A \<or> fast_shares (sizes W) \<le> card A"
    "\<And>l. l \<in> A \<inter> correct W \<Longrightarrow> SignedPrepare (slot_vote idx d) \<in> set (trace (m_node (c l)))" by metis
  from certified_votes [OF assms(1,2,4,6)] obtain B where B: "B \<subseteq> replicas W"
    "slow_shares (sizes W) \<le> card B \<or> fast_shares (sizes W) \<le> card B"
    "\<And>l. l \<in> B \<inter> correct W \<Longrightarrow> SignedPrepare (slot_vote idx d') \<in> set (trace (m_node (c l)))" by metis
  show ?thesis
    by (rule votes_agree [OF w cluster_core(3) [OF assms(2)] A B assms(7,8)])
qed

section \<open>Committed certificates are kept by a quorum\<close>

lemma share_backed_commits:
  assumes "share_backed W c k (encode (j_PrepareQc q))"
  obtains S where "S \<subseteq> replicas W" and "k \<le> card S"
    and "\<And>i. i \<in> S \<inter> correct W \<Longrightarrow> SignedCommit q \<in> set (trace (m_node (c i)))"
  using assms unfolding share_backed_def signed_bytes_commit by blast

lemma evidence_commits:
  assumes "world_ok W" and "cluster_run I W c" and "i \<in> correct W"
    and "evidence (env_of W i) (cfg (m_node (c i))) (certOf (m_node (c i)) idx)"
    and "fastPrepareQc (certOf (m_node (c i)) idx) = None"
  obtains q where "prepareQc (certOf (m_node (c i)) idx) = Some q" and "pqc_id q = idx"
    and "share_backed W c (slow_shares (sizes W)) (encode (j_PrepareQc q))"
proof -
  let ?n = "m_node (c i)"
  note core = cluster_core(1) [OF assms(2,3)]
  from assms(4,5) obtain q cqc where q: "prepareQc (certOf ?n idx) = Some q" "commitQc (certOf ?n idx) = Some cqc"
    "cqc_valid (env_of W i) (cfg ?n) (Some q) cqc" by (auto simp: evidence_def)
  from core_reach_origin_wf [OF core] q(2) have "CommitQcM cqc \<in> set (rcvd ?n)" by (auto simp: origin_wf_def)
  from cluster_received [OF assms(2,3) this]
  have g: "backs W c (slow_key W) (slow_shares (sizes W)) (cqc_ThresholdSig cqc)" by simp
  have "share_backed W c (slow_shares (sizes W)) (encode (j_PrepareQc q))"
    using q(3) by (intro backs_encode [OF g]) (simp add: cqc_valid_def cluster_verify [OF assms(1-3)] j_ptr_def)
  moreover have "pqc_id q = idx"
    using core_reach_cert_wf [OF core, of idx] q(1) by (auto simp: cert_wf_def)
  ultimately show thesis using that q(1) by blast
qed

text \<open>
  C8: when a correct replica has executed a request without a fast certificate, it holds a
  prepare certificate for the slot, and so do other correct replicas: at least the slow quorum
  less the faulty replicas are correct and hold that very certificate.
\<close>

theorem execution_is_durable:
  assumes "world_ok W" and "cluster_run I W c" and "i \<in> correct W"
    and "(sn, idx, dg) \<in> set (executed (trace (m_node (c i))))"
    and "fastPrepareQc (certOf (m_node (c i)) idx) = None"
  shows "\<exists>q S. prepareQc (certOf (m_node (c i)) idx) = Some q \<and> pqc_id q = idx \<and> S \<subseteq> correct W \<and>
    slow_shares (sizes W) \<le> card S + card (replicas W - correct W) \<and>
    (\<forall>j \<in> S. prepareQc (certOf (m_node (c j)) idx) = Some q)"
proof -
  from core_reach_exec_wf [OF cluster_core(1) [OF assms(2,3)]] assms(4)
  have "evidence (env_of W i) (cfg (m_node (c i))) (certOf (m_node (c i)) idx)" by (auto simp: exec_wf_def)
  from evidence_commits [OF assms(1-3) this assms(5)] obtain q where q:
    "prepareQc (certOf (m_node (c i)) idx) = Some q" "pqc_id q = idx"
    "share_backed W c (slow_shares (sizes W)) (encode (j_PrepareQc q))" by blast
  from share_backed_commits [OF q(3)] obtain S where S: "S \<subseteq> replicas W" "slow_shares (sizes W) \<le> card S"
    "\<And>j. j \<in> S \<inter> correct W \<Longrightarrow> SignedCommit q \<in> set (trace (m_node (c j)))" by metis
  have fin: "finite (replicas W)" using assms(1) by (simp add: world_ok_def)
  have "card S \<le> card ((S \<inter> correct W) \<union> (replicas W - correct W))"
    using S(1) fin by (intro card_mono) (auto intro: finite_subset)
  then have "slow_shares (sizes W) \<le> card (S \<inter> correct W) + card (replicas W - correct W)"
    using S(2) card_Un_le order_trans by metis
  moreover have "prepareQc (certOf (m_node (c j)) idx) = Some q" if "j \<in> S \<inter> correct W" for j
    using core_reach_commit_wf [OF cluster_core(1) [OF assms(2)]] S(3) [OF that] that q(2)
    by (auto simp: commit_wf_def)
  ultimately show ?thesis using q(1,2) by (intro exI [of _ q] exI [of _ "S \<inter> correct W"]) auto
qed

section \<open>Under a correct leader executions agree\<close>

text \<open>The replica whose proposal fills a slot, when it came as a proposal and not in a new view.\<close>

definition proposed_by :: "Node \<Rightarrow> MsgId \<Rightarrow> u32 \<Rightarrow> bool" where
  "proposed_by n idx l \<longleftrightarrow> (\<exists>p. prePrepareStore (certOf n idx) = Some p \<and> ppm_ReplicaId p = l \<and>
     Replayed p \<notin> set (trace n))"

lemma executed_proposal:
  assumes "cluster_run I W c" and "i \<in> correct W" and "l \<in> correct W"
    and "proposed_by (m_node (c i)) idx l"
    and "(sn, idx, dg) \<in> set (executed (trace (m_node (c i))))" and "blen dg \<noteq> 0"
  obtains p where "Proposed p \<in> set (trace (m_node (c l)))" and "mkId (ppm_SN p) (ppm_View p) = idx"
    and "ppm_BatchHash p = dg"
proof -
  note core = cluster_core(1) [OF assms(1,2)]
  from assms(4) obtain p where p: "prePrepareStore (certOf (m_node (c i)) idx) = Some p" "ppm_ReplicaId p = l"
    "Replayed p \<notin> set (trace (m_node (c i)))" by (auto simp: proposed_by_def)
  from core_reach_origin_wf [OF core] p have o: "PrePrepareM p \<in> set (rcvd (m_node (c i)))"
    "mkId (ppm_SN p) (ppm_View p) = idx" "reqBatchDigest (certOf (m_node (c i)) idx) = ppm_BatchHash p"
    by (auto simp: origin_wf_def)
  from cluster_received [OF assms(1,2) o(1)] p(2) assms(3) have "Proposed p \<in> set (trace (m_node (c l)))" by simp
  moreover from core_reach_digest_wf [OF core] assms(5,6) o(3) have "ppm_BatchHash p = dg"
    by (auto simp: digest_wf_def)
  ultimately show thesis using that o(2) by blast
qed

text \<open>
  C2: what a correct replica executes from the proposal of a correct leader is the digest of a
  batch that leader has proposed under this number, and two correct replicas that execute the
  number from its proposals execute the same digest, as long as the leader's window has not
  come to the end of the numbers. (With a faulty leader they need not: see theory Disagree.)
\<close>

theorem execution_follows_correct_leader:
  assumes "cluster_run roomy W c" and "i \<in> correct W" and "j \<in> correct W" and "l \<in> correct W"
    and "proposed_by (m_node (c i)) idx l" and "proposed_by (m_node (c j)) idx' l" and "id_Sn idx = id_Sn idx'"
    and "(sn, idx, dg) \<in> set (executed (trace (m_node (c i))))" and "blen dg \<noteq> 0"
    and "(sn', idx', dg') \<in> set (executed (trace (m_node (c j))))" and "blen dg' \<noteq> 0"
  shows "dg = dg' \<and> idx = idx' \<and>
    (\<exists>p. Proposed p \<in> set (trace (m_node (c l))) \<and> mkId (ppm_SN p) (ppm_View p) = idx \<and>
       dg = dataHashByte (env_crypto (env_of W l)) (j_RequestBatch (ppm_ReqBatch p)))"
proof -
  from executed_proposal [OF assms(1,2,4,5,8,9)] obtain p where
    p: "Proposed p \<in> set (trace (m_node (c l)))" "mkId (ppm_SN p) (ppm_View p) = idx" "ppm_BatchHash p = dg" .
  from executed_proposal [OF assms(1,3,4,6,10,11)] obtain p' where
    p': "Proposed p' \<in> set (trace (m_node (c l)))" "mkId (ppm_SN p') (ppm_View p') = idx'" "ppm_BatchHash p' = dg'" .
  from cluster_node [OF assms(1,4)] obtain r where
    r: "run_within roomy (env_of W l) (started (conf_of W l)) r" "proc_node r = Some (m_node (c l))" .
  from run_within_numbered [OF r] have "inj_on ppm_SN (set (proposals (trace (m_node (c l)))))"
    by (simp add: numbered_def distinct_map)
  moreover have "ppm_SN p = ppm_SN p'" using p(2) p'(2) assms(7) by auto
  ultimately have "p = p'" using p(1) p'(1) by (auto simp: in_proposals_iff dest: inj_onD)
  moreover have "ppm_BatchHash p = dataHashByte (env_crypto (env_of W l)) (j_RequestBatch (ppm_ReqBatch p))"
    using core_reach_proposal_wf [OF cluster_core(1) [OF assms(1,4)]] p(1) by (auto simp: proposal_wf_def)
  ultimately show ?thesis using p p' by auto
qed

end
