(* ===== verification/Rounds.thy ===== *)
theory Rounds
  imports Network
begin

text \<open>
  Whole rounds of a cluster of four, computed from a client's request to its execution: the
  fast path with all four replicas, and the slow path with one of them silent. The network
  passes on what the replicas have sent.
\<close>

section \<open>A cluster of four\<close>

text \<open>
  A hash without collisions that is short on the three strings the threshold signatures and the
  slot of a round rest on: the batch, the vote for it, and the prepare certificate.
\<close>

definition bytes_B :: string where
  \<open>bytes_B = ''{"Batch":[{"Cmd":"Y21keA=="}]}'' @ [CHR 0x0A]\<close>

definition bytes_V :: string where
  \<open>bytes_V = ''{"SN":1,"BatchHash":"Qg==","View":0}'' @ [CHR 0x0A]\<close>

definition bytes_Q :: string where
  \<open>bytes_Q = ''{"SN":1,"BatchHash":"Qg==","View":0,"ReplicaId":0,"ThresholdSig":"Vg==","TimeStamp":0}'' @ [CHR 0x0A]\<close>

definition short_hash :: "string \<Rightarrow> string" where
  "short_hash s = (if s = bytes_V then ''V'' else if s = bytes_Q then ''Q'' else if s = bytes_B then ''B''
     else CHR ''x'' # s)"

text \<open>A share is the hash marked as one, a threshold signature is the hash, recovered from enough shares.\<close>

definition clear_crypto :: crypto where
  "clear_crypto = demo_crypto\<lparr>sha256 := short_hash,
     tbls_Sign := (\<lambda>k m. Some (Some (CHR ''p'' # m))),
     tbls_Recover := (\<lambda>q m ps t n. if t \<le> int (length (filter (\<lambda>s. s = Some (CHR ''p'' # m)) ps))
        then Some (Some m) else None),
     bls_Verify := (\<lambda>p m s. s = Some m)\<rparr>"

definition clear_env :: env where
  "clear_env = demo_env\<lparr>env_crypto := clear_crypto\<rparr>"

definition addr4 :: "(u32, string) gomap" where
  "addr4 = [(0, ''a''), (1, ''b''), (2, ''c''), (3, ''d'')]"

definition clear_conf :: "u32 \<Rightarrow> Config" where
  "clear_conf i = config_New (gm_get0 [] addr4 i) addr4 [(0, 1), (1, 1), (2, 1), (3, 1)] i
     (Some (replicate 64 (hd (gm_get0 [] addr4 i)))) (map (\<lambda>(j, a). (j, Some (replicate 32 (hd a)))) addr4)
     \<lparr>share_I = 0, share_V = 0\<rparr> 0 \<lparr>share_I = 0, share_V = 0\<rparr> 0
     1 2 1000 1 5 10 5 5 1000 4 3 3 0 1000 1000 0"

text \<open>The parameter lists the correct replicas.\<close>

definition four :: "u32 list \<Rightarrow> world" where
  "four hs = \<lparr>env_of = (\<lambda>i. clear_env), conf_of = clear_conf, replicas = {0, 1, 2, 3}, correct = set hs,
     scheme = clear_crypto, slow_key = 0, fast_key = 0, sizes = \<lparr>cp_total = 4, cp_abm = 0, cp_pbm = 0\<rparr>\<rparr>"

section \<open>Running a script\<close>

text \<open>The members in the order of their numbers; \<open>Pass i k j\<close> hands the \<open>k\<close>-th message of \<open>i\<close> to \<open>j\<close>.\<close>

datatype net_event = Local nat event | Pass nat nat nat

definition passed :: "member list \<Rightarrow> net_event \<Rightarrow> (nat \<times> event) option" where
  "passed ms x = (case x of
     Local i e \<Rightarrow> Some (i, e)
   | Pass i k j \<Rightarrow>
       if k < length (sent (m_node (ms ! i)))
       then (let (a, msg, sig) = sent (m_node (ms ! i)) ! k in Some (j, Deliver \<lparr>Command = msg, Sig = sig\<rparr>))
       else None)"

definition net_next :: "member list \<Rightarrow> net_event \<Rightarrow> member list option" where
  "net_next ms x = (case passed ms x of None \<Rightarrow> None
     | Some (j, e) \<Rightarrow> (case proc_next clear_env (m_proc (ms ! j)) e of None \<Rightarrow> None
         | Some q \<Rightarrow> Some (ms[j := move_member q (ms ! j)])))"

fun net_run :: "member list \<Rightarrow> net_event list \<Rightarrow> member list option" where
  "net_run ms [] = Some ms"
| "net_run ms (x # xs) = (case net_next ms x of None \<Rightarrow> None | Some ms' \<Rightarrow> net_run ms' xs)"

definition members4 :: "member list" where
  "members4 = map (\<lambda>i. new_member (clear_conf i)) [0, 1, 2, 3]"

text \<open>Running the \<open>k\<close>-th goroutine of \<open>i\<close> \<open>n\<close> times, as each run takes it off the pool.\<close>

definition tasks :: "nat \<Rightarrow> nat \<Rightarrow> nat \<Rightarrow> net_event list" where
  "tasks i k m = replicate m (Local i (RunTask k))"

text \<open>
  A client's request at replica 0, which leads, its turn of the batch loop, the goroutine that
  proposes, and the four that write the proposal to the connections.
\<close>

definition proposing :: "net_event list" where
  "proposing = [Local 0 (ClientCall (Some ''x'')), Local 0 (BatchTurn False), Local 0 (RunTask 0)] @ tasks 0 1 4"

text \<open>All four vote, and the leader makes a fast certificate of four votes.\<close>

definition fast_round :: "net_event list" where
  "fast_round = proposing @ [Pass 0 0 0, Pass 0 1 1, Pass 0 2 2, Pass 0 3 3, Pass 1 0 0, Pass 2 0 0, Pass 3 0 0] @
     tasks 0 1 4 @ [Pass 0 4 0, Pass 0 5 1, Pass 0 6 2, Pass 0 7 3] @
     [Local 0 (RunTask 1), Local 1 (RunTask 0), Local 2 (RunTask 0), Local 3 (RunTask 0)]"

text \<open>
  Replica 3 never answers. The fast path's timer expires with three votes, and the round goes
  on with a prepare certificate, commit votes and a commit certificate.
\<close>

definition slow_round :: "net_event list" where
  "slow_round = proposing @ [Pass 0 0 0, Pass 0 1 1, Pass 0 2 2, Pass 1 0 0, Pass 2 0 0, Local 0 (RunTask 0)] @
     tasks 0 0 4 @ [Pass 0 4 0, Pass 0 5 1, Pass 0 6 2, Pass 0 8 0, Pass 1 1 0, Pass 2 1 0] @
     tasks 0 0 4 @ [Pass 0 9 0, Pass 0 10 1, Pass 0 11 2]"

section \<open>A script is a run of the cluster\<close>

text \<open>
  Each delivery is checked: a proposal against the leader's log, a certificate against the logs
  of the replicas that signed what it certifies.
\<close>

definition signers :: "member list \<Rightarrow> gobytes \<Rightarrow> nat" where
  "signers ms b = length (filter (\<lambda>m. b \<in> set (map signed_bytes (trace (m_node m)))) ms)"

fun checks :: "member list \<Rightarrow> message \<Rightarrow> bool" where
  "checks ms (PrePrepareM p) \<longleftrightarrow>
     unat (ppm_ReplicaId p) < 4 \<and> Proposed p \<in> set (trace (m_node (ms ! unat (ppm_ReplicaId p))))"
| "checks ms (PrepareQcM q) \<longleftrightarrow> pqc_ThresholdSig q = Some ''V'' \<and> 3 \<le> signers ms (Some bytes_V)"
| "checks ms (FastPrepareQcM q) \<longleftrightarrow> fpqc_ThresholdSig q = Some ''V'' \<and> 4 \<le> signers ms (Some bytes_V)"
| "checks ms (CommitQcM q) \<longleftrightarrow> cqc_ThresholdSig q = Some ''Q'' \<and> 3 \<le> signers ms (Some bytes_Q)"
| "checks ms m \<longleftrightarrow> True"

fun event_checks :: "member list \<Rightarrow> event \<Rightarrow> bool" where
  "event_checks ms (Deliver m) \<longleftrightarrow> checks ms (Command m)"
| "event_checks ms e \<longleftrightarrow> True"

fun checked_run :: "u32 list \<Rightarrow> member list \<Rightarrow> net_event list \<Rightarrow> member list option" where
  "checked_run hs ms [] = Some ms"
| "checked_run hs ms (x # xs) =
     (case passed ms x of None \<Rightarrow> None
      | Some (j, e) \<Rightarrow>
          if event_checks ms e \<and> j < 4 \<and> of_nat j \<in> set hs
          then (case proc_next clear_env (m_proc (ms ! j)) e of
              Some (Running n) \<Rightarrow> if roomy n then checked_run hs (ms[j := move_member (Running n) (ms ! j)]) xs else None
            | _ \<Rightarrow> None)
          else None)"

lemma checked_net_run: "checked_run hs ms xs = Some ms' \<Longrightarrow> net_run ms xs = Some ms'"
  by (induction xs arbitrary: ms) (auto simp: net_next_def split: option.splits prod.splits if_splits proc.splits)

definition cluster_of :: "member list \<Rightarrow> cluster" where
  "cluster_of ms i = (if unat i < 4 then ms ! unat i else new_member (clear_conf i))"

lemma number_cases: "unat (i :: u32) < 4 \<Longrightarrow> i = 0 \<or> i = 1 \<or> i = 2 \<or> i = 3"
  unfolding word_unat_eq_iff [of i] by simp linarith

lemma unat_number: "j < 4 \<Longrightarrow> unat (of_nat j :: u32) = j"
  by (simp add: unat_of_nat)

lemma cluster_of_start: "cluster_of members4 = (\<lambda>i. new_member (clear_conf i))"
  by (rule ext) (auto simp: cluster_of_def members4_def dest!: number_cases)

lemma cluster_of_step:
  "length ms = 4 \<Longrightarrow> j < 4 \<Longrightarrow> cluster_of (ms[j := m]) = (cluster_of ms)(of_nat j := m)"
  by (rule ext) (auto simp: cluster_of_def unat_number nth_list_update)

text \<open>Counting the signers of some bytes among the four members.\<close>

lemma signers_backed:
  assumes "length ms = 4" and "k \<le> signers ms b"
  shows "share_backed (four hs) (cluster_of ms) k b"
proof -
  let ?P = "\<lambda>m. b \<in> set (map signed_bytes (trace (m_node m)))"
  let ?I = "{i. i < length ms \<and> ?P (ms ! i)}" and ?f = "of_nat :: nat \<Rightarrow> u32"
  have "inj_on ?f ?I"
    using assms(1) by (intro inj_onI) (metis (mono_tags, lifting) mem_Collect_eq unat_number)
  then have "card (?f ` ?I) = signers ms b"
    by (simp add: card_image signers_def length_filter_conv_card)
  moreover have "?f ` ?I \<subseteq> {0, 1, 2, 3}"
    using assms(1) by (auto simp: less_Suc_eq numeral_eq_Suc)
  moreover have "\<exists>e \<in> set (trace (m_node (cluster_of ms i))). signed_bytes e = b" if "i \<in> ?f ` ?I" for i
    using that assms(1) by (auto simp: cluster_of_def unat_number)
  ultimately show ?thesis
    using assms(2) unfolding share_backed_def by (intro exI [of _ "?f ` ?I"]) (auto simp: four_def)
qed

lemma short_hash_V: "short_hash s = ''V'' \<longleftrightarrow> s = bytes_V"
  and short_hash_Q: "short_hash s = ''Q'' \<longleftrightarrow> s = bytes_Q"
proof -
  have "bytes_Q \<noteq> bytes_V" by code_simp
  then show "short_hash s = ''V'' \<longleftrightarrow> s = bytes_V" "short_hash s = ''Q'' \<longleftrightarrow> s = bytes_Q"
    by (auto simp: short_hash_def)
qed

lemma clear_verifies: "VerifyTS clear_crypto pub (Some s) sig \<longleftrightarrow> sig = Some (short_hash s)"
  by (simp add: VerifyTS_def clear_crypto_def sign_dataHashByte_def)

lemma backs_signers:
  assumes "length ms = 4" and "k \<le> signers ms (Some t)" and "\<And>s. short_hash s = h \<longleftrightarrow> s = t"
  shows "backs (four hs) (cluster_of ms) key k (Some h)"
  unfolding backs_def
proof (intro allI impI)
  fix s assume "VerifyTS (scheme (four hs)) key (Some s) (Some h)"
  then have "s = t" using assms(3) [of s] by (simp add: four_def clear_verifies)
  then show "share_backed (four hs) (cluster_of ms) k (Some s)" using signers_backed [OF assms(1,2)] by simp
qed

lemma four_sizes: "slow_shares (sizes (four hs)) = 3" "fast_shares (sizes (four hs)) = 4"
  "params_ok (sizes (four hs))"
  by (simp_all add: four_def slow_shares_eq fast_shares_eq params_ok_iff)

lemma checks_genuine:
  assumes "length ms = 4" and "checks ms m"
  shows "genuine (four hs) (cluster_of ms) m"
  using assms
  by (cases m)
    (auto simp: four_sizes cluster_of_def short_hash_V short_hash_Q intro!: backs_signers)

lemma checked_run_cluster:
  assumes "checked_run hs ms xs = Some ms'" and "length ms = 4" and "cluster_run roomy (four hs) (cluster_of ms)"
  shows "length ms' = 4 \<and> cluster_run roomy (four hs) (cluster_of ms')"
  using assms
proof (induction xs arbitrary: ms)
  case (Cons x xs)
  from Cons.prems(1) obtain j e n where
    e: "passed ms x = Some (j, e)" "event_checks ms e" "j < 4" "of_nat j \<in> set hs"
      "proc_next clear_env (m_proc (ms ! j)) e = Some (Running n)" "roomy n"
      "checked_run hs (ms[j := move_member (Running n) (ms ! j)]) xs = Some ms'"
    by (auto split: option.splits prod.splits if_splits proc.splits)
  let ?j = "of_nat j :: u32" and ?d = "cluster_of (ms[j := move_member (Running n) (ms ! j)])"
  have j: "cluster_of ms ?j = ms ! j" using e(3) by (simp add: cluster_of_def unat_number)
  have "cluster_step (four hs) (cluster_of ms) ((cluster_of ms)(?j := move_member (Running n) (cluster_of ms ?j)))"
  proof (rule cluster_step.intros)
    show "?j \<in> correct (four hs)" using e(4) by (simp add: four_def)
    show "node_step (env_of (four hs) ?j) (m_proc (cluster_of ms ?j)) e (Running n)"
      using e(5) by (simp add: node_step_iff j four_def)
    show "genuine (four hs) (cluster_of ms) (Command m)" if "e = Deliver m" for m
      using e(2) that by (intro checks_genuine Cons.prems(2)) simp
  qed
  then have step: "cluster_step (four hs) (cluster_of ms) ?d"
    using cluster_of_step [OF Cons.prems(2) e(3)] j by simp
  have "proc_ok roomy (m_proc (?d i))" if "i \<in> correct (four hs)" for i
    using run_within_ok e(6) cluster_members [OF Cons.prems(3) that] cluster_of_step [OF Cons.prems(2) e(3)]
    by (auto simp: member_run_def move_member_def)
  with Cons.prems(3) step have "cluster_run roomy (four hs) ?d" by (rule cluster_run.step)
  then show ?case using Cons.prems(2) by (intro Cons.IH [OF e(7)]) simp_all
qed simp

section \<open>The rounds\<close>

text \<open>The batch of the request \<open>x\<close>: the client's command with the mark of the connection.\<close>

definition round_digest :: gobytes where
  "round_digest = dataHashByte clear_crypto (j_RequestBatch \<lparr>Batch = Some [Some \<lparr>Cmd = Some ''cmdx''\<rparr>]\<rparr>)"

abbreviation executions :: "member list \<Rightarrow> (u32 \<times> MsgId \<times> gobytes) list list" where
  "executions \<equiv> map (\<lambda>m. executed (trace (m_node m)))"

lemma round_digest_eq: "round_digest = Some ''B''"
  by code_simp

lemma fast_round_result:
  "case checked_run [0, 1, 2, 3] members4 fast_round of None \<Rightarrow> False
   | Some ms \<Rightarrow> executions ms = replicate 4 [(1, mkId 1 0, Some ''B'')]"
  by code_simp

text \<open>What a replica that took part in the slow round knows of the slot.\<close>

definition slow_slot :: "Node \<Rightarrow> bool" where
  "slow_slot n \<longleftrightarrow> executed (trace n) = [(1, mkId 1 0, Some ''B'')] \<and>
     fastPrepareQc (certOf n (mkId 1 0)) = None \<and>
     (case prepareQc (certOf n (mkId 1 0)) of None \<Rightarrow> False | Some q \<Rightarrow> pqc_BatchHash q = Some ''B'') \<and>
     (case prePrepareStore (certOf n (mkId 1 0)) of None \<Rightarrow> False
      | Some p \<Rightarrow> ppm_ReplicaId p = 0 \<and> Replayed p \<notin> set (trace n))"

lemma slow_round_result:
  "case checked_run [0, 1, 2] members4 slow_round of None \<Rightarrow> False
   | Some ms \<Rightarrow> slow_slot (m_node (ms ! 0)) \<and> slow_slot (m_node (ms ! 1)) \<and> slow_slot (m_node (ms ! 2)) \<and>
       executed (trace (m_node (ms ! 3))) = []"
  by code_simp

lemma members4_start: "length members4 = 4" "cluster_run roomy (four hs) (cluster_of members4)"
proof -
  show "length members4 = 4" by (simp add: members4_def)
  have "roomy (started (clear_conf i))" for i
    by (simp add: roomy_def started_def StartListen_def NewNode_def clear_conf_def config_New_def)
  then show "cluster_run roomy (four hs) (cluster_of members4)"
    unfolding cluster_of_start using cluster_run.start [of "four hs" roomy] by (simp add: four_def)
qed

text \<open>
  From a client's request to its execution in a cluster of four correct replicas: the
  proposal, four votes, one fast certificate and its four deliveries, every message the one the
  code has sent, make every replica execute the batch of the request as number 1, and nothing
  else. The run is one the network may produce.
\<close>

theorem fast_round_executes:
  "\<exists>ms. net_run members4 fast_round = Some ms \<and> cluster_run roomy (four [0, 1, 2, 3]) (cluster_of ms) \<and>
     executions ms = replicate 4 [(1, mkId 1 0, round_digest)]"
proof -
  from fast_round_result obtain ms where ms: "checked_run [0, 1, 2, 3] members4 fast_round = Some ms"
    "executions ms = replicate 4 [(1, mkId 1 0, Some ''B'')]" by (auto split: option.splits)
  from checked_run_cluster [OF ms(1) members4_start] checked_net_run [OF ms(1)] ms(2) show ?thesis
    unfolding round_digest_eq by blast
qed

text \<open>The state the slow round ends in.\<close>

definition slow_end :: "member list" where
  "slow_end = the (checked_run [0, 1, 2] members4 slow_round)"

lemma slow_end:
  "checked_run [0, 1, 2] members4 slow_round = Some slow_end" "slow_slot (m_node (slow_end ! 0))"
  "slow_slot (m_node (slow_end ! 1))" "slow_slot (m_node (slow_end ! 2))"
  "executed (trace (m_node (slow_end ! 3))) = []"
proof -
  from slow_round_result obtain ms where ms: "checked_run [0, 1, 2] members4 slow_round = Some ms"
    "slow_slot (m_node (ms ! 0)) \<and> slow_slot (m_node (ms ! 1)) \<and> slow_slot (m_node (ms ! 2)) \<and>
       executed (trace (m_node (ms ! 3))) = []" by (auto split: option.splits)
  then have "slow_end = ms" by (simp add: slow_end_def)
  with ms show "checked_run [0, 1, 2] members4 slow_round = Some slow_end" "slow_slot (m_node (slow_end ! 0))"
    "slow_slot (m_node (slow_end ! 1))" "slow_slot (m_node (slow_end ! 2))"
    "executed (trace (m_node (slow_end ! 3))) = []" by simp_all
qed

lemma slow_end_run: "length slow_end = 4" "cluster_run roomy (four [0, 1, 2]) (cluster_of slow_end)"
  using checked_run_cluster [OF slow_end(1) members4_start] by auto

text \<open>
  With one of four replicas silent the same request is executed all the same: the fast
  path's time runs out, and a prepare certificate, commit votes and a commit certificate make
  the other three execute it.
\<close>

theorem slow_round_executes:
  "\<exists>ms. net_run members4 slow_round = Some ms \<and> cluster_run roomy (four [0, 1, 2]) (cluster_of ms) \<and>
     executions ms = replicate 3 [(1, mkId 1 0, round_digest)] @ [[]]"
proof -
  obtain a b c d where m: "slow_end = [a, b, c, d]"
    using slow_end_run(1) by (auto simp: numeral_eq_Suc length_Suc_conv)
  from slow_end(2-5) have "executions slow_end = replicate 3 [(1, mkId 1 0, round_digest)] @ [[]]"
    unfolding m by (simp add: slow_slot_def round_digest_eq numeral_3_eq_3)
  with checked_net_run [OF slow_end(1)] slow_end_run(2) show ?thesis by blast
qed

section \<open>The theorems of theory Network at the end of the slow round\<close>

lemma four_ok: "world_ok (four [0, 1, 2])"
proof -
  have "{0, 1, 2, 3} - {0, 1, 2} = {3 :: u32}" by auto
  then show ?thesis
    by (simp add: world_ok_def four_def params_ok_iff tolerated_def clear_env_def clear_conf_def config_New_def)
qed

lemma slow_end_members:
  "cluster_of slow_end 0 = slow_end ! 0" "cluster_of slow_end 1 = slow_end ! 1" "cluster_of slow_end 2 = slow_end ! 2"
  by (simp_all add: cluster_of_def)

lemma slow_slotD:
  assumes "slow_slot n"
  shows "certified n (mkId 1 0) (Some ''B'')" and "proposed_by n (mkId 1 0) 0"
    and "(1, mkId 1 0, Some ''B'') \<in> set (executed (trace n))" and "fastPrepareQc (certOf n (mkId 1 0)) = None"
  using assms by (auto simp: slow_slot_def certified_def proposed_by_def split: option.splits)

lemmas slow_end_slots = slow_end(2-4) [folded slow_end_members]

lemma correct_four: "0 \<in> correct (four [0, 1, 2])" "1 \<in> correct (four [0, 1, 2])" "2 \<in> correct (four [0, 1, 2])"
  by (simp_all add: four_def)

theorem cluster_certificates_agree_witness:
  "certified (m_node (cluster_of slow_end 1)) (mkId 1 0) (Some ''B'') \<and>
   certified (m_node (cluster_of slow_end 2)) (mkId 1 0) (Some ''B'') \<and> Some ''B'' = Some ''B''"
  using cluster_certificates_agree [OF four_ok slow_end_run(2) correct_four(2,3)
      slow_slotD(1) [OF slow_end_slots(2)] slow_slotD(1) [OF slow_end_slots(3)]]
    slow_slotD(1) [OF slow_end_slots(2)] slow_slotD(1) [OF slow_end_slots(3)]
  by (simp add: blen_def)

theorem execution_is_durable_witness:
  "\<exists>q S. prepareQc (certOf (m_node (cluster_of slow_end 1)) (mkId 1 0)) = Some q \<and> 3 \<le> card S + 1 \<and>
     S \<subseteq> {0, 1, 2 :: u32} \<and> pqc_id q = mkId 1 0"
proof -
  have "{0, 1, 2, 3} - {0, 1, 2} = {3 :: u32}" by auto
  then have size: "slow_shares (sizes (four [0, 1, 2])) = 3" "correct (four [0, 1, 2]) = {0, 1, 2}"
    "card (replicas (four [0, 1, 2]) - {0, 1, 2}) = 1"
    by (simp_all add: four_sizes) (simp_all add: four_def)
  from execution_is_durable [OF four_ok slow_end_run(2) correct_four(2)
      slow_slotD(3) [OF slow_end_slots(2)] slow_slotD(4) [OF slow_end_slots(2)]]
  show ?thesis unfolding size by blast
qed

theorem execution_follows_correct_leader_witness:
  "\<exists>p. Proposed p \<in> set (trace (m_node (cluster_of slow_end 0))) \<and> mkId (ppm_SN p) (ppm_View p) = mkId 1 0"
  using execution_follows_correct_leader [OF slow_end_run(2) correct_four(2,3,1)
      slow_slotD(2) [OF slow_end_slots(2)] slow_slotD(2) [OF slow_end_slots(3)] refl
      slow_slotD(3) [OF slow_end_slots(2)] _ slow_slotD(3) [OF slow_end_slots(3)]]
  by (auto simp: blen_def)

end
