(* ===== verification/Unchecked.thy ===== *)
theory Unchecked
  imports Disagree
begin

text \<open>
  What the code takes without looking. \<open>handlePrePrepareMsg\<close> never compares the hash of the batch
  with the digest beside it, nor the view with its own; and a primary announces a view on an
  unsigned message that a quorum of view changes is there, without counting them. All are runs
  of the processes the code starts.
\<close>

section \<open>The batch\<close>

text \<open>A proposal with the digest of one batch and the requests of another.\<close>

definition false_proposal :: PrePrepareMsg where
  "false_proposal = demo_proposal\<lparr>ppm_ReqBatch := other_batch\<rparr>"

definition run_false :: "proc option" where
  "run_false = run_events demo_env (Running (started (conf4 2))) (events4 false_proposal)"

definition stored_batch :: "MsgId \<Rightarrow> Node \<Rightarrow> RequestBatch option" where
  "stored_batch idx n = gm_get (reqBatch n) idx"

lemma run_false_result:
  "case run_false of Some (Running n) \<Rightarrow>
     executed (trace n) = [(1, mkId 1 0, demo_digest)] \<and> stored_batch (mkId 1 0) n = Some other_batch
   | _ \<Rightarrow> False"
  by code_simp

lemma honest_result:
  "case run4 1 of Some (Running n) \<Rightarrow>
     executed (trace n) = [(1, mkId 1 0, demo_digest)] \<and> stored_batch (mkId 1 0) n = Some demo_batch
   | _ \<Rightarrow> False"
  by code_simp

lemma running_result:
  assumes "case run_events demo_env (Running (started conf)) es of Some (Running n) \<Rightarrow> P n | _ \<Rightarrow> False"
  shows "\<exists>n. correct_run demo_env conf n \<and> P n"
  using assms unfolding correct_run_def reachable_iff_run by (auto split: option.splits proc.splits)

text \<open>
  C4: two correct replicas of one cluster execute the same digest under the same number and
  view and hold different batches for it: the leader sent them one digest with two batches,
  one of which does not have it.
\<close>

theorem batches_differ_under_one_digest:
  "\<exists>n m. correct_run demo_env (conf4 1) n \<and> correct_run demo_env (conf4 2) m \<and>
     executed (trace n) = [(1, mkId 1 0, demo_digest)] \<and> executed (trace m) = [(1, mkId 1 0, demo_digest)] \<and>
     stored_batch (mkId 1 0) n = Some demo_batch \<and> stored_batch (mkId 1 0) m = Some other_batch \<and>
     dataHashByte demo_crypto (j_RequestBatch demo_batch) = demo_digest \<and>
     dataHashByte demo_crypto (j_RequestBatch other_batch) \<noteq> demo_digest"
proof -
  have "dataHashByte demo_crypto (j_RequestBatch demo_batch) = demo_digest"
    "dataHashByte demo_crypto (j_RequestBatch other_batch) \<noteq> demo_digest"
    by code_simp+
  with running_result [OF honest_result [unfolded run4_def]] running_result [OF run_false_result [unfolded run_false_def]]
  show ?thesis by auto
qed

section \<open>The view\<close>

text \<open>A proposal of view 7 for the number the proposal of view 0 has.\<close>

definition stray_proposal :: PrePrepareMsg where
  "stray_proposal = demo_proposal\<lparr>ppm_View := 7\<rparr>"

definition run_stray :: "proc option" where
  "run_stray = run_events demo_env (Running (started (conf4 1)))
     [deliver_signed (PrePrepareM stray_proposal), deliver_signed (PrePrepareM demo_proposal)]"

lemma run_stray_result:
  "case run_stray of Some (Running n) \<Rightarrow>
     currenView n = 0 \<and> stored_batch (mkId 1 7) n = Some demo_batch \<and>
     trace n = [SignedPrepare (demo_vote\<lparr>vote_BatchHash := None\<rparr>), SignedPrepare demo_vote]
   | _ \<Rightarrow> False"
  by code_simp

text \<open>
  C7: a proposal that names another view is stored under that view, and answered by a vote
  for the current one, which carries no digest when the slot of the current view is empty. The
  proposal of the current view then gets a second vote, so a correct replica signs two votes
  for one slot: \<open>one_vote_per_slot\<close> cannot do without its condition on the digests.
\<close>

theorem stray_view_gets_vote:
  "\<exists>n v w. correct_run demo_env (conf4 1) n \<and> currenView n = 0 \<and> stored_batch (mkId 1 7) n = Some demo_batch \<and>
     SignedPrepare v \<in> set (trace n) \<and> SignedPrepare w \<in> set (trace n) \<and> vote_id v = vote_id w \<and>
     vote_View v = currenView n \<and> vote_BatchHash v = None \<and> vote_BatchHash w = demo_digest \<and> v \<noteq> w"
proof -
  have "demo_vote\<lparr>vote_BatchHash := None\<rparr> \<noteq> demo_vote" by code_simp
  moreover from running_result [OF run_stray_result [unfolded run_stray_def]]
  obtain n where "correct_run demo_env (conf4 1) n" "currenView n = 0" "stored_batch (mkId 1 7) n = Some demo_batch"
    "trace n = [SignedPrepare (demo_vote\<lparr>vote_BatchHash := None\<rparr>), SignedPrepare demo_vote]" by blast
  moreover have "vote_id (demo_vote\<lparr>vote_BatchHash := None\<rparr>) = vote_id demo_vote" by (simp add: vote_id_def)
  ultimately show ?thesis
    by - (rule exI [of _ n], rule exI [of _ "demo_vote\<lparr>vote_BatchHash := None\<rparr>"], rule exI [of _ demo_vote],
      simp_all add: demo_vote_def)
qed

section \<open>The quorum\<close>

text \<open>
  Replica 1 leads view 1. Replica 2 is faulty: its commit certificate, which only the leader may
  send, makes replica 1 leave view 0; it claims a stable checkpoint 5 in the only view-change
  message there is for view 1; and it sends the message that a quorum of them is there, which is
  not signed.
\<close>

definition conf_keys :: "u32 \<Rightarrow> Config" where
  "conf_keys i = (conf4 i)\<lparr>c_PublicKeyMap := map (\<lambda>j. (j, Some (replicate 32 CHR ''k''))) [0, 1, 2, 3], c_LogK := 1\<rparr>"

definition lone_claim :: ViewChangeMsg where
  "lone_claim = \<lparr>vc_View = 1, vc_LastStableCk = 5, vc_Cset = None, vc_Pset = [], vc_Qset = [], vc_ReplicaId = 2\<rparr>"

definition lone_run :: "event list \<Rightarrow> proc option" where
  "lone_run es = run_events demo_env (Running (started (conf_keys 1)))
     ([deliver_signed (CommitQcM (demo_commitQc\<lparr>cqc_ReplicaId := 2\<rparr>)), deliver_signed (ViewChangeM lone_claim)] @ es)"

lemma lone_before:
  "case lone_run [] of Some (Running n) \<Rightarrow>
     \<not> activeView n \<and> currenView n = 1 \<and> newViewStore n = [] \<and>
     viewChangeStore n = [(\<lparr>vci_View = 1, vci_ReplicaId = 2\<rparr>, lone_claim)] \<and> viewChangeQuorum (cfg n) = 3 \<and> low_h n = 0
   | _ \<Rightarrow> False"
  by code_simp

lemma lone_after:
  "case lone_run [Deliver \<lparr>Command = ViewChangeQuorumM, Sig = None\<rparr>] of Some (Running n) \<Rightarrow>
     activeView n \<and> currenView n = 1 \<and>
     gm_get (newViewStore n) 1 \<noteq> None
   | _ \<Rightarrow> False"
  by code_simp

text \<open>
  C18: the primary of a view announces it with no quorum: a reachable replica that has left view 0
  and leads view 1, with one view-change message stored where its configuration asks for three,
  and that one a faulty replica's false claim of a stable checkpoint, begins view 1 when it is
  handed the message that a quorum is there, which carries no signature. The transport decodes
  that message for any peer.
\<close>

theorem unsigned_message_begins_view:
  "\<exists>n n'. correct_run demo_env (conf_keys 1) n \<and> \<not> activeView n \<and> currenView n = 1 \<and> low_h n = 0 \<and>
     viewChangeStore n = [(\<lparr>vci_View = 1, vci_ReplicaId = 2\<rparr>, lone_claim)] \<and> quorum_for 1 (viewChangeStore n) = 1 \<and>
     viewChangeQuorum (cfg n) = 3 \<and> gm_get (newViewStore n) 1 = None \<and>
     node_step demo_env (Running n) (Deliver \<lparr>Command = ViewChangeQuorumM, Sig = None\<rparr>) (Running n') \<and>
     activeView n' \<and> currenView n' = 1 \<and> gm_get (newViewStore n') 1 \<noteq> None"
proof -
  from lone_before obtain n where n: "lone_run [] = Some (Running n)" "\<not> activeView n" "currenView n = 1"
    "newViewStore n = []" "viewChangeStore n = [(\<lparr>vci_View = 1, vci_ReplicaId = 2\<rparr>, lone_claim)]"
    "viewChangeQuorum (cfg n) = 3" "low_h n = 0" by (auto split: option.splits proc.splits)
  from lone_after obtain n' where n': "lone_run [Deliver \<lparr>Command = ViewChangeQuorumM, Sig = None\<rparr>] = Some (Running n')"
    "activeView n'" "currenView n' = 1" "gm_get (newViewStore n') 1 \<noteq> None" by (auto split: option.splits proc.splits)
  have "lone_run es = (case lone_run [] of None \<Rightarrow> None | Some q \<Rightarrow> run_events demo_env q es)" for es
    unfolding lone_run_def append_Nil2 by (rule run_events_append)
  then have "run_events demo_env (Running n) [Deliver \<lparr>Command = ViewChangeQuorumM, Sig = None\<rparr>] = Some (Running n')"
    using n(1) n'(1) by (simp only: option.case)
  then have "node_step demo_env (Running n) (Deliver \<lparr>Command = ViewChangeQuorumM, Sig = None\<rparr>) (Running n')"
    unfolding node_step_iff run_events.simps by (auto simp del: proc_next.simps split: option.splits)
  moreover have "correct_run demo_env (conf_keys 1) n"
    using n(1) unfolding correct_run_def reachable_iff_run lone_run_def by blast
  ultimately show ?thesis
    using n n' by (intro exI [of _ n] exI [of _ n']) (simp add: quorum_for_def gm_get_def)
qed

end
