(* ===== verification/KeyGen.thy ===== *)
theory KeyGen
  imports Deploy Cluster Crashes Safety
begin

text \<open>
  Key generation (\<open>GenKeys\<close> and \<open>GenTSKeys\<close> in sign/tools.go) and what it is for: the keys
  config\_gen writes let enough replicas of the generated cluster make a certificate together
  that every replica accepts, and let every replica accept what another one signs. The random sources and kyber's secret polynomials are
  parameters; a call is given the number of the random draws it makes.
\<close>

section \<open>The libraries\<close>

type_synonym PriPoly = nat

record keygen =
  ed_GenerateKey :: "nat \<Rightarrow> (string \<times> string) option"
  Scalar_Pick :: "nat \<Rightarrow> scalar"
  NewPriPoly :: "int \<Rightarrow> scalar \<Rightarrow> nat \<Rightarrow> PriPoly"
  PriPoly_Commit :: "PriPoly \<Rightarrow> PubPoly"
  PriPoly_Shares :: "PriPoly \<Rightarrow> int \<Rightarrow> PriShare list"

text \<open>Ed25519 gives the public key first, \<open>GenKeys\<close> the private one; it panics on an error.\<close>

definition GenKeys :: "keygen \<Rightarrow> nat \<Rightarrow> ('s, string \<times> string) go" where
  "GenKeys K rd =
     (case ed_GenerateKey K rd of
        None \<Rightarrow> Panic ExplicitPanic
      | Some (pubKey, privKey) \<Rightarrow> Ret (privKey, pubKey))"

definition GenTSKeys :: "keygen \<Rightarrow> nat \<Rightarrow> int \<Rightarrow> int \<Rightarrow> PriShare list \<times> PubPoly" where
  "GenTSKeys K rd t n =
     (let secret = Scalar_Pick K rd;
          priPoly = NewPriPoly K t secret (rd + 1);
          pubPoly = PriPoly_Commit K priPoly;
          shares = PriPoly_Shares K priPoly n
      in (shares, pubPoly))"

section \<open>What the threshold scheme promises\<close>

text \<open>
  Of a polynomial of a positive threshold \<open>t\<close>: its shares are numbered from 0, every share signs, and the
  signatures of at least \<open>k\<close> different shares recover, for any \<open>k\<close> not below \<open>t\<close>, to a signature
  that verifies under the polynomial's commitment.
\<close>

definition threshold_scheme_ok :: "keygen \<Rightarrow> crypto \<Rightarrow> bool" where
  "threshold_scheme_ok K C \<longleftrightarrow>
     (\<forall>t secret rd n. 0 < t \<longrightarrow> (let poly = NewPriPoly K t secret rd; shares = PriPoly_Shares K poly n in
        map share_I shares = map int [0..<nat n] \<and>
        (\<forall>m. (\<forall>s \<in> set shares. tbls_Sign C s m \<noteq> None) \<and>
           (\<forall>ss k. distinct ss \<longrightarrow> set ss \<subseteq> set shares \<longrightarrow> t \<le> k \<longrightarrow> k \<le> int (length ss) \<longrightarrow>
              (\<exists>sig. tbls_Recover C (PriPoly_Commit K poly) m (map (\<lambda>s. the (tbls_Sign C s m)) ss) k n = Some sig \<and>
                 bls_Verify C (PubPoly_Commit C (PriPoly_Commit K poly)) m sig)))))"

lemma scheme_shares:
  assumes "threshold_scheme_ok K C" and "GenTSKeys K rd t n = (shares, pub)" and "0 < t"
  shows "map share_I shares = map int [0..<nat n]" and "s \<in> set shares \<Longrightarrow> tbls_Sign C s m \<noteq> None"
    and "distinct ss \<Longrightarrow> set ss \<subseteq> set shares \<Longrightarrow> t \<le> k \<Longrightarrow> k \<le> int (length ss) \<Longrightarrow>
      \<exists>sig. tbls_Recover C pub m (map (\<lambda>s. the (tbls_Sign C s m)) ss) k n = Some sig \<and>
        bls_Verify C (PubPoly_Commit C pub) m sig"
  using assms(1) [unfolded threshold_scheme_ok_def, rule_format, of t "Scalar_Pick K rd" "rd + 1" n] assms(2,3)
  by (auto simp: GenTSKeys_def Let_def)

lemma scheme_shares_ok:
  assumes "threshold_scheme_ok K C" and "GenTSKeys K rd t (int N) = (shares, pub)" and "0 < t" and "N < 2 ^ 32"
  shows "length shares = N" and "distinct shares" and "shares_ok shares"
proof -
  note I = scheme_shares(1) [OF assms(1-3)]
  from arg_cong [OF I, of length] show "length shares = N" by simp
  from I have "distinct (map share_I shares)" by (simp add: distinct_map)
  then show "distinct shares" by (simp add: distinct_map)
  have "share_I s \<in> int ` {0..<N}" if "s \<in> set shares" for s
    using arg_cong [OF I, of set] that by (metis image_eqI list.set_map nat_int set_upt)
  with assms(4) show "shares_ok shares" by (force simp: shares_ok_def)
qed

lemma scheme_certifies:
  assumes "threshold_scheme_ok K C" and "GenTSKeys K rd t (int N) = (shares, pub)" and "0 < t" and "N < 2 ^ 32"
    and "distinct is" and "set is \<subseteq> {..<N}" and "t \<le> k" and "k \<le> int (length is)" and "env_crypto E = C"
  shows "\<exists>ps sig. map (\<lambda>i. SignTSPartial C (shares ! i) (encode msg)) is = map (Ret :: _ \<Rightarrow> (unit, _) go) ps \<and>
    createThresholdSig E msg ps pub k (int N) = (Ret (Some sig) :: (unit, _) go) \<and> verifyThresholdSig E msg pub sig"
proof -
  obtain b where b: "encode msg = Some b" by (simp add: encode_def)
  let ?m = "sign_dataHashByte C (Some b)" and ?ss = "map ((!) shares) is"
  let ?ps = "map (\<lambda>s. the (tbls_Sign C s ?m)) ?ss"
  note sizes = scheme_shares_ok [OF assms(1-4)]
  have ss: "set ?ss \<subseteq> set shares" using assms(6) sizes(1) by auto
  have "distinct ?ss"
    using assms(5,6) sizes(1,2) by (auto simp: distinct_map intro!: inj_onI) (metis lessThan_iff nth_eq_iff_index_eq subsetD)
  from scheme_shares(3) [OF assms(1-3) this ss assms(7), of ?m] assms(8) obtain sig where
    "tbls_Recover C pub ?m ?ps k (int N) = Some sig" "bls_Verify C (PubPoly_Commit C pub) ?m sig" by auto
  moreover have "map (\<lambda>i. SignTSPartial C (shares ! i) (encode msg)) is = map (Ret :: _ \<Rightarrow> (unit, _) go) ?ps"
    using ss by (auto simp: SignTSPartial_def b dest!: subsetD scheme_shares(2) [OF assms(1-3), of _ ?m])
  ultimately show ?thesis
    using assms(9)
    by (intro exI [of _ ?ps] exI [of _ sig])
      (simp add: createThresholdSig_def AssembleIntactTSPartial_def verifyThresholdSig_def VerifyTS_def b)
qed

section \<open>The keys of a generated cluster\<close>

text \<open>
  The thresholds of a generator that writes a file are positive: the slices of the faulty nodes
  panic on negative numbers, and the check bounds the sum.
\<close>

lemma drawn_length:
  assumes "generateRandomNumber rnd start stop cnt = Some drawn"
  shows "length (slice_of drawn) \<le> nat cnt"
proof (cases "stop < start \<or> stop - start < cnt")
  case True
  with assms show ?thesis by (auto simp: generateRandomNumber_def slice_of_def)
next
  case False
  with assms obtain ns where ns: "draw_loop rnd 0 start stop (nat cnt) [] = Some ns" "drawn = Some ns"
    by (auto simp: generateRandomNumber_def)
  show ?thesis
  proof (cases "start < stop")
    case True
    with draw_loop_sound [OF ns(1)] ns(2) show ?thesis by (simp add: drawn_ok_def slice_of_def)
  next
    case stop: False
    with False have "nat cnt = 0" by simp
    with ns show ?thesis by (subst (asm) draw_loop.simps) (simp add: slice_of_def)
  qed
qed

lemma generated_thresholds:
  assumes "template_ok V N" and "gen_main C V ord prv pub ts rnd wr ProcessCount = Ret files" and "files \<noteq> []"
  shows "0 < numT (int N)" and "0 < fastNum (int N) (v_GetInt V ''abmnum'') (v_GetInt V ''pbmnum'')"
proof -
  let ?bg = "v_GetInt V ''bgnum''" and ?abm = "v_GetInt V ''abmnum''" and ?pbm = "v_GetInt V ''pbmnum''"
  have one: "ProcessCount = 1" by (simp add: ProcessCount_def)
  from gen_main_files [OF assms(1) assms(2) [unfolded one]] assms(3) have N: "0 < N" by (cases files) auto
  have tot: "TotalNodeNum (int N) 1 = int N" by (simp add: TotalNodeNum_def)
  from assms(2) obtain drawn where f: "faults_allowed (int N) ?bg ?abm ?pbm"
    and d: "generateRandomNumber rnd 1 (int N) (?bg + ?abm + ?pbm) = Some drawn"
    and s: "0 \<le> ?bg" "0 \<le> ?abm" "?bg + ?abm \<le> int (length (slice_of drawn))"
    unfolding one gen_main_def gen_prepare_def Let_def template_facts(2) [OF assms(1)] tot
    by (auto simp: go_bind_eq_Ret split: if_splits option.splits)
  have third: "?bg + ?abm + ?pbm \<le> int N div 3" using f by (simp add: faults_allowed_def sdiv_nonneg)
  show "0 < numT (int N)" using N by (simp add: numT_def sdiv_nonneg)
  show "0 < fastNum (int N) ?abm ?pbm"
  proof (cases "0 \<le> ?pbm")
    case True
    with third s(1) N show ?thesis by (simp add: fastNum_def sdiv_nonneg)
  next
    case False
    with drawn_length [OF d] s have "?abm = 0" by linarith
    moreover have "?pbm sdiv 2 \<le> 0" using False by (simp add: signed_divide_int_def sgn_if)
    ultimately show ?thesis using N by (simp add: fastNum_def)
  qed
qed

text \<open>The configuration that node \<open>i\<close> loads from its file.\<close>

definition loaded :: "crypto \<Rightarrow> (string \<times> (string, iface) gomap) list \<Rightarrow> nat \<Rightarrow> Config \<Rightarrow> bool" where
  "loaded C files i conf \<longleftrightarrow>
     (\<exists>s W sd. (node_name (int i) @ ''_0.yaml'', s) \<in> set files \<and> reads_back W s \<and>
        (LoadConfig C sd W :: (unit, _) go) = Ret (Inr conf))"

lemma loading_succeeds:
  assumes "template_ok V N" and "gen_main C V ord prv pub (GenTSKeys K d, GenTSKeys K e) rnd wr ProcessCount = Ret files"
    and "kyber_marshal_ok C" and "threshold_scheme_ok K C" and "(f, s) \<in> set files" and "reads_back W s"
  shows "\<exists>i < N. f = node_name (int i) @ ''_0.yaml'' \<and> (\<exists>conf. (LoadConfig C sd W :: (unit, _) go) = Ret (Inr conf) \<and>
    node_config V N prv pub (GenTSKeys K d (numT (int N)) (int N))
      (GenTSKeys K e (fastNum (int N) (v_GetInt V ''abmnum'') (v_GetInt V ''pbmnum'')) (int N))
      (v_GetInt V ''abmnum'') (v_GetInt V ''pbmnum'') i conf \<and> n_f (cfg (NewNode conf)) = faults_of (int N))"
proof -
  have N: "N < 2 ^ 32" using assms(1) by (simp add: template_ok_def)
  let ?slow = "GenTSKeys K d (numT (int N)) (int N)"
    and ?fast = "GenTSKeys K e (fastNum (int N) (v_GetInt V ''abmnum'') (v_GetInt V ''pbmnum'')) (int N)"
  have ok: "shares_ok (fst ?slow)" "shares_ok (fst ?fast)"
    using scheme_shares_ok(3) [OF assms(4) prod.collapse [symmetric] _ N] generated_thresholds [OF assms(1,2)] assms(5)
    by (metis empty_iff empty_set)+
  have pairs: "fst (GenTSKeys K d, GenTSKeys K e) (numT (int N)) (int N) = (fst ?slow, snd ?slow)"
    "snd (GenTSKeys K d, GenTSKeys K e) (fastNum (int N) (v_GetInt V ''abmnum'') (v_GetInt V ''pbmnum'')) (int N) = (fst ?fast, snd ?fast)"
    by simp_all
  have "n_f (cfg (NewNode conf)) = faults_of (int N)" if "node_config V N prv pub slow fast abm pbm i conf" for conf slow fast abm pbm i
    using that by (simp add: node_config_def NewNode_def)
  with generated_config [OF assms(1,2,5,6,3) pairs(1) ok(1) pairs(2) ok(2) refl refl, of sd, unfolded prod.collapse]
  show ?thesis by blast
qed

lemma loaded_config:
  assumes "template_ok V N" and "gen_main C V ord prv pub (GenTSKeys K d, GenTSKeys K e) rnd wr ProcessCount = Ret files"
    and "kyber_marshal_ok C" and "threshold_scheme_ok K C" and "loaded C files i conf"
  shows "i < N" and "node_config V N prv pub (GenTSKeys K d (numT (int N)) (int N))
    (GenTSKeys K e (fastNum (int N) (v_GetInt V ''abmnum'') (v_GetInt V ''pbmnum'')) (int N))
    (v_GetInt V ''abmnum'') (v_GetInt V ''pbmnum'') i conf"
proof -
  from assms(5) obtain s W sd where f: "(node_name (int i) @ ''_0.yaml'', s) \<in> set files" "reads_back W s"
    and L: "(LoadConfig C sd W :: (unit, _) go) = Ret (Inr conf)" by (auto simp: loaded_def)
  with loading_succeeds [OF assms(1-4) f, of sd] show "i < N" "node_config V N prv pub (GenTSKeys K d (numT (int N)) (int N))
    (GenTSKeys K e (fastNum (int N) (v_GetInt V ''abmnum'') (v_GetInt V ''pbmnum'')) (int N))
    (v_GetInt V ''abmnum'') (v_GetInt V ''pbmnum'') i conf"
    by (auto simp: node_name_inj)
qed

text \<open>
  C28: a cluster of \<open>N\<close> nodes, \<open>N\<close> not leaving 2 on division by 3, whose files come from the
  generator: of any \<open>2 * f + 1\<close> nodes that have loaded theirs, with the \<open>f\<close> their own nodes compute,
  all sign shares of a message without error, every one of them recovers a signature from
  these shares, and every one accepts it. The same holds of the fast key and the fast quorum.
\<close>

theorem generated_keys_certify:
  assumes "template_ok V N" and "gen_main C V ord prv pub (GenTSKeys K d, GenTSKeys K e) rnd wr ProcessCount = Ret files"
    and "kyber_marshal_ok C" and "threshold_scheme_ok K C" and "env_crypto E = C"
    and "distinct is" and "\<And>i. i \<in> set is \<Longrightarrow> loaded C files i (conf i)"
    and "x \<in> set is" and "y \<in> set is"
  shows "(N mod 3 \<noteq> 2 \<and> 2 * n_f (cfg (NewNode (conf x))) + 1 \<le> int (length is) \<longrightarrow>
      (\<exists>ps sig. map (\<lambda>i. SignTSPartial C (c_TsPriKey (conf i)) (encode msg)) is = map (Ret :: _ \<Rightarrow> (unit, _) go) ps \<and>
        createThresholdSig E msg ps (c_TsPubKey (conf x)) (2 * n_f (cfg (NewNode (conf x))) + 1)
          (replicaCount (cfg (NewNode (conf x)))) = (Ret (Some sig) :: (unit, _) go) \<and>
        verifyThresholdSig E msg (c_TsPubKey (conf y)) sig)) \<and>
    (c_FastQcQuorum (conf x) \<le> int (length is) \<longrightarrow>
      (\<exists>ps sig. map (\<lambda>i. SignTSPartial C (c_FastPriKey (conf i)) (encode msg)) is = map (Ret :: _ \<Rightarrow> (unit, _) go) ps \<and>
        createThresholdSig E msg ps (c_FastPubKey (conf x)) (c_FastQcQuorum (conf x))
          (replicaCount (cfg (NewNode (conf x)))) = (Ret (Some sig) :: (unit, _) go) \<and>
        verifyThresholdSig E msg (c_FastPubKey (conf y)) sig))"
proof -
  have N: "N < 2 ^ 32" using assms(1) by (simp add: template_ok_def)
  note ld = loaded_config [OF assms(1-4) assms(7)]
  have sub: "set is \<subseteq> {..<N}" using ld(1) by blast
  note nc = ld(2) [unfolded node_config_def]
  have size: "n_f (cfg (NewNode (conf x))) = faults_of (int N)" "replicaCount (cfg (NewNode (conf x))) = int N"
    using nc [OF assms(8)] by (simp_all add: NewNode_def)
  have enough: "N mod 3 \<noteq> 2 \<Longrightarrow> numT (int N) \<le> 2 * faults_of (int N) + 1"
    unfolding faults_of_eq numT_def by (simp add: sdiv_nonneg) presburger
  have keys: "map (\<lambda>i. SignTSPartial C (c_TsPriKey (conf i)) (encode msg)) is =
      map (\<lambda>i. SignTSPartial C (fst (GenTSKeys K d (numT (int N)) (int N)) ! i) (encode msg) :: (unit, _) go) is"
    "map (\<lambda>i. SignTSPartial C (c_FastPriKey (conf i)) (encode msg)) is =
      map (\<lambda>i. SignTSPartial C (fst (GenTSKeys K e (c_FastQcQuorum (conf x)) (int N)) ! i) (encode msg) :: (unit, _) go) is"
    using nc nc [OF assms(8)] by auto
  note cert = scheme_certifies [OF assms(4) prod.collapse [symmetric] _ N assms(6) sub _ _ assms(5), where msg = msg]
  have "files \<noteq> []" using assms(7) [OF assms(8)] by (auto simp: loaded_def)
  note pos = generated_thresholds [OF assms(1,2) this]
  show ?thesis
    unfolding size keys
    using cert [of "numT (int N)" "2 * faults_of (int N) + 1"] cert [of "c_FastQcQuorum (conf x)" "c_FastQcQuorum (conf x)"]
      enough pos nc [OF assms(8)] nc [OF assms(9)]
    by auto
qed

text \<open>
  What Ed25519 promises: keys have their lengths, and a signature made with a private key
  verifies under the public key generated with it.
\<close>

definition ed_keys_ok :: "keygen \<Rightarrow> crypto \<Rightarrow> bool" where
  "ed_keys_ok K C \<longleftrightarrow>
     (\<forall>rd pubKey privKey. ed_GenerateKey K rd = Some (pubKey, privKey) \<longrightarrow>
        length pubKey = 32 \<and> length privKey = 64 \<and> (\<forall>m. ed_Verify C pubKey m (Some (ed_Sign C privKey m))))"

lemma generated_pair:
  assumes "ed_keys_ok K C" and "(GenKeys K rd :: (unit, _) go) = Ret (priv, pub)"
  shows "length pub = 32" and "length priv = 64" and "ed_Verify C pub m (Some (ed_Sign C priv m))"
  using assms by (auto simp: ed_keys_ok_def GenKeys_def split: option.splits prod.splits)

text \<open>
  C29: nodes of a generated cluster accept each other's messages: a message that names node \<open>x\<close> as
  its sender and is signed as every sending function of the code signs, with the private key
  \<open>x\<close> has loaded, passes the signature check of the main loop of any node \<open>y\<close>, at any time of
  its run, is noted and handed to its handler. What becomes of the process is then up to the
  handler, which may still panic.
\<close>

theorem generated_nodes_authenticate:
  assumes "template_ok V N" and "gen_main C V ord prv pub (GenTSKeys K d, GenTSKeys K e) rnd wr ProcessCount = Ret files"
    and "kyber_marshal_ok C" and "threshold_scheme_ok K C" and "ed_keys_ok K C" and "env_crypto E = C"
    and "\<And>k. (GenKeys K (rd k) :: (unit, _) go) = Ret (prv k, pub k)"
    and "loaded C files x confx" and "loaded C files y confy"
    and "sender_of msg = Some (of_nat x)" and "reachable E (started confy) (Running n)"
  shows "\<exists>sig. (SignWithPrikey C (encode (j_message msg)) (myPrivateKey (cfg (started confx))) :: (unit, _) go) = Ret sig \<and>
    node_step E (Running n) (Deliver \<lparr>Command = msg, Sig = sig\<rparr>) (main_outcome (handle E ErrCh msg (admit msg n)))"
proof -
  note x = loaded_config [OF assms(1-4,8), unfolded node_config_def] and y = loaded_config [OF assms(1-4,9), unfolded node_config_def]
  note pair = generated_pair [OF assms(5,7)]
  let ?sig = "Some (ed_Sign C (prv x) (sign_dataHashByte C (encode (j_message msg))))"
  have "cfg n = cfg (started confy)" using reachable_node(2) [OF assms(11)] by simp
  then have "gm_get (publicKey (cfg n)) (of_nat x) = Some (Some (pub x))"
    using y(2) x(1) by (simp add: started_def StartListen_def NewNode_def)
  then have "authentic E n \<lparr>Command = msg, Sig = ?sig\<rparr>"
    using assms(6,10) pair by (simp add: authentic_def signed_by_def blen_def)
  moreover have "(SignWithPrikey C (encode (j_message msg)) (myPrivateKey (cfg (started confx))) :: (unit, _) go) = Ret ?sig"
    using x(2) pair by (simp add: SignWithPrikey_def started_def StartListen_def NewNode_def blen_def)
  ultimately show ?thesis
    by (intro exI [of _ ?sig]) (simp add: deliver_step_iff dispatch_authentic main_outcome_def)
qed

section \<open>One node\<close>

text \<open>A scheme whose signatures are recovered from enough shares, and the files made with it.\<close>

definition demo_keygen :: keygen where
  "demo_keygen = \<lparr>ed_GenerateKey = (\<lambda>d. Some (''b'', ''a'')), Scalar_Pick = (\<lambda>d. 2), NewPriPoly = (\<lambda>t s d. s),
     PriPoly_Commit = (\<lambda>p. 3), PriPoly_Shares = (\<lambda>p n. map (\<lambda>i. \<lparr>share_I = int i, share_V = p\<rparr>) [0..<nat n])\<rparr>"

definition certifying_crypto :: crypto where
  "certifying_crypto = unary_crypto\<lparr>tbls_Sign := (\<lambda>s m. Some (Some (CHR ''p'' # m))),
     tbls_Recover := (\<lambda>q m ps k n. if k \<le> int (length ps) then Some (Some m) else None),
     bls_Verify := (\<lambda>p m s. s = Some m)\<rparr>"

text \<open>Keys of the right lengths; a signature is the hash under the mark of the key.\<close>

definition sized_keygen :: keygen where
  "sized_keygen = demo_keygen\<lparr>ed_GenerateKey := (\<lambda>d. Some (replicate 32 CHR ''b'', replicate 64 CHR ''a''))\<rparr>"

lemma certifying_ok: "threshold_scheme_ok demo_keygen certifying_crypto" "kyber_marshal_ok certifying_crypto"
  using unary_ok
  by (simp_all add: threshold_scheme_ok_def demo_keygen_def certifying_crypto_def Let_def comp_def kyber_marshal_ok_def)

definition certified_files :: "(unit, (string \<times> (string, iface) gomap) list) go" where
  "certified_files = gen_main certifying_crypto demo_template (\<lambda>i. 0) (\<lambda>i. ''a'') (\<lambda>i. ''b'')
     (GenTSKeys demo_keygen 0, GenTSKeys demo_keygen 2) (\<lambda>i. 0) (\<lambda>f. True) ProcessCount"

lemma certified_files_run:
  "case certified_files of
     Ret files \<Rightarrow> map fst files = [node_name 0 @ ''_0.yaml''] \<and> plain_maps (snd (hd files))
   | _ \<Rightarrow> False"
  by code_simp

theorem generated_keys_certify_witness:
  "\<exists>conf p sig. loaded certifying_crypto (case certified_files of Ret fs \<Rightarrow> fs | _ \<Rightarrow> []) 0 conf \<and>
     (SignTSPartial certifying_crypto (c_TsPriKey conf) (encode (j_VoteForPrepare demo_vote)) :: (unit, _) go) = Ret p \<and>
     verifyThresholdSig (demo_env\<lparr>env_crypto := certifying_crypto\<rparr>) (j_VoteForPrepare demo_vote) (c_TsPubKey conf) sig"
proof -
  from certified_files_run obtain files where files: "certified_files = Ret files"
    "map fst files = [node_name 0 @ ''_0.yaml'']" "plain_maps (snd (hd files))"
    by (auto split: go.split_asm)
  then obtain s where s: "files = [(node_name 0 @ ''_0.yaml'', s)]" by (cases files) auto
  with files have f: "certified_files = Ret [(node_name 0 @ ''_0.yaml'', s)]" "plain_maps s" by simp_all
  from loading_succeeds [OF demo_template_ok f(1) [unfolded certified_files_def] certifying_ok(2,1) _ plain_maps_read [OF f(2)],
      of "node_name 0 @ ''_0.yaml''" 0]
  obtain conf where q: "n_f (cfg (NewNode conf)) = faults_of 1"
    "(LoadConfig certifying_crypto 0 (viper_of s) :: (unit, _) go) = Ret (Inr conf)" by auto
  have zero: "faults_of 1 = 0" by (simp add: faults_of_eq)
  have L: "loaded certifying_crypto [(node_name 0 @ ''_0.yaml'', s)] i conf" if "i \<in> set [0]" for i
    unfolding loaded_def using that q(2) plain_maps_read [OF f(2)] by auto
  from generated_keys_certify [OF demo_template_ok f(1) [unfolded certified_files_def] certifying_ok(2,1), of
      "demo_env\<lparr>env_crypto := certifying_crypto\<rparr>" "[0]" "\<lambda>i. conf" 0 0 "j_VoteForPrepare demo_vote", OF _ _ L] q(1) zero
  obtain p sig where "(SignTSPartial certifying_crypto (c_TsPriKey conf) (encode (j_VoteForPrepare demo_vote)) :: (unit, _) go) = Ret p"
    "verifyThresholdSig (demo_env\<lparr>env_crypto := certifying_crypto\<rparr>) (j_VoteForPrepare demo_vote) (c_TsPubKey conf) sig"
    by auto
  with L [of 0] show ?thesis by (auto simp: f(1))
qed

text \<open>The same files with keys of the right lengths.\<close>

definition sized_files :: "(unit, (string \<times> (string, iface) gomap) list) go" where
  "sized_files = gen_main certifying_crypto demo_template (\<lambda>i. 0) (\<lambda>i. replicate 64 CHR ''a'') (\<lambda>i. replicate 32 CHR ''b'')
     (GenTSKeys sized_keygen 0, GenTSKeys sized_keygen 2) (\<lambda>i. 0) (\<lambda>f. True) ProcessCount"

lemma sized_files_run:
  "case sized_files of
     Ret files \<Rightarrow> map fst files = [node_name 0 @ ''_0.yaml''] \<and> plain_maps (snd (hd files))
   | _ \<Rightarrow> False"
  by code_simp

lemma sized_ok: "threshold_scheme_ok sized_keygen certifying_crypto" "ed_keys_ok sized_keygen certifying_crypto"
  using certifying_ok(1)
  by (simp_all add: sized_keygen_def threshold_scheme_ok_def demo_keygen_def ed_keys_ok_def certifying_crypto_def
      unary_crypto_def demo_crypto_def)

theorem generated_nodes_authenticate_witness:
  "\<exists>conf sig. loaded certifying_crypto (case sized_files of Ret fs \<Rightarrow> fs | _ \<Rightarrow> []) 0 conf \<and>
     node_step (demo_env\<lparr>env_crypto := certifying_crypto\<rparr>) (Running (started conf))
       (Deliver \<lparr>Command = PrePrepareM demo_proposal, Sig = sig\<rparr>)
       (main_outcome (handle (demo_env\<lparr>env_crypto := certifying_crypto\<rparr>) ErrCh (PrePrepareM demo_proposal)
          (admit (PrePrepareM demo_proposal) (started conf))))"
proof -
  let ?E = "demo_env\<lparr>env_crypto := certifying_crypto\<rparr>"
  from sized_files_run obtain files where files: "sized_files = Ret files"
    "map fst files = [node_name 0 @ ''_0.yaml'']" "plain_maps (snd (hd files))"
    by (auto split: go.split_asm)
  then obtain s where s: "files = [(node_name 0 @ ''_0.yaml'', s)]" by (cases files) auto
  with files have f: "sized_files = Ret [(node_name 0 @ ''_0.yaml'', s)]" "plain_maps s" by simp_all
  from loading_succeeds [OF demo_template_ok f(1) [unfolded sized_files_def] certifying_ok(2) sized_ok(1) _ plain_maps_read [OF f(2)],
      of "node_name 0 @ ''_0.yaml''" 0]
  obtain conf where q: "(LoadConfig certifying_crypto 0 (viper_of s) :: (unit, _) go) = Ret (Inr conf)" by auto
  then have L: "loaded certifying_crypto [(node_name 0 @ ''_0.yaml'', s)] 0 conf"
    unfolding loaded_def using plain_maps_read [OF f(2)] by auto
  have "sender_of (PrePrepareM demo_proposal) = Some (of_nat 0)" by (simp add: demo_proposal_def)
  from generated_nodes_authenticate [OF demo_template_ok f(1) [unfolded sized_files_def] certifying_ok(2) sized_ok(1,2), of ?E "\<lambda>k. 0",
      OF _ _ L L this reachable.start] L
  show ?thesis by (auto simp: f(1) GenKeys_def sized_keygen_def)
qed

end
