(* ===== verification/Startup.thy ===== *)
theory Startup
  imports Deploy Wire
begin

text \<open>
  The whole of main.go up to the main loop: loading the configuration, \<open>NewNode\<close>,
  \<open>StartListen\<close>, \<open>StartConnect\<close> and \<open>StartRPCListen\<close>. Which sockets can be bound, which dials
  succeed and whether net/rpc accepts the handler are inputs.
\<close>

section \<open>Serving clients\<close>

text \<open>
  \<open>StartRPCListen\<close> returns an error of \<open>rpc.Register\<close>, and ends the process through \<open>log.Fatal\<close>
  when its port is taken. The goroutine that should close the listener waits for a channel
  that \<open>NewNode\<close> never makes, so once open the listener stays open.
\<close>

datatype rpc_listen = RegisterFails | FatalExit | ServingOn string

definition StartRPCListen :: "bool \<Rightarrow> bool \<Rightarrow> Node \<Rightarrow> rpc_listen" where
  "StartRPCListen registered bound n =
     (if \<not> registered then RegisterFails
      else if \<not> bound then FatalExit
      else ServingOn ('':'' @ itoa (rpcListenPort (cfg n))))"

section \<open>The process\<close>

record sockets =
  p2p_bound :: bool
  dials :: "nat \<Rightarrow> bool"
  dial_order :: nat
  rpc_registered :: bool
  rpc_bound :: bool

text \<open>The last case is a configuration that is never read to its end.\<close>

datatype process =
    Serving Node NetworkTransport "string list" string
  | Exits
  | Panics go_panic
  | Hangs

text \<open>
  \<open>Serving\<close> holds the node, its transport, the peers that were reached and the address clients
  call. The timeout is 10 seconds.
\<close>

definition go_main :: "crypto \<Rightarrow> nat \<Rightarrow> viper \<Rightarrow> sockets \<Rightarrow> process" where
  "go_main C sd V S =
     (case (LoadConfig C sd V :: (unit, _) go) of
        Panic p \<Rightarrow> Panics p
      | Block u \<Rightarrow> Hangs
      | Ret (Inl e) \<Rightarrow> Panics ExplicitPanic
      | Ret (Inr conf) \<Rightarrow>
          (let tr = NewTCPTransport (p2p_bound S) ('':'' @ itoa (c_P2PListenPort conf)) 10000000000 (c_MaxPool conf);
               (n, e) = StartListen (tr \<noteq> None) (NewNode conf)
           in if e \<noteq> None then Panics ExplicitPanic else
           let (reached, e) = StartConnect tr (dials S) (dial_order S) n
           in if e \<noteq> None then Panics ExplicitPanic else
           case StartRPCListen (rpc_registered S) (rpc_bound S) n of
             RegisterFails \<Rightarrow> Panics ExplicitPanic
           | FatalExit \<Rightarrow> Exits
           | ServingOn addr \<Rightarrow> Serving n (the tr) reached addr))"

lemma go_main_serves:
  assumes "(LoadConfig C sd V :: (unit, _) go) = Ret (Inr conf)" and "p2p_bound S" and "rpc_registered S" and "rpc_bound S"
  shows "\<exists>t reached. go_main C sd V S = Serving (started conf) t reached ('':'' @ itoa (c_RPCListenPort conf)) \<and>
    LocalAddr t = '':'' @ itoa (c_P2PListenPort conf) \<and>
    reached = establish_loop (dials S) 0 (started conf) (range_order (dial_order S) (c_ClusterAddr conf))"
  using assms
  by (simp add: go_main_def NewTCPTransport_def newTCPTransport_def StartListen_def started_def StartConnect_def establishConns_def
      StartRPCListen_def NewNode_def Let_def LocalAddr_def stream_Addr_def NewNetworkTransport_def
      NewNetworkTransportWithConfig_def setupStreamContext_def)

text \<open>Any other outcome of the configuration or the sockets ends the process.\<close>

lemma go_main_serving_iff:
  "(\<exists>n t reached addr. go_main C sd V S = Serving n t reached addr) \<longleftrightarrow>
     (\<exists>conf. (LoadConfig C sd V :: (unit, _) go) = Ret (Inr conf)) \<and> p2p_bound S \<and> rpc_registered S \<and> rpc_bound S"
  by (auto simp: go_main_def NewTCPTransport_def newTCPTransport_def StartListen_def StartConnect_def
      StartRPCListen_def Let_def split: go.splits sum.splits)

section \<open>Starting a generated node\<close>

text \<open>A map of \<open>N\<close> entries that has an entry for every number below \<open>N\<close> has no other.\<close>

lemma numbered_entries:
  fixes m :: "(u32, 'v) gomap"
  assumes "length m = N" and "N < 2 ^ 32" and "\<And>j. j < N \<Longrightarrow> gm_get m (of_nat j) = Some (f j)"
  shows "set m = (\<lambda>j. (of_nat j, f j)) ` {..<N}"
proof (rule sym, rule card_subset_eq)
  show "(\<lambda>j. (of_nat j, f j)) ` {..<N} \<subseteq> set m" using assms(3) by (auto dest: gm_getD)
  have "inj_on (\<lambda>j. (of_nat j :: u32, f j)) {..<N}"
    using assms(2) by (auto intro!: inj_onI simp: of_nat_u32_inj)
  then have "N = card ((\<lambda>j. (of_nat j :: u32, f j)) ` {..<N})" by (simp add: card_image)
  also have "\<dots> \<le> card (set m)" using assms(3) by (intro card_mono) (auto dest: gm_getD)
  finally show "card ((\<lambda>j. (of_nat j :: u32, f j)) ` {..<N}) = card (set m)"
    using card_length [of m] assms(1) \<open>N = card _\<close> by simp
qed simp

lemma peers_dialled:
  assumes "node_config V N prv pub slow fast abm pbm i conf" and "i < N" and "N < 2 ^ 32" and "\<forall>k. dial k"
  shows "set (establish_loop dial 0 (started conf) (range_order s (c_ClusterAddr conf))) =
    (\<lambda>j. template_addr V j @ '':'' @ itoa (template_port V j)) ` ({..<N} - {i})"
proof -
  from assms(1) have c: "c_ReplicaId conf = of_nat i" "length (c_ClusterAddr conf) = N"
    "\<And>j. j < N \<Longrightarrow> gm_get (c_ClusterAddr conf) (of_nat j) = Some (template_addr V j)"
    "\<And>j. j < N \<Longrightarrow> gm_get (c_ClusterPort conf) (of_nat j) = Some (template_port V j)"
    by (simp_all add: node_config_def)
  have cf: "replicaId (cfg (started conf)) = of_nat i" "clusterPort (cfg (started conf)) = c_ClusterPort conf"
    using c(1) by (simp_all add: started_def StartListen_def NewNode_def)
  have "{e \<in> (\<lambda>j. (of_nat j :: u32, template_addr V j)) ` {..<N}. fst e \<noteq> of_nat i} =
      (\<lambda>j. (of_nat j, template_addr V j)) ` ({..<N} - {i})"
    using assms(2,3) by (auto simp: of_nat_u32_inj)
  then have "set (establish_loop dial 0 (started conf) (range_order s (c_ClusterAddr conf))) =
      (\<lambda>(j, addr). full_addr (started conf) j addr) ` (\<lambda>j. (of_nat j, template_addr V j)) ` ({..<N} - {i})"
    using establish_all [of dial 0 "started conf" "range_order s (c_ClusterAddr conf)"] assms(4)
      numbered_entries [OF c(2) assms(3) c(3)]
    by (simp add: cf(1) case_prod_beta)
  also have "\<dots> = (\<lambda>j. template_addr V j @ '':'' @ itoa (template_port V j)) ` ({..<N} - {i})"
    using c(4) by (auto simp: image_image full_addr_def gm_get0_def cf(2) intro!: image_cong)
  finally show ?thesis .
qed

text \<open>
  C30: a node started on a file the generator wrote for a template of \<open>N\<close> nodes, whose two
  ports can be bound and whose service net/rpc registers: whatever peers answer its dials, it
  serves clients on its configured port and enters the main loop in the initial state of the
  model with its own configuration; if all of them answer it has reached the configured address
  of every other node, once it is not its own.
\<close>

theorem generated_node_starts:
  assumes "template_ok V N" and "gen_main C V ord prv pub ts rnd wr ProcessCount = Ret files"
    and "(f, s) \<in> set files" and "reads_back W s" and "kyber_marshal_ok C"
    and "fst ts (numT (int N)) (int N) = (shares, pubPoly)" and "shares_ok shares"
    and "snd ts (fastNum (int N) abm pbm) (int N) = (fastShares, fastPubPoly)" and "shares_ok fastShares"
    and "abm = v_GetInt V ''abmnum''" and "pbm = v_GetInt V ''pbmnum''"
    and "p2p_bound S" and "rpc_registered S" and "rpc_bound S"
  shows "\<exists>i < N. f = node_name (int i) @ ''_0.yaml'' \<and> (\<exists>conf t reached.
     go_main C sd W S = Serving (started conf) t reached ('':'' @ itoa (c_RPCListenPort conf)) \<and>
     LocalAddr t = '':'' @ itoa (c_P2PListenPort conf) \<and>
     node_config V N prv pub (shares, pubPoly) (fastShares, fastPubPoly) abm pbm i conf \<and>
     ((\<forall>k. dials S k) \<longrightarrow>
        set reached = (\<lambda>j. template_addr V j @ '':'' @ itoa (template_port V j)) ` ({..<N} - {i})))"
proof -
  have N: "N < 2 ^ 32" using assms(1) by (simp add: template_ok_def)
  from generated_config [OF assms(1-11), of sd] obtain i conf where
    i: "i < N" "f = node_name (int i) @ ''_0.yaml''" "(LoadConfig C sd W :: (unit, _) go) = Ret (Inr conf)"
      "node_config V N prv pub (shares, pubPoly) (fastShares, fastPubPoly) abm pbm i conf" by blast
  with go_main_serves [OF i(3) assms(12-14)] peers_dialled [OF i(4,1) N, of "dials S" "dial_order S"]
  show ?thesis by blast
qed

theorem generated_node_starts_witness:
  "\<exists>conf t. go_main unary_crypto 0 (viper_of (snd (hd demo_files)))
       \<lparr>p2p_bound = True, dials = (\<lambda>k. True), dial_order = 0, rpc_registered = True, rpc_bound = True\<rparr> =
     Serving (started conf) t [] ('':'' @ itoa (c_RPCListenPort conf)) \<and> c_ReplicaId conf = 0"
proof -
  have fi: "(fst (hd demo_files), snd (hd demo_files)) \<in> set demo_files" using demo_files_eq(2) by simp
  have sh: "shares_ok [\<lparr>share_I = 0, share_V = 2\<rparr>]" by (simp add: shares_ok_def)
  from generated_node_starts [OF demo_template_ok demo_files_eq(1) fi plain_maps_read [OF demo_files_eq(3)] unary_ok _ sh _ sh refl refl,
      of 3 3 "\<lparr>p2p_bound = True, dials = (\<lambda>k. True), dial_order = 0, rpc_registered = True, rpc_bound = True\<rparr>" 0]
  obtain conf t reached where "go_main unary_crypto 0 (viper_of (snd (hd demo_files)))
       \<lparr>p2p_bound = True, dials = (\<lambda>k. True), dial_order = 0, rpc_registered = True, rpc_bound = True\<rparr> =
     Serving (started conf) t reached ('':'' @ itoa (c_RPCListenPort conf))" "c_ReplicaId conf = 0" "set reached = {}"
    by (auto simp: demo_shares_def node_config_def lessThan_Suc)
  then show ?thesis by auto
qed

end
