(* ===== verification/Progress.thy ===== *)
theory Progress
  imports Execution Crashes
begin

text \<open>
  Progress of one replica: the delivery of a certificate that completes the evidence for the
  next number leads to the execution of that number, on the fast path by way of the goroutine
  the delivery starts, on the slow path in the handler itself.
\<close>

section \<open>The fast path\<close>









section \<open>The slow path\<close>

text \<open>
  C10: on the slow path, a reachable replica that takes part in a view, holds the proposal and the
  prepare certificate of the next number and has become prepared executes the number when the
  leader delivers the first commit certificate of the slot: within that delivery, if the
  certificate's threshold signature verifies over the prepare certificate held, whatever order the
  messages before it came in. The number is inside the window and the proposal has a digest;
  automatic view changes are off, the checkpoint interval is positive, and neither the number nor
  the buffer is at the end of its range.
\<close>

theorem commit_certificate_executes:
  assumes "reachable E (started conf) (Running n)"
    and "authentic E n \<lparr>Command = CommitQcM q, Sig = sg\<rparr>"
    and "activeView n" and "inWatermarks n (cqc_SN q)"
    and "primary n (currenView n) = (Ret (cqc_ReplicaId q) :: (Node, u32) go)"
    and "idx = mkId (cqc_SN q) (cqc_View q)"
    and "reqBatchStage (certOf n idx) = prepared" and "commitQc (certOf n idx) = None"
    and "cqc_valid E (cfg n) (prepareQc (certOf n idx)) q" and "reqBatchDigest (certOf n idx) \<noteq> None"
    and "cqc_SN q = lastExec n + 1" and "lastExec n < cqc_SN q"
    and "autoViewChange (cfg n) \<noteq> 1" and "n_T (cfg n) \<noteq> 0" and "Suc (length (execReqBuffer n)) < 2 ^ 32"
  shows "\<exists>n'. node_step E (Running n) (Deliver \<lparr>Command = CommitQcM q, Sig = sg\<rparr>) (Running n') \<and>
    Executed (cqc_SN q) idx (reqBatchDigest (certOf n idx)) \<in> set (trace n')"
proof -
  let ?r = "receive (CommitQcM q) n" and ?put = "\<lambda>c. c\<lparr>commitQc := Some q\<rparr>"
  let ?g = "snd (getCert idx (modCert idx ?put (snd (getCert idx ?r))))"
  from reachable_node(1) [OF assms(1), of n] have core: "core_reach E (cfg n) (abs_node n)" by simp
  from core_reach_cert_wf [OF core, of idx] assms(7) obtain pq where pq: "prepareQc (certOf n idx) = Some pq"
    by (auto simp: cert_wf_def)
  have "core_step E (cfg n) (abs_node n) (abs_node ?r)"
    using core_step.receive [of E "cfg n" "CommitQcM q" "abs_node n"] assms(2)
    by (auto simp: vouched_def authentic_def)
  note core_reach.step [OF core this]
  moreover have "core_step E (cfg n) (abs_node ?r) (upd_cert idx ?put (abs_node ?r))"
    using core_step.store_commitQc [of "abs_node ?r" idx q E "cfg n"] assms(8) by simp
  ultimately have "core_reach E (cfg n) (upd_cert idx ?put (abs_node ?r))" by (rule core_reach.step)
  moreover have abs: "abs_node ?g = upd_cert idx ?put (abs_node ?r)" "cfg ?g = cfg n" by simp_all
  ultimately have core_g: "core_reach E (cfg ?g) (abs_node ?g)" by simp
  have r: "certOf ?r = certOf n" by (simp add: receive_def certOf_def fun_eq_iff)
  have cert: "certOf ?g = (certOf n)(idx := (certOf n idx)\<lparr>commitQc := Some q\<rparr>)"
    by (rule ext) (simp add: certOf_modCert r)
  have g: "execReqBuffer ?g = execReqBuffer n" "lastExec ?g = lastExec n"
    by (simp_all add: receive_def modCert_def getCert_def Let_def split: option.split)
  have "core_step E (cfg ?g) (abs_node ?g) (upd_cert idx (\<lambda>c. c\<lparr>reqBatchStage := committed\<rparr>) (abs_node ?g))"
    using core_step.to_committed_slow [of "abs_node ?g" idx q E "cfg ?g"] assms(7,9) by (simp add: cert)
  note step = this
  define m where "m = ?g"
  have sn: "id_Sn idx = lastExec n + 1" "lastExec n < id_Sn idx" using assms(6,11,12) by simp_all
  have m: "cfg m = cfg n" "execReqBuffer m = execReqBuffer n"
    "lastExec m = lastExec n" "certOf m idx = (certOf n idx)\<lparr>commitQc := Some q\<rparr>"
    unfolding m_def by (simp_all only: g cert abs(2) fun_upd_same)
  from commit_executes [OF core_g step, of ErrCh, folded m_def, unfolded m sn(1)] assms(10-15) sn(2) obtain n' where
    n': "executeRequest E idx ErrCh (modCert idx (\<lambda>c. c\<lparr>reqBatchStage := committed\<rparr>) m) = Ret n'"
      "Executed (cqc_SN q) idx (reqBatchDigest (certOf n idx)) \<in> set (trace n')"
    by auto
  have "checkIfCommitted E idx ErrCh (modCert idx ?put (snd (getCert idx ?r))) = Ret n'"
    using assms(7,9) n'(1) by (simp add: checkIfCommitted_def Let_def case_prod_unfold certOf_modCert cqc_valid_def r m_def)
  moreover have "primary ?r (currenView ?r) = (Ret (cqc_ReplicaId q) :: (Node, u32) go)" "activeView ?r" "inWatermarks ?r (cqc_SN q)"
    using assms(3-5) by (simp_all add: receive_def primary_def inWatermarks_def)
  ultimately have "handleCommitQc E q ErrCh ?r = Ret n'"
    using assms(8,9) pq unfolding assms(6) [symmetric]
    by (simp add: handleCommitQc_def Let_def case_prod_unfold cqc_valid_def assms(6) [symmetric] j_ptr_def r)
  with assms(2) n'(2) show ?thesis
    by (auto simp: deliver_step_iff dispatch_authentic admit_def main_outcome_def)
qed

definition before_commit :: "proc option" where
  "before_commit = run_events demo_env (Running (started (demo_conf 2))) (take 7 slow_events)"

lemma before_commit_result:
  "case before_commit of Some (Running n) \<Rightarrow>
     authentic demo_env n \<lparr>Command = CommitQcM demo_commitQc, Sig = Some ''s''\<rparr> \<and> activeView n \<and>
     inWatermarks n (cqc_SN demo_commitQc) \<and>
     (case primary n (currenView n) of Ret i \<Rightarrow> i = cqc_ReplicaId demo_commitQc | Panic p \<Rightarrow> False | Block (m :: Node) \<Rightarrow> False) \<and>
     reqBatchStage (certOf n (mkId 1 0)) = prepared \<and> commitQc (certOf n (mkId 1 0)) = None \<and>
     cqc_valid demo_env (cfg n) (prepareQc (certOf n (mkId 1 0))) demo_commitQc \<and>
     reqBatchDigest (certOf n (mkId 1 0)) = demo_digest \<and>
     lastExec n = 0 \<and> autoViewChange (cfg n) = 0 \<and> n_T (cfg n) = 5 \<and> length (execReqBuffer n) = 0
   | _ \<Rightarrow> False"
  by code_simp

theorem commit_certificate_executes_witness:
  "\<exists>n n'. reachable demo_env (started (demo_conf 2)) (Running n) \<and>
     node_step demo_env (Running n) (deliver_signed (CommitQcM demo_commitQc)) (Running n') \<and>
     Executed 1 (mkId 1 0) demo_digest \<in> set (trace n')"
proof -
  obtain n where run: "before_commit = Some (Running n)" and
    n: "authentic demo_env n \<lparr>Command = CommitQcM demo_commitQc, Sig = Some ''s''\<rparr>" "activeView n"
     "inWatermarks n (cqc_SN demo_commitQc)"
     "primary n (currenView n) = (Ret (cqc_ReplicaId demo_commitQc) :: (Node, u32) go)"
     "reqBatchStage (certOf n (mkId 1 0)) = prepared" "commitQc (certOf n (mkId 1 0)) = None"
     "cqc_valid demo_env (cfg n) (prepareQc (certOf n (mkId 1 0))) demo_commitQc"
     "reqBatchDigest (certOf n (mkId 1 0)) = demo_digest"
     "lastExec n = 0" "autoViewChange (cfg n) = 0" "n_T (cfg n) = 5" "length (execReqBuffer n) = 0"
    using before_commit_result by (auto split: option.splits proc.splits go.splits)
  have q: "cqc_SN demo_commitQc = 1" "mkId 1 0 = mkId (cqc_SN demo_commitQc) (cqc_View demo_commitQc)" "demo_digest \<noteq> None"
    by (simp_all add: demo_commitQc_def demo_digest_def encode_def)
  have r: "reachable demo_env (started (demo_conf 2)) (Running n)"
    using run by (auto simp: reachable_iff_run before_commit_def)
  from commit_certificate_executes [OF r n(1-4) q(2) n(5-7)] n(8-12) q r show ?thesis by auto
qed

end
