(* ===== verification/Spec2Isabelle.thy ===== *)
theory Spec2Isabelle
  imports Agreement Watermarks SlotAssign Wire Deploy Client
    Execution Disagree Crashes Cluster Batching Views Proposing Codec
    Rounds Unchecked KeyGen Startup Progress
begin

text \<open>
  \<^bold>\<open>The trebiz replica\<close>

  trebiz (the Go module github.com/treble-h/trebiz) is a Byzantine-fault-tolerant replica of
  the PBFT family. A leader proposes batches of client requests under sequence numbers
  (pre-prepare); replicas answer with threshold-signature shares (prepare votes); the leader
  assembles a prepare certificate, or, when a larger fast quorum answers before a timer
  expires, a fast certificate; a prepare certificate is followed by a round of commit votes.
  Committed batches are executed in order, checkpoints move a window of numbers, and a view
  change replaces the leader. This library models the program from its sources and proves
  what makes it correct, and where it is not.

  \<^bold>\<open>How the parts interact\<close>

  One process (main.go) loads a configuration (config/config.go, written by
  config\_gen/main.go), builds a node (core/node.go) and runs: the main loop \<open>StartPBFT\<close>,
  which takes one signed message at a time from the transport (core/net\_transport.go,
  core/tcp\_transport.go) and calls its handler (core/core.go, core/viewchange.go); the batch
  loop, which turns the requests clients send by RPC (client/main.go, core/rpchandler.go)
  into proposals; the view-change timer (core/timer\_control.go); and goroutines for sending,
  checkpoints, fast-path timers and proposals. Signatures and keys are in sign/tools.go,
  hashing and JSON in core/utils.go.

  \<^bold>\<open>The theories\<close>

  \<^item> \<open>Prelude\<close>: how a Go statement ends (return, panic, block for ever), byte slices with nil,
    maps with the runtime's iteration order as a seed, fixed-width integers.
  \<^item> \<open>Messages\<close>, \<open>Encoding\<close>, \<open>Json\<close>, \<open>JsonParse\<close>, \<open>Utils\<close>, \<open>Codec\<close>: the message structs of
    core/msg\_type.go, decimal, hexadecimal and base64 text, the JSON text Go's encoder
    writes, the decoder of the key files, that the bytes a replica signs determine the vote,
    and that the code's \<open>sort.Interface\<close> leaves a sort no choice.
  \<^item> \<open>Sign\<close>, \<open>Keys\<close>, \<open>KeyGen\<close>: sign/tools.go over records of cryptographic parameters; key
    files and their round trips; that with the keys of a generated cluster replicas make
    certificates all accept, and accept each other's messages.
  \<^item> \<open>Timer\<close>: the timer's loop as a state machine, the interface its users rely on, and what the
    loop computes, as a function of its inputs without a state.
  \<^item> \<open>Config\<close>, \<open>LoadConfig\<close>, \<open>ConfigGen\<close>, \<open>Generate\<close>, \<open>Deploy\<close>, \<open>Cluster\<close>, \<open>Quorums\<close>: the
    configuration, its loading and its generation; that every generated file loads into the
    configuration the generator meant; the generator's numbers, and the quorum systems.
  \<^item> \<open>Node\<close>, \<open>NodeOps\<close>: the state of a node as a record with one field per Go field, and
    the primitives of core/node.go. Goroutines are a pool of tasks in the state. Ghost fields
    log what a run has done: \<open>sent\<close> the messages written to connections, \<open>rcvd\<close> the ones whose
    signature was verified, \<open>trace\<close> the votes signed, the batches proposed or taken from a
    new-view message, and the executions, in order. The code's definitions only
    write them.
  \<^item> \<open>Normal\<close>: core/core.go, one definition per function. \<open>ViewChange\<close>, \<open>NewView\<close>:
    core/viewchange.go. \<open>BatchLoop\<close>: the batch loop and \<open>ReceiveNewRequest\<close>.
  \<^item> \<open>Dispatch\<close>, \<open>Runs\<close>: the main loop and the process as a transition system; \<open>Runs\<close> computes
    it, and runs a small cluster that the witnesses use. \<open>Eval\<close> makes it executable.
    \<open>Startup\<close>: main.go up to the loop, with \<open>StartRPCListen\<close>.
  \<^item> \<open>Core\<close>, \<open>Frame\<close>, \<open>Refine\<close>, \<open>Replica\<close>: an abstract machine with fifteen guarded rules
    over certificates, execution buffer, received messages and log; its invariants; and the proof that every
    operation of the program performs a sequence of its steps.
  \<^item> \<open>Handlers\<close>: what the handlers leave alone, as three nested locales over the writes they
    make; every interpretation is an invariant or a frame of the whole process. \<open>Numbering\<close>
    is one: a leader's proposals carry consecutive numbers.
  \<^item> \<open>Safety\<close>, \<open>Execution\<close>, \<open>Agreement\<close>, \<open>Disagree\<close>, \<open>Unchecked\<close>: one replica, then several.
    Execution is in order, on evidence, complete, and returns; certificates agree;
    executions need not, what a leader proposes is not checked, and neither is the message that
    a quorum of view changes is there.
  \<^item> \<open>Progress\<close>: the delivery that completes the evidence for the next number gets it executed,
    on either path.
  \<^item> \<open>Network\<close>, \<open>Rounds\<close>: a whole cluster as a step relation over its members, where a message
    that is delivered was sent by a correct replica or made by a faulty one; agreement,
    durability and fidelity to a correct leader in every run; and two whole rounds of a
    cluster of four, computed, as their concrete instances.
  \<^item> \<open>Watermarks\<close>, \<open>LeaveView\<close>, \<open>NewPrimary\<close>, \<open>SlotAssign\<close>, \<open>Views\<close>, \<open>Proposing\<close>: checkpoints
    and the window; leaving a view; the new primary's checks and its assignment of batches;
    when a new view begins; what its leader can propose.
  \<^item> \<open>Batching\<close>, \<open>Client\<close>: no request is lost at a leader; the client program and its calls.
  \<^item> \<open>Transport\<close>, \<open>Wire\<close>: framing, connections and their pool, the accept loop's back-off;
    what arrives is a prefix of what was sent, and the abstract sending of \<open>NodeOps\<close> is
    what the transport does.
  \<^item> \<open>Crashes\<close>: the deliveries that end a process.
\<close>

text \<open>
  \<^bold>\<open>Correspondence\<close>

  A Go statement is a function from the node to a value of type \<open>go\<close>: \<open>Ret\<close>, \<open>Panic\<close> or
  \<open>Block\<close> (a send on a nil or full channel, an endless loop), which keeps the state reached.
  A struct is a record, an enum or a set of dynamic types a datatype. \<open>uint32\<close> and \<open>int64\<close>
  are words of their width, Go's \<open>int\<close> is unbounded where the code only counts with it. A
  map is an association list with distinct keys (\<open>gomap\<close>); a range loop visits a
  permutation chosen by a seed, and every permutation has a seed. A nil slice is \<open>None\<close>; a nil
  map is not told from an empty one, also in the JSON of a view-change message, where Go writes
  null for the one and an empty object for the other.
  Time, random numbers, iteration orders and the fate of each send come from the environment
  record \<open>env\<close>, indexed by a clock every reading operation advances; theorems hold for every
  environment. Printing is left out.

  Steps are atomic: a handler, a turn of the batch loop or a goroutine runs without
  interruption. The Go code shares the node between these without locks; its data races
  inside a handler are not modelled. A goroutine started inside a handler runs later, at any
  time and in any order, or never. A panic in a handler ends the process, and with it goes
  what that handler had already done: the messages it had sent before it are not in the log.

  \<^bold>\<open>Assumptions\<close>

  Code outside the repository is a parameter: SHA-256, Ed25519, the threshold scheme of
  kyber, viper, MsgPack, the network. What is assumed of it is a hypothesis of the theorem
  that needs it: that marshalling keys round-trips (\<open>kyber_marshal_ok\<close>), that encoding a
  message is a prefix code that decodes (\<open>codec_ok\<close>), that a verifying threshold signature has
  enough signers (\<open>unforgeable\<close> in \<open>Agreement\<close>, \<open>genuine\<close> in \<open>Network\<close>), that enough shares
  of a generated key recover to a signature that verifies (\<open>threshold_scheme_ok\<close>), that a
  signature verifies under the key generated with its own (\<open>ed_keys_ok\<close>), and what the cli
  library found in the arguments. The client's network is a function of the address dialled and
  the request. Each has a concrete instance in a witness.

  \<^bold>\<open>Fuel and loops\<close>

  The execution loop takes one unit of fuel per buffered number and one for the last test;
  \<open>exec_loop_enough_fuel\<close> shows that more makes no difference below \<open>2 ^ 32\<close> entries, and
  \<open>executeRequest_returns\<close> that it returns. The assignment loop of the new primary is a
  \<open>while_option\<close> whose value is \<open>None\<close> when it does not end; \<open>assignSequenceNumbers_exact\<close> and
  \<open>assign_diverges\<close> say when it does and does not. The drawing of faulty nodes is a partial
  function with its condition of return (\<open>generateRandomNumber_returns\<close>). All other loops
  are structural or over a finite list.

  \<^bold>\<open>What the properties show\<close>

  Safety of certificates: agreement on digests that are not empty, one vote per slot, verified and never replaced
  certificates, execution in order and on evidence; in a cluster, certificates agree, what was
  executed on a commit certificate is held by a quorum, and what correct replicas execute from
  a correct leader's proposals are its batches, the same at all of them. Against it stand \<open>execution_can_disagree\<close>, since the digest
  executed is never compared with the certified one, and \<open>batches_differ_under_one_digest\<close>
  and \<open>stray_view_gets_vote\<close>, since neither the batch nor the view of a proposal is checked: a
  faulty leader makes correct replicas execute different batches. The view change is
  characterised piece by piece (sets sent, check made, number chosen, slots assigned, quorum
  counted), with the defects found: the last number of the window makes a correct node's
  message unacceptable, no view can begin before the first checkpoint, a new leader drops what
  it is given until its window moves, an unsigned message makes a primary announce a view with
  no quorum, and a certificate beside a pre-prepare wins a slot without being compared to it. Liveness is proved where the code has it: leaving a view
  completes, execution returns, and in any reachable state the certificate that completes the
  evidence for the next number gets it executed, on the fast path and on the slow one. The transport delivers prefixes. From
  the generator to the cluster: its quorums intersect, its files load, a node started on one
  serves, and the keys in them let enough replicas make certificates all accept.

  \<^bold>\<open>Not modelled\<close>

  Loggers, locks, printing and the channel \<open>Consumer\<close> returns, which keep no state of the
  protocol; \<open>RPCResponse\<close>, \<open>Respond\<close> and the \<open>decode\<close> of core/utils.go, which nothing calls; data races inside a handler. What
  libraries do inside: net/rpc and HTTP serving, the parsing of arguments, key generation,
  the exact bytes of message bodies on the wire (MsgPack). The Python log analysis and the
  Ansible playbooks are not part of the program.
\<close>

end
